(* ===== verification/Vmsh_Prelude.thy ===== *)
theory Vmsh_Prelude
  imports Main "HOL-Library.Word"
begin

text \<open>
  Shared vocabulary of the development: machine integers, results and panics, checked
  arithmetic, slices, and the byte encodings the components share.

  The host program is compiled with Rust's development profile (the \<^verbatim>\<open>justfile\<close> runs
  \<^verbatim>\<open>cargo run\<close> and \<^verbatim>\<open>cargo build\<close>), in which an integer operation that overflows panics.
  Every such operation is a checked operation here, and the overflow is the value
  \<open>Inl (Panic ...)\<close>. Where a result is \<open>Inr\<close>, the wrapping arithmetic of a release build
  gives the same value.
\<close>

unbundle bit_operations_syntax

section \<open>Machine integers\<close>

type_synonym u8 = "8 word"
type_synonym u16 = "16 word"
type_synonym u32 = "32 word"
type_synonym u64 = "64 word"
type_synonym usize = "64 word"
type_synonym isize = "64 word"  \<comment> \<open>two's complement, read with \<open>sint\<close>\<close>
type_synonym bytes = "8 word list"

section \<open>Results: errors, panics\<close>

text \<open>
  \<open>Err\<close> is a \<^verbatim>\<open>SimpleError\<close>: the messages given to \<^verbatim>\<open>bail!\<close>, \<^verbatim>\<open>require_with!\<close> and, outermost
  first, to the enclosing \<^verbatim>\<open>try_with!\<close>s (without their formatted arguments). \<open>Panic\<close> is a
  Rust panic: it is not caught by \<^verbatim>\<open>?\<close> or \<^verbatim>\<open>try_with!\<close> and carries no context.
\<close>

datatype error = Err "string list" | Panic string

type_synonym 'a res = "error + 'a"

fun bind_res :: "'a res \<Rightarrow> ('a \<Rightarrow> 'b res) \<Rightarrow> 'b res" where
  "bind_res (Inl e) f = Inl e"
| "bind_res (Inr x) f = f x"

fun try_with :: "'a res \<Rightarrow> string \<Rightarrow> 'a res" where
  "try_with (Inl (Err ctx)) msg = Inl (Err (msg # ctx))"
| "try_with (Inl (Panic p)) msg = Inl (Panic p)"
| "try_with (Inr x) msg = Inr x"

fun require_with :: "'a option \<Rightarrow> string \<Rightarrow> 'a res" where
  "require_with None msg = Inl (Err [msg])"
| "require_with (Some x) msg = Inr x"

definition bail :: "string \<Rightarrow> 'a res" where
  "bail msg = Inl (Err [msg])"

definition panic :: "string \<Rightarrow> 'a res" where
  "panic msg = Inl (Panic msg)"

definition assert_res :: "bool \<Rightarrow> string \<Rightarrow> unit res" where
  "assert_res b msg = (if b then Inr () else panic msg)"

fun is_ok :: "'a res \<Rightarrow> bool" where
  "is_ok (Inl _) = False"
| "is_ok (Inr _) = True"

fun panics :: "'a res \<Rightarrow> bool" where
  "panics (Inl (Panic _)) = True"
| "panics _ = False"

fun map_res :: "('a \<Rightarrow> 'b res) \<Rightarrow> 'a list \<Rightarrow> 'b list res" where
  "map_res f [] = Inr []"
| "map_res f (x # xs) = bind_res (f x) (\<lambda>y. bind_res (map_res f xs) (\<lambda>ys. Inr (y # ys)))"

named_theorems res_simps \<open>inversion of results that are \<open>Inr\<close>\<close>

lemma bind_res_Inr [res_simps]:
  "bind_res m f = Inr y \<longleftrightarrow> (\<exists>x. m = Inr x \<and> f x = Inr y)"
  by (cases m) auto

lemma bind_res_Inl:
  "bind_res m f = Inl e \<longleftrightarrow> m = Inl e \<or> (\<exists>x. m = Inr x \<and> f x = Inl e)"
  by (cases m) auto

lemma bind_res_assoc: "bind_res (bind_res m f) g = bind_res m (\<lambda>x. bind_res (f x) g)"
  by (cases m) auto

lemma bind_res_cong [fundef_cong]:
  "m = m' \<Longrightarrow> (\<And>x. m' = Inr x \<Longrightarrow> f x = f' x) \<Longrightarrow> bind_res m f = bind_res m' f'"
  by (cases m') auto

lemma try_with_Inr [res_simps]: "try_with m msg = Inr x \<longleftrightarrow> m = Inr x"
  by (cases "(m, msg)" rule: try_with.cases) auto

lemma require_with_Inr [res_simps]: "require_with m msg = Inr x \<longleftrightarrow> m = Some x"
  by (cases m) auto

lemma bail_not_Inr [simp, res_simps]: "bail msg \<noteq> Inr x" "Inr x \<noteq> bail msg"
  by (simp_all add: bail_def)

lemma panic_not_Inr [simp, res_simps]: "panic msg \<noteq> Inr x" "Inr x \<noteq> panic msg"
  by (simp_all add: panic_def)

lemma assert_res_Inr [res_simps]: "assert_res b msg = Inr u \<longleftrightarrow> b"
  by (simp add: assert_res_def)

lemma is_ok_iff: "is_ok m \<longleftrightarrow> (\<exists>x. m = Inr x)"
  by (cases m) auto

lemma run_okD:
  assumes "case r of Inr x \<Rightarrow> P x | Inl e \<Rightarrow> False"
  shows "r = Inr (projr r)" and "P (projr r)"
  using assms by (auto split: sum.splits)

lemma map_res_Inr_iff [res_simps]:
  "map_res f xs = Inr ys \<longleftrightarrow> list_all2 (\<lambda>x y. f x = Inr y) xs ys"
  by (induction xs arbitrary: ys) (auto simp: bind_res_Inr list_all2_Cons1)

section \<open>Checked arithmetic\<close>

definition chk_add :: "'a::len word \<Rightarrow> 'a word \<Rightarrow> 'a word res" where
  "chk_add a b = (if uint a + uint b < 2 ^ LENGTH('a) then Inr (a + b)
     else panic ''attempt to add with overflow'')"

definition chk_sub :: "'a::len word \<Rightarrow> 'a word \<Rightarrow> 'a word res" where
  "chk_sub a b = (if b \<le> a then Inr (a - b)
     else panic ''attempt to subtract with overflow'')"

definition chk_mul :: "'a::len word \<Rightarrow> 'a word \<Rightarrow> 'a word res" where
  "chk_mul a b = (if uint a * uint b < 2 ^ LENGTH('a) then Inr (a * b)
     else panic ''attempt to multiply with overflow'')"

text \<open>\<^verbatim>\<open>checked_add\<close> and \<^verbatim>\<open>checked_sub\<close> of the standard library.\<close>

definition checked_add :: "'a::len word \<Rightarrow> 'a word \<Rightarrow> 'a word option" where
  "checked_add a b = (if uint a + uint b < 2 ^ LENGTH('a) then Some (a + b) else None)"

definition checked_sub :: "'a::len word \<Rightarrow> 'a word \<Rightarrow> 'a word option" where
  "checked_sub a b = (if b \<le> a then Some (a - b) else None)"

definition saturating_add :: "'a::len word \<Rightarrow> 'a word \<Rightarrow> 'a word" where
  "saturating_add a b = (if uint a + uint b < 2 ^ LENGTH('a) then a + b else - 1)"

lemma uint_add_less_iff:
  fixes a b :: "'a::len word"
  shows "uint a + uint b < 2 ^ LENGTH('a) \<longleftrightarrow> unat a + unat b < 2 ^ LENGTH('a)"
proof -
  have "uint a + uint b < 2 ^ LENGTH('a) \<longleftrightarrow> int (unat a + unat b) < int (2 ^ LENGTH('a))"
    by simp
  then show ?thesis by (simp only: of_nat_less_iff)
qed

lemma uint_mult_less_iff:
  fixes a b :: "'a::len word"
  shows "uint a * uint b < 2 ^ LENGTH('a) \<longleftrightarrow> unat a * unat b < 2 ^ LENGTH('a)"
proof -
  have "uint a * uint b < 2 ^ LENGTH('a) \<longleftrightarrow> int (unat a * unat b) < int (2 ^ LENGTH('a))"
    by simp
  then show ?thesis by (simp only: of_nat_less_iff)
qed

lemma chk_add_alt:
  fixes a b :: "'a::len word"
  shows "chk_add a b = (if unat a + unat b < 2 ^ LENGTH('a) then Inr (a + b)
     else panic ''attempt to add with overflow'')"
  by (simp only: chk_add_def uint_add_less_iff)

lemma chk_mul_alt:
  fixes a b :: "'a::len word"
  shows "chk_mul a b = (if unat a * unat b < 2 ^ LENGTH('a) then Inr (a * b)
     else panic ''attempt to multiply with overflow'')"
  by (simp only: chk_mul_def uint_mult_less_iff)

lemma saturating_add_alt:
  fixes a b :: "'a::len word"
  shows "saturating_add a b = (if unat a + unat b < 2 ^ LENGTH('a) then a + b else - 1)"
  by (simp only: saturating_add_def uint_add_less_iff)

lemma unat_add_no_overflow:
  fixes a b :: "'a::len word"
  shows "unat a + unat b < 2 ^ LENGTH('a) \<Longrightarrow> unat (a + b) = unat a + unat b"
  by (simp add: unat_word_ariths)

lemma unat_mult_no_overflow:
  fixes a b :: "'a::len word"
  shows "unat a * unat b < 2 ^ LENGTH('a) \<Longrightarrow> unat (a * b) = unat a * unat b"
  by (simp add: unat_word_ariths)

lemma chk_add_Inr [res_simps]:
  fixes a b :: "'a::len word"
  shows "chk_add a b = Inr c \<longleftrightarrow> unat a + unat b < 2 ^ LENGTH('a) \<and> c = a + b"
  by (auto simp: chk_add_alt)

lemma chk_sub_Inr [res_simps]: "chk_sub a b = Inr c \<longleftrightarrow> b \<le> a \<and> c = a - b"
  by (auto simp: chk_sub_def)

lemma chk_mul_Inr [res_simps]:
  fixes a b :: "'a::len word"
  shows "chk_mul a b = Inr c \<longleftrightarrow> unat a * unat b < 2 ^ LENGTH('a) \<and> c = a * b"
  by (auto simp: chk_mul_alt)

lemma unat_chk_add: "chk_add a b = Inr c \<Longrightarrow> unat c = unat a + unat b"
  by (simp add: chk_add_Inr unat_add_no_overflow)

lemma unat_chk_sub: "chk_sub a b = Inr c \<Longrightarrow> unat c = unat a - unat b"
  by (simp add: chk_sub_Inr unat_sub)

lemma unat_chk_mul: "chk_mul a b = Inr c \<Longrightarrow> unat c = unat a * unat b"
  by (simp add: chk_mul_Inr unat_mult_no_overflow)

lemma checked_add_Some [res_simps]:
  fixes a b :: "'a::len word"
  shows "checked_add a b = Some c \<longleftrightarrow> unat a + unat b < 2 ^ LENGTH('a) \<and> c = a + b"
  by (auto simp: checked_add_def uint_add_less_iff)

lemma checked_sub_Some [res_simps]: "checked_sub a b = Some c \<longleftrightarrow> b \<le> a \<and> c = a - b"
  by (auto simp: checked_sub_def)

lemma chk_add_eq_wrap: "chk_add a b = Inr c \<Longrightarrow> c = a + b"
  by (simp add: chk_add_Inr)

section \<open>Words as naturals\<close>

lemma unat_2p: "k < LENGTH('a) \<Longrightarrow> unat (2 ^ k :: 'a::len word) = 2 ^ k"
  by transfer (simp add: take_bit_eq_mod nat_mod_distrib nat_power_eq)

lemma unat_and_mask: "unat (v AND mask k :: 'a::len word) = unat v mod 2 ^ k"
  by (metis take_bit_eq_mask take_bit_eq_mod unsigned_take_bit_eq)

lemma unat_drop_bit: "unat (drop_bit k v :: 'a::len word) = unat v div 2 ^ k"
  using unat_drop_bit_eq[of k v] by (simp only: drop_bit_eq_div)

lemma unat_push_bit:
  "unat v * 2 ^ k < 2 ^ LENGTH('a) \<Longrightarrow> unat (push_bit k v :: 'a::len word) = unat v * 2 ^ k"
  using unsigned_push_bit_eq[of k v, where ?'a = nat]
  by (simp only: push_bit_eq_mult take_bit_nat_eq_self)

lemma and_not_mask_eq: "(v :: 'a::len word) AND NOT (mask k) = push_bit k (drop_bit k v)"
proof (rule bit_word_eqI)
  fix n assume "n < LENGTH('a)"
  then show "bit (v AND NOT (mask k)) n = bit (push_bit k (drop_bit k v)) n"
    by (auto simp only: bit_and_iff bit_not_iff bit_mask_iff bit_push_bit_iff bit_drop_bit_eq
        o_def le_add_diff_inverse possible_bit_word not_less)
qed

lemma unat_and_not_mask:
  "unat (v AND NOT (mask k) :: 'a::len word) = unat v div 2 ^ k * 2 ^ k"
proof -
  have "unat v div 2 ^ k * 2 ^ k < 2 ^ LENGTH('a)"
    by (rule le_less_trans[OF div_times_less_eq_dividend]) simp
  then show ?thesis
    using unat_push_bit[of "drop_bit k v" k]
    by (simp only: and_not_mask_eq unat_drop_bit)
qed

section \<open>Little-endian bytes\<close>

text \<open>The in-memory form of an integer on x86-64: \<open>le_bytes n x\<close> is its lowest \<open>n\<close> bytes.\<close>

fun le_bytes :: "nat \<Rightarrow> nat \<Rightarrow> bytes" where
  "le_bytes 0 x = []"
| "le_bytes (Suc n) x = of_nat (x mod 256) # le_bytes n (x div 256)"

fun le_nat :: "bytes \<Rightarrow> nat" where
  "le_nat [] = 0"
| "le_nat (b # bs) = unat b + 256 * le_nat bs"

lemma length_le_bytes [simp]: "length (le_bytes n x) = n"
  by (induction n arbitrary: x) auto

lemma le_nat_le_bytes: "le_nat (le_bytes n x) = x mod 256 ^ n"
proof (induction n arbitrary: x)
  case (Suc n)
  have "unat (of_nat (x mod 256) :: u8) = x mod 256"
    by (simp add: unat_of_nat)
  then show ?case
    by (simp add: Suc mod_mult2_eq)
qed simp

lemma le_bytes_le_nat: "n = length bs \<Longrightarrow> le_bytes n (le_nat bs) = bs"
proof (induction bs arbitrary: n)
  case (Cons b bs)
  have "unat b < 256"
    using unsigned_less[of b, where ?'a = nat] by simp
  with Cons show ?case by simp
qed simp

lemma le_nat_less: "le_nat bs < 256 ^ length bs"
proof (induction bs)
  case (Cons b bs)
  have "unat b < 256"
    using unsigned_less[of b, where ?'a = nat] by simp
  with Cons show ?case by simp
qed simp

text \<open>
  The same for machine words, as executable operations; \<open>field off n\<close> is the word of \<open>n\<close> bytes at
  an offset of a structure.
\<close>

fun word_bytes :: "nat \<Rightarrow> 'a::len word \<Rightarrow> bytes" where
  "word_bytes 0 w = []"
| "word_bytes (Suc n) w = ucast w # word_bytes n (drop_bit 8 w)"

fun le_word :: "bytes \<Rightarrow> 'a::len word" where
  "le_word [] = 0"
| "le_word (b # bs) = ucast b OR push_bit 8 (le_word bs)"

lemma length_word_bytes [simp]: "length (word_bytes n w) = n"
  by (induction n arbitrary: w) auto

lemma le_word_word_bytes: "le_word (word_bytes n w) = take_bit (8 * n) w"
proof (induction n arbitrary: w)
  case (Suc n)
  show ?case
    by (rule bit_word_eqI) (auto simp: Suc bit_simps)
qed simp

lemma le_word_upper: "8 * length bs \<le> k \<Longrightarrow> \<not> bit (le_word bs :: 'a::len word) k"
proof (induction bs arbitrary: k)
  case (Cons b bs)
  then have "\<not> bit b k" by (intro notI) (auto dest: bit_imp_le_length)
  with Cons show ?case by (auto simp: bit_simps)
qed simp

lemma word_bytes_le_word:
  "n = length bs \<Longrightarrow> 8 * n \<le> LENGTH('a::len) \<Longrightarrow> word_bytes n (le_word bs :: 'a word) = bs"
proof (induction bs arbitrary: n)
  case (Cons b bs)
  have "(ucast (ucast b OR push_bit 8 (le_word bs :: 'a word)) :: 8 word) = b"
    using Cons.prems by (intro bit_word_eqI) (auto simp: bit_simps)
  moreover have "drop_bit 8 (ucast b OR push_bit 8 (le_word bs :: 'a word)) = le_word bs"
  proof (rule bit_word_eqI)
    fix k assume "k < LENGTH('a)"
    have "\<not> bit b (8 + k)" by (auto dest: bit_imp_le_length)
    moreover have "bit (le_word bs :: 'a word) k \<Longrightarrow> k < 8 * length bs"
      using le_word_upper[of bs k, where ?'a = 'a] by (meson not_le)
    ultimately show "bit (drop_bit 8 (ucast b OR push_bit 8 (le_word bs :: 'a word))) k = bit (le_word bs :: 'a word) k"
      using Cons.prems by (auto simp: bit_simps)
  qed
  ultimately show ?case using Cons by simp
qed simp

definition field :: "nat \<Rightarrow> nat \<Rightarrow> bytes \<Rightarrow> 'a::len word" where
  "field off n bs = le_word (take n (drop off bs))"

lemma field_skip [simp]: "length a \<le> off \<Longrightarrow> field off n (a @ bs) = field (off - length a) n bs"
  by (simp add: field_def)

lemma field_hit [simp]:
  "LENGTH('a::len) \<le> 8 * n \<Longrightarrow> field 0 n (word_bytes n (w :: 'a word) @ bs) = w"
  by (simp add: field_def le_word_word_bytes take_bit_word_eq_self)

section \<open>Slices and indexing\<close>

text \<open>\<^verbatim>\<open>&xs[a..b]\<close>, \<^verbatim>\<open>&xs[a..]\<close> and \<^verbatim>\<open>xs[i]\<close>: out of range panics.\<close>

definition slice_range :: "'a list \<Rightarrow> nat \<Rightarrow> nat \<Rightarrow> 'a list res" where
  "slice_range xs a b =
     (if b < a then panic ''slice index starts after its end''
      else if length xs < b then panic ''range end index out of range for slice''
      else Inr (take (b - a) (drop a xs)))"

definition slice_from :: "'a list \<Rightarrow> nat \<Rightarrow> 'a list res" where
  "slice_from xs a =
     (if length xs < a then panic ''range start index out of range for slice''
      else Inr (drop a xs))"

definition index_res :: "'a list \<Rightarrow> nat \<Rightarrow> 'a res" where
  "index_res xs i = (if i < length xs then Inr (xs ! i) else panic ''index out of bounds'')"

lemma slice_range_Inr [res_simps]:
  "slice_range xs a b = Inr ys \<longleftrightarrow> a \<le> b \<and> b \<le> length xs \<and> ys = take (b - a) (drop a xs)"
  by (auto simp: slice_range_def)

lemma slice_from_Inr [res_simps]: "slice_from xs a = Inr ys \<longleftrightarrow> a \<le> length xs \<and> ys = drop a xs"
  by (auto simp: slice_from_def)

lemma index_res_Inr [res_simps]: "index_res xs i = Inr y \<longleftrightarrow> i < length xs \<and> y = xs ! i"
  by (auto simp: index_res_def)

text \<open>\<^verbatim>\<open>Iterator::position\<close>: the index of the first element that satisfies a predicate.\<close>

fun position :: "('a \<Rightarrow> bool) \<Rightarrow> 'a list \<Rightarrow> nat option" where
  "position p [] = None"
| "position p (x # xs) = (if p x then Some 0 else map_option Suc (position p xs))"

lemma position_Some_iff:
  "position p xs = Some i \<longleftrightarrow> i < length xs \<and> p (xs ! i) \<and> (\<forall>j<i. \<not> p (xs ! j))"
proof (induction xs arbitrary: i)
  case Nil
  then show ?case by simp
next
  case (Cons x xs)
  show ?case
  proof (cases i)
    case 0
    then show ?thesis by auto
  next
    case (Suc k)
    with Cons.IH[of k] show ?thesis by (auto simp: All_less_Suc2)
  qed
qed

lemma position_None_iff: "position p xs = None \<longleftrightarrow> (\<forall>x \<in> set xs. \<not> p x)"
  by (induction xs) auto

lemma find_Some_mem: "find p xs = Some x \<Longrightarrow> x \<in> set xs \<and> p x"
  by (auto simp: find_Some_iff)

section \<open>Buffers and files\<close>

text \<open>The content after bytes have been written at a position.\<close>

definition overwrite :: "nat \<Rightarrow> 'a list \<Rightarrow> 'a list \<Rightarrow> 'a list" where
  "overwrite n bs buf = take n buf @ bs @ drop (n + length bs) buf"

lemma overwrite_Nil [simp]: "overwrite n [] c = c"
  by (simp add: overwrite_def)

lemma overwrite_append0: "overwrite (length a) b (overwrite 0 a c) = overwrite 0 (a @ b) c"
  by (simp add: overwrite_def ac_simps)

lemma length_overwrite [simp]: "n + length bs \<le> length buf \<Longrightarrow> length (overwrite n bs buf) = length buf"
  by (simp add: overwrite_def)

lemma overwrite_append:
  assumes "n + length a + length b \<le> length c"
  shows "overwrite (n + length a) b (overwrite n a c) = overwrite n (a @ b) c"
proof -
  have "length (take n c) = n" using assms by simp
  then show ?thesis by (simp add: overwrite_def ac_simps)
qed

end
