(* ===== verification/Cpu.thy ===== *)
theory Cpu
  imports Vmsh_Prelude
begin

text \<open>
  \<^verbatim>\<open>src/cpu.rs\<close> for x86-64: the registers of a traced thread as ptrace sees them, the system call
  convention, and the conversion from and to the registers of a virtual CPU
  (\<^verbatim>\<open>Tracee::get_regs\<close> in \<^verbatim>\<open>src/kvm/tracee.rs\<close>, \<^verbatim>\<open>Hypervisor::set_regs\<close> in
  \<^verbatim>\<open>src/kvm/hypervisor/hypervisor.rs\<close>).
\<close>

record regs =
  r15 :: u64
  r14 :: u64
  r13 :: u64
  r12 :: u64
  rbp :: u64
  rbx :: u64
  r11 :: u64
  r10 :: u64
  r9 :: u64
  r8 :: u64
  rax :: u64
  rcx :: u64
  rdx :: u64
  rsi :: u64
  rdi :: u64
  orig_rax :: u64
  rip :: u64
  seg_cs :: u64
  eflags :: u64
  rsp :: u64
  seg_ss :: u64
  fs_base :: u64
  gs_base :: u64
  seg_ds :: u64
  seg_es :: u64
  seg_fs :: u64
  seg_gs :: u64

definition is_userspace :: "regs \<Rightarrow> bool" where
  "is_userspace r \<longleftrightarrow> seg_cs r AND 3 = 3"

definition set_ip :: "u64 \<Rightarrow> regs \<Rightarrow> regs" where
  "set_ip i r = r\<lparr>rip := i\<rparr>"

definition reg_ip :: "regs \<Rightarrow> u64" where
  "reg_ip r = rip r"

text \<open>The argument is the array of the call number and the six arguments.\<close>

definition prepare_syscall :: "regs \<Rightarrow> u64 list \<Rightarrow> regs" where
  "prepare_syscall r args =
     r\<lparr>rax := args ! 0, rdi := args ! 1, rsi := args ! 2, rdx := args ! 3,
       r10 := args ! 4, r8 := args ! 5, r9 := args ! 6\<rparr>"

definition syscall_ret :: "regs \<Rightarrow> u64" where
  "syscall_ret r = rax r"

definition get_syscall_params :: "regs \<Rightarrow> u64 list" where
  "get_syscall_params r = [orig_rax r, rdi r, rsi r, rdx r, r10 r, r8 r, r9 r]"

definition SYSCALL_TEXT :: u64 where "SYSCALL_TEXT = 0x050F"
definition SYSCALL_SIZE :: u64 where "SYSCALL_SIZE = 2"

text \<open>\<^verbatim>\<open>kvm_regs\<close> of the KVM interface.\<close>

record kvm_regs =
  k_rax :: u64
  k_rbx :: u64
  k_rcx :: u64
  k_rdx :: u64
  k_rsi :: u64
  k_rdi :: u64
  k_rsp :: u64
  k_rbp :: u64
  k_r8 :: u64
  k_r9 :: u64
  k_r10 :: u64
  k_r11 :: u64
  k_r12 :: u64
  k_r13 :: u64
  k_r14 :: u64
  k_r15 :: u64
  k_rip :: u64
  k_rflags :: u64

definition regs_from_kvm :: "kvm_regs \<Rightarrow> regs" where
  "regs_from_kvm k = \<lparr>r15 = k_r15 k, r14 = k_r14 k, r13 = k_r13 k, r12 = k_r12 k, rbp = k_rbp k,
     rbx = k_rbx k, r11 = k_r11 k, r10 = k_r10 k, r9 = k_r9 k, r8 = k_r8 k, rax = k_rax k,
     rcx = k_rcx k, rdx = k_rdx k, rsi = k_rsi k, rdi = k_rdi k, orig_rax = k_rax k,
     rip = k_rip k, seg_cs = 0, eflags = k_rflags k, rsp = k_rsp k, seg_ss = 0, fs_base = 0, gs_base = 0,
     seg_ds = 0, seg_es = 0, seg_fs = 0, seg_gs = 0\<rparr>"

definition regs_to_kvm :: "regs \<Rightarrow> kvm_regs" where
  "regs_to_kvm r = \<lparr>k_rax = rax r, k_rbx = rbx r, k_rcx = rcx r, k_rdx = rdx r, k_rsi = rsi r,
     k_rdi = rdi r, k_rsp = rsp r, k_rbp = rbp r, k_r8 = r8 r, k_r9 = r9 r, k_r10 = r10 r,
     k_r11 = r11 r, k_r12 = r12 r, k_r13 = r13 r, k_r14 = r14 r, k_r15 = r15 r, k_rip = rip r,
     k_rflags = eflags r\<rparr>"

text \<open>The floating point registers of a virtual CPU, and as the core dump stores them.\<close>

record kvm_fpu =
  kf_fpr :: bytes
  kf_fcw :: u16
  kf_fsw :: u16
  kf_ftwx :: u8
  kf_last_opcode :: u16
  kf_last_ip :: u64
  kf_last_dp :: u64
  kf_xmm :: bytes
  kf_mxcsr :: u32

record fpu_regs =
  fp_cwd :: u16
  fp_swd :: u16
  fp_twd :: u16
  fp_fop :: u16
  fp_rip :: u64
  fp_rdp :: u64
  fp_mxcsr :: u32
  fp_mxcsr_mask :: u32
  fp_st_space :: "u32 list"
  fp_xmm_space :: "u32 list"
  fp_padding :: "u32 list"
  fp_padding1 :: "u32 list"

text \<open>Bytes of memory read as an array of \<open>n\<close> \<^verbatim>\<open>u32\<close>.\<close>

fun u32_array :: "nat \<Rightarrow> bytes \<Rightarrow> u32 list" where
  "u32_array 0 bs = []"
| "u32_array (Suc n) bs = of_nat (le_nat (take 4 bs)) # u32_array n (drop 4 bs)"

definition fpu_from_kvm :: "kvm_fpu \<Rightarrow> fpu_regs" where
  "fpu_from_kvm k = \<lparr>fp_cwd = kf_fcw k, fp_swd = kf_fsw k, fp_twd = ucast (kf_ftwx k),
     fp_fop = kf_last_opcode k, fp_rip = kf_last_ip k, fp_rdp = kf_last_dp k,
     fp_mxcsr = kf_mxcsr k, fp_mxcsr_mask = 0, fp_st_space = u32_array 32 (kf_fpr k),
     fp_xmm_space = u32_array 64 (kf_xmm k), fp_padding = replicate 12 0,
     fp_padding1 = replicate 12 0\<rparr>"

section \<open>Properties\<close>

lemma regs_kvm_roundtrip: "regs_to_kvm (regs_from_kvm k) = k"
  by (simp add: regs_to_kvm_def regs_from_kvm_def)

lemma not_userspace_from_kvm: "\<not> is_userspace (regs_from_kvm k)"
  by (simp add: is_userspace_def regs_from_kvm_def)

text \<open>
  Redirecting a virtual CPU changes nothing but its instruction pointer: reading the
  registers, setting the instruction pointer and writing them back leaves every other register
  of the virtual CPU as it was.
\<close>

theorem redirect_vcpu:
  "regs_to_kvm (set_ip i (regs_from_kvm k)) = k\<lparr>k_rip := i\<rparr>"
  by (simp add: regs_to_kvm_def regs_from_kvm_def set_ip_def)

text \<open>
  The check whether the virtual CPU is in userspace never succeeds: the code segment register
  is not part of \<^verbatim>\<open>kvm_regs\<close>, and \<^verbatim>\<open>get_regs\<close> fills in 0.
\<close>

theorem vcpu_never_in_userspace: "is_userspace (regs_from_kvm k) = False"
  using not_userspace_from_kvm by simp

end
