(* ===== verification/Sys_Io.thy ===== *)
theory Sys_Io
  imports Cpu
begin

text \<open>
  Effects. An operation with effects takes the state of the world to a new one and a result; it is
  \<open>None\<close> if it never returns. The operating system is a parameter: the record \<open>os\<close> of the system
  calls the program makes (\<^verbatim>\<open>ptrace\<close>, \<^verbatim>\<open>waitpid\<close>, reading and writing the memory of another process)
  on a world of type \<open>'w\<close>. A panic unwinds, so values are dropped on both kinds of error.
\<close>

section \<open>Operations\<close>

type_synonym ('w, 'a) io = "'w \<Rightarrow> ('w \<times> 'a res) option"

definition ret :: "'a \<Rightarrow> ('w, 'a) io" where
  "ret x w = Some (w, Inr x)"

definition lift_res :: "'a res \<Rightarrow> ('w, 'a) io" where
  "lift_res r w = Some (w, r)"

definition bind_io :: "('w, 'a) io \<Rightarrow> ('a \<Rightarrow> ('w, 'b) io) \<Rightarrow> ('w, 'b) io" where
  "bind_io m f w =
     (case m w of
        None \<Rightarrow> None
      | Some (w', Inl e) \<Rightarrow> Some (w', Inl e)
      | Some (w', Inr x) \<Rightarrow> f x w')"

text \<open>\<^verbatim>\<open>try_with!\<close> on the result of an operation, and an operation whose error is given as a value.\<close>

definition try_io :: "('w, 'a) io \<Rightarrow> string \<Rightarrow> ('w, 'a) io" where
  "try_io m msg w = map_option (\<lambda>(w', r). (w', try_with r msg)) (m w)"

definition attempt :: "('w, 'a) io \<Rightarrow> ('w, 'a res) io" where
  "attempt m w =
     (case m w of
        None \<Rightarrow> None
      | Some (w', Inl (Panic p)) \<Rightarrow> Some (w', Inl (Panic p))
      | Some (w', r) \<Rightarrow> Some (w', Inr r))"

definition ignore_io :: "('w, 'a) io \<Rightarrow> ('w, unit) io" where
  "ignore_io m = bind_io (attempt m) (\<lambda>_. ret ())"

text \<open>
  The drop of a value: \<open>on_err m c\<close> drops it with \<open>c\<close> if \<open>m\<close> fails, \<open>with_drop m c\<close> in any case.
\<close>

definition on_err :: "('w, 'a) io \<Rightarrow> ('w, unit) io \<Rightarrow> ('w, 'a) io" where
  "on_err m c w =
     (case m w of
        None \<Rightarrow> None
      | Some (w', Inl e) \<Rightarrow> map_option (\<lambda>(w'', _). (w'', Inl e)) (c w')
      | Some (w', Inr x) \<Rightarrow> Some (w', Inr x))"

definition with_drop :: "('w, 'a) io \<Rightarrow> ('w, unit) io \<Rightarrow> ('w, 'a) io" where
  "with_drop m c w =
     (case m w of
        None \<Rightarrow> None
      | Some (w', r) \<Rightarrow> map_option (\<lambda>(w'', _). (w'', r)) (c w'))"

fun for_io :: "'a list \<Rightarrow> ('a \<Rightarrow> ('w, unit) io) \<Rightarrow> ('w, unit) io" where
  "for_io [] f = ret ()"
| "for_io (x # xs) f = bind_io (f x) (\<lambda>_. for_io xs f)"

definition get_st :: "('w, 'w) io" where
  "get_st w = Some (w, Inr w)"

definition put_st :: "'w \<Rightarrow> ('w, unit) io" where
  "put_st w' w = Some (w', Inr ())"

text \<open>An operation on the first component of a state that is a pair.\<close>

definition on_fst :: "('w, 'a) io \<Rightarrow> ('w \<times> 's, 'a) io" where
  "on_fst m ws = map_option (\<lambda>(w', r). ((w', snd ws), r)) (m (fst ws))"

definition upd_snd :: "('s \<Rightarrow> 's) \<Rightarrow> ('w \<times> 's, unit) io" where
  "upd_snd f ws = Some ((fst ws, f (snd ws)), Inr ())"

section \<open>The operating system\<close>

type_synonym pid = "32 word"
type_synonym raw_fd = "32 word"

text \<open>\<^verbatim>\<open>nix::sys::wait::WaitStatus\<close>.\<close>

datatype wait_status =
    Exited pid "32 word"
  | Signaled pid nat bool
  | Stopped pid nat
  | PtraceEvent pid nat "32 word"
  | PtraceSyscall pid
  | Continued pid
  | StillAlive

definition SIGTRAP :: nat where "SIGTRAP = 5"
definition SIGSTOP :: nat where "SIGSTOP = 19"

fun status_pid :: "wait_status \<Rightarrow> pid option" where
  "status_pid (Exited p _) = Some p"
| "status_pid (Signaled p _ _) = Some p"
| "status_pid (Stopped p _) = Some p"
| "status_pid (PtraceEvent p _ _) = Some p"
| "status_pid (PtraceSyscall p) = Some p"
| "status_pid (Continued p) = Some p"
| "status_pid StillAlive = None"

datatype wait_flags = WAIT_NONE | WSTOPPED | WALL

record 'w os =
  os_getregs :: "pid \<Rightarrow> ('w, regs) io"
  os_setregs :: "pid \<Rightarrow> regs \<Rightarrow> ('w, unit) io"
  os_read :: "pid \<Rightarrow> u64 \<Rightarrow> ('w, u64) io"
  os_write :: "pid \<Rightarrow> u64 \<Rightarrow> u64 \<Rightarrow> ('w, unit) io"
  os_seize :: "pid \<Rightarrow> ('w, unit) io"
  os_interrupt :: "pid \<Rightarrow> ('w, unit) io"
  os_detach :: "pid \<Rightarrow> ('w, unit) io"
  os_syscall :: "pid \<Rightarrow> ('w, unit) io"
  os_cont :: "pid \<Rightarrow> nat option \<Rightarrow> ('w, unit) io"
  os_waitpid :: "pid \<Rightarrow> wait_flags \<Rightarrow> ('w, wait_status) io"
  os_getpgid :: "pid \<Rightarrow> ('w, pid) io"
  os_getpgrp :: "('w, pid) io"
  os_tasks :: "pid \<Rightarrow> ('w, string option res list) io"
  os_vm_read :: "pid \<Rightarrow> u64 \<Rightarrow> nat \<Rightarrow> ('w, bytes) io"
  os_vm_write :: "pid \<Rightarrow> u64 \<Rightarrow> bytes \<Rightarrow> ('w, unit) io"

section \<open>Inversion\<close>

named_theorems io_simps \<open>inversion of operations that return\<close>

lemma ret_Some [io_simps]: "ret x w = Some (w', r) \<longleftrightarrow> w' = w \<and> r = Inr x"
  by (auto simp: ret_def)

lemma lift_res_Some [io_simps]: "lift_res r w = Some (w', r') \<longleftrightarrow> w' = w \<and> r = r'"
  by (auto simp: lift_res_def)

lemma bind_io_Inr [io_simps]:
  "bind_io m f w = Some (w'', Inr y) \<longleftrightarrow> (\<exists>w' x. m w = Some (w', Inr x) \<and> f x w' = Some (w'', Inr y))"
  by (auto simp: bind_io_def split: option.splits sum.splits)

lemma bind_io_Inl:
  "bind_io m f w = Some (w'', Inl e) \<longleftrightarrow>
     m w = Some (w'', Inl e) \<or> (\<exists>w' x. m w = Some (w', Inr x) \<and> f x w' = Some (w'', Inl e))"
  by (auto simp: bind_io_def split: option.splits sum.splits)

lemma bind_io_run [simp]: "m w = Some (w', Inr x) \<Longrightarrow> bind_io m f w = f x w'"
  by (simp add: bind_io_def)

lemma bind_io_fail [simp]: "m w = Some (w', Inl e) \<Longrightarrow> bind_io m f w = Some (w', Inl e)"
  by (simp add: bind_io_def)

lemma bind_io_ret [simp]: "bind_io (ret x) f = f x"
  by (auto simp: bind_io_def ret_def)

lemma bind_io_lift_Inr [simp]: "bind_io (lift_res (Inr x)) f = f x"
  by (auto simp: bind_io_def lift_res_def)

lemma bind_io_state [simp]:
  "bind_io get_st h s = h s s"
  "bind_io (put_st s') g s = g () s'"
  "bind_io (upd_snd u) f ws = f () (fst ws, u (snd ws))"
  by (simp_all add: bind_io_def get_st_def put_st_def upd_snd_def)

lemma try_io_Inr [io_simps]: "try_io m msg w = Some (w', Inr x) \<longleftrightarrow> m w = Some (w', Inr x)"
  by (auto simp: try_io_def try_with_Inr)

lemma try_io_run [simp]: "m w = Some (w', Inr x) \<Longrightarrow> try_io m msg w = Some (w', Inr x)"
  by (simp add: try_io_def)

lemma attempt_Inr [io_simps]:
  "attempt m w = Some (w', Inr r) \<longleftrightarrow> m w = Some (w', r) \<and> \<not> panics r"
  by (auto simp: attempt_def split: option.splits sum.splits error.splits)

lemma ignore_io_run [simp]: "m w = Some (w', r) \<Longrightarrow> \<not> panics r \<Longrightarrow> ignore_io m w = Some (w', Inr ())"
  by (cases r rule: panics.cases) (auto simp: ignore_io_def bind_io_def attempt_def ret_def)

lemma on_err_Inr [io_simps]: "on_err m c w = Some (w', Inr x) \<longleftrightarrow> m w = Some (w', Inr x)"
  by (auto simp: on_err_def split: option.splits sum.splits)

lemma on_err_Inl:
  "on_err m c w = Some (w'', Inl e) \<longleftrightarrow> (\<exists>w' r. m w = Some (w', Inl e) \<and> c w' = Some (w'', r))"
  by (auto simp: on_err_def split: option.splits sum.splits)

lemma with_drop_Some [io_simps]:
  "with_drop m c w = Some (w'', r) \<longleftrightarrow> (\<exists>w' r'. m w = Some (w', r) \<and> c w' = Some (w'', r'))"
  by (auto simp: with_drop_def split: option.splits)

lemma get_put_Some [io_simps]:
  "get_st w = Some (w', r) \<longleftrightarrow> w' = w \<and> r = Inr w"
  "put_st w1 w = Some (w', u) \<longleftrightarrow> w' = w1 \<and> u = Inr ()"
  by (auto simp: get_st_def put_st_def)

lemma upd_snd_Some [io_simps]: "upd_snd f ws = Some (ws', r) \<longleftrightarrow> ws' = (fst ws, f (snd ws)) \<and> r = Inr ()"
  by (auto simp: upd_snd_def)

lemma on_fst_Some [io_simps]:
  "on_fst m ws = Some (ws', r) \<longleftrightarrow> m (fst ws) = Some (fst ws', r) \<and> snd ws' = snd ws"
  by (cases ws') (auto simp: on_fst_def)

lemma bind_io_alt:
  "bind_io m f w = Option.bind (m w) (\<lambda>y. case snd y of Inl e \<Rightarrow> Some (fst y, Inl e) | Inr x \<Rightarrow> f x (fst y))"
  by (auto simp: bind_io_def split: option.splits sum.splits)

lemma bind_io_mono [partial_function_mono]:
  assumes "\<And>w'. mono_option (\<lambda>F. m F w')" "\<And>x w'. mono_option (\<lambda>F. f F x w')"
  shows "mono_option (\<lambda>F. bind_io (m F) (f F) w)"
  unfolding bind_io_alt
proof (rule bind_mono[OF assms(1)])
  fix y
  show "mono_option (\<lambda>F. case snd y of Inl e \<Rightarrow> Some (fst y, Inl e) | Inr x \<Rightarrow> f F x (fst y))"
    using assms(2) option.const_mono by (cases "snd y") auto
qed

lemma bind_io_assoc: "bind_io (bind_io m f) g = bind_io m (\<lambda>x. bind_io (f x) g)"
  by (auto simp: bind_io_def fun_eq_iff split: option.splits sum.splits)

lemma for_io_append: "for_io (xs @ ys) f = bind_io (for_io xs f) (\<lambda>_. for_io ys f)"
  by (induction xs) (auto simp: bind_io_assoc)

lemma run_io_okD:
  "(case m of Some (s, Inr x) \<Rightarrow> P s x | _ \<Rightarrow> False) \<Longrightarrow> \<exists>s x. m = Some (s, Inr x) \<and> P s x"
  by (cases m; cases "snd (the m)") (auto split: prod.splits)

section \<open>Frame conditions\<close>

text \<open>
  \<open>frames R m\<close>: however \<open>m\<close> ends, the states before and after it are related by \<open>R\<close>, an order on states
  such as ``the same but for some field''.
\<close>

definition frames :: "('s \<Rightarrow> 's \<Rightarrow> bool) \<Rightarrow> ('s, 'a) io \<Rightarrow> bool" where
  "frames R m \<longleftrightarrow> (\<forall>s s' r. m s = Some (s', r) \<longrightarrow> R s s')"

named_theorems frame_intros \<open>composition of frame conditions\<close>

lemma framesD: "\<lbrakk>frames R m; m s = Some (s', r)\<rbrakk> \<Longrightarrow> R s s'"
  by (auto simp: frames_def)

lemma framesI: "(\<And>s s' r. m s = Some (s', r) \<Longrightarrow> R s s') \<Longrightarrow> frames R m"
  by (auto simp: frames_def)

lemma bind_io_SomeE:
  assumes "bind_io m f w = Some (w', r)"
  obtains e where "m w = Some (w', Inl e)" "r = Inl e"
    | w1 x where "m w = Some (w1, Inr x)" "f x w1 = Some (w', r)"
  using assms by (auto simp: bind_io_def split: option.splits sum.splits)

lemma frames_bind [frame_intros]:
  assumes "transp R" "frames R m" "\<And>x. frames R (f x)"
  shows "frames R (bind_io m f)"
  unfolding frames_def
proof (intro allI impI)
  fix s s' r assume "bind_io m f s = Some (s', r)"
  then show "R s s'"
    by (rule bind_io_SomeE) (meson assms framesD transpD)+
qed

lemma frames_basic [frame_intros]:
  "reflp R \<Longrightarrow> frames R (ret x)" "reflp R \<Longrightarrow> frames R (lift_res r)" "reflp R \<Longrightarrow> frames R get_st"
  by (auto simp: frames_def io_simps dest: reflpD)

lemma frames_try [frame_intros]: "frames R m \<Longrightarrow> frames R (try_io m msg)"
  by (auto simp: frames_def try_io_def)

lemma frames_case_prod [frame_intros]: "(\<And>a b. frames R (f a b)) \<Longrightarrow> frames R (case p of (a, b) \<Rightarrow> f a b)"
  by (cases p) simp

lemma frames_on_err [frame_intros]:
  assumes "transp R" "frames R m" "frames R c"
  shows "frames R (on_err m c)"
proof (rule framesI)
  fix s s' r assume "on_err m c s = Some (s', r)"
  then show "R s s'"
    using assms(2,3) transpD[OF assms(1)] by (cases r) (auto simp: on_err_Inr on_err_Inl dest!: framesD)
qed

lemma frames_on_fst [frame_intros]:
  "reflp S \<Longrightarrow> frames (\<lambda>s s'. S (snd s) (snd s')) (on_fst m)"
  by (auto simp: frames_def on_fst_def dest: reflpD)

lemma frames_upd_snd [frame_intros]:
  "(\<And>x. S x (f x)) \<Longrightarrow> frames (\<lambda>s s'. S (snd s) (snd s')) (upd_snd f)"
  by (auto simp: frames_def upd_snd_def)

lemma frames_for [frame_intros]:
  assumes "reflp R" "transp R" "\<And>x. frames R (f x)"
  shows "frames R (for_io xs f)"
  using assms by (induction xs) (auto intro!: frame_intros)

text \<open>\<open>ends T m\<close>: the same for the runs that do not panic, with any relation.\<close>

definition ends :: "('s \<Rightarrow> 's \<Rightarrow> bool) \<Rightarrow> ('s, 'a) io \<Rightarrow> bool" where
  "ends T m \<longleftrightarrow> (\<forall>s s' r. m s = Some (s', r) \<longrightarrow> \<not> panics r \<longrightarrow> T s s')"

lemma endsD: "\<lbrakk>ends T m; m s = Some (s', r); \<not> panics r\<rbrakk> \<Longrightarrow> T s s'"
  by (auto simp: ends_def)

lemma ends_frames: "\<lbrakk>frames R m; \<And>s s'. R s s' \<Longrightarrow> T s s'\<rbrakk> \<Longrightarrow> ends T m"
  by (auto simp: frames_def ends_def)

lemma ends_bind:
  assumes "frames R m" "\<And>x. ends T (f x)" "\<And>s s'. R s s' \<Longrightarrow> T s s'" "\<And>s s1 s'. R s s1 \<Longrightarrow> T s1 s' \<Longrightarrow> T s s'"
  shows "ends T (bind_io m f)"
  unfolding ends_def
proof (intro allI impI)
  fix s s' r assume "bind_io m f s = Some (s', r)" "\<not> panics r"
  from this(1) show "T s s'"
  proof (rule bind_io_SomeE)
    fix e assume "m s = Some (s', Inl e)"
    then show ?thesis using framesD[OF assms(1)] assms(3) by blast
  next
    fix s1 x assume "m s = Some (s1, Inr x)" "f x s1 = Some (s', r)"
    then show ?thesis using framesD[OF assms(1)] endsD[OF assms(2)] assms(4) \<open>\<not> panics r\<close> by blast
  qed
qed

lemma panics_try_with [simp]: "panics (try_with r msg) = panics r"
  by (cases "(r, msg)" rule: try_with.cases) auto

lemma ends_try: "ends T m \<Longrightarrow> ends T (try_io m msg)"
  by (auto simp: ends_def try_io_def)

lemma ends_get: "(\<And>s0. ends T (f s0)) \<Longrightarrow> ends T (bind_io get_st f)"
  by (auto simp: ends_def)

section \<open>What ptrace promises\<close>

text \<open>
  The word of eight bytes at an address, and its replacement. \<open>ptrace_ok os R M\<close> states the documented
  behaviour of the four requests that read and change a stopped thread, where \<open>R\<close> gives the registers
  of the threads and \<open>M\<close> the memory of the process: a successful request reads or changes exactly
  what it names, a failed one changes nothing.
\<close>

definition peek_word :: "(u64 \<Rightarrow> u8) \<Rightarrow> u64 \<Rightarrow> u64" where
  "peek_word m a = le_word (map (\<lambda>k. m (a + of_nat k)) [0..<8])"

definition poke_word :: "(u64 \<Rightarrow> u8) \<Rightarrow> u64 \<Rightarrow> u64 \<Rightarrow> u64 \<Rightarrow> u8" where
  "poke_word m a v b = (if b - a < 8 then word_bytes 8 v ! unat (b - a) else m b)"

definition ptrace_ok :: "'w os \<Rightarrow> ('w \<Rightarrow> pid \<Rightarrow> regs) \<Rightarrow> ('w \<Rightarrow> u64 \<Rightarrow> u8) \<Rightarrow> bool" where
  "ptrace_ok os R M \<longleftrightarrow>
     (\<forall>t w w' r. os_getregs os t w = Some (w', r) \<longrightarrow>
        R w' = R w \<and> M w' = M w \<and> \<not> panics r \<and> (\<forall>x. r = Inr x \<longrightarrow> x = R w t)) \<and>
     (\<forall>t x w w' r. os_setregs os t x w = Some (w', r) \<longrightarrow>
        R w' = (if is_ok r then (R w)(t := x) else R w) \<and> M w' = M w \<and> \<not> panics r) \<and>
     (\<forall>t a w w' r. os_read os t a w = Some (w', r) \<longrightarrow>
        R w' = R w \<and> M w' = M w \<and> \<not> panics r \<and> (\<forall>x. r = Inr x \<longrightarrow> x = peek_word (M w) a)) \<and>
     (\<forall>t a v w w' r. os_write os t a v w = Some (w', r) \<longrightarrow>
        R w' = R w \<and> M w' = (if is_ok r then poke_word (M w) a v else M w) \<and> \<not> panics r)"

lemma ptrace_okD:
  assumes "ptrace_ok os R M"
  shows "os_getregs os t w = Some (w', Inr r) \<Longrightarrow> R w' = R w \<and> M w' = M w \<and> r = R w t"
    and "os_setregs os t x w = Some (w', Inr u) \<Longrightarrow> R w' = (R w)(t := x) \<and> M w' = M w"
    and "os_read os t a w = Some (w', Inr v) \<Longrightarrow> R w' = R w \<and> M w' = M w \<and> v = peek_word (M w) a"
    and "os_write os t a v w = Some (w', Inr u) \<Longrightarrow> R w' = R w \<and> M w' = poke_word (M w) a v"
  using assms by (fastforce simp: ptrace_ok_def)+

lemma poke_peek:
  "poke_word m' a (peek_word m a) b = (if b - a < 8 then m b else m' b)"
proof (cases "b - a < 8")
  case True
  then have "unat (b - a) < 8" by (simp add: word_less_nat_alt)
  moreover have "word_bytes 8 (peek_word m a) = map (\<lambda>k. m (a + of_nat k)) [0..<8]"
    unfolding peek_word_def by (rule word_bytes_le_word) simp_all
  ultimately show ?thesis using True by (simp add: poke_word_def)
qed (simp add: poke_word_def)

lemma peek_poke: "peek_word (poke_word m a v) a = v"
proof -
  have "map (\<lambda>k. poke_word m a v (a + of_nat k)) [0..<8] = word_bytes 8 v"
    by (rule nth_equalityI) (auto simp: poke_word_def word_less_nat_alt unat_of_nat)
  then show ?thesis by (simp add: peek_word_def le_word_word_bytes take_bit_word_eq_self)
qed

end
