(* ===== verification/Str.thy ===== *)
theory Str
  imports Vmsh_Prelude
begin

text \<open>
  The string functions of the Rust standard library that the components use: \<^verbatim>\<open>splitn\<close>, \<^verbatim>\<open>split\<close>,
  \<^verbatim>\<open>trim_start\<close>, \<^verbatim>\<open>strip_prefix\<close>, \<^verbatim>\<open>strip_suffix\<close>, and the parsers of unsigned numbers. Strings are lists
  of characters below 256.
\<close>

section \<open>Splitting\<close>

fun splitn :: "nat \<Rightarrow> char \<Rightarrow> string \<Rightarrow> string list" where
  "splitn 0 c s = []"
| "splitn (Suc 0) c s = [s]"
| "splitn (Suc (Suc n)) c s =
     (if c \<in> set s
      then takeWhile (\<lambda>x. x \<noteq> c) s # splitn (Suc n) c (tl (dropWhile (\<lambda>x. x \<noteq> c) s))
      else [s])"

lemma splitn_append [simp]:
  "c \<notin> set a \<Longrightarrow> splitn (Suc (Suc n)) c (a @ c # b) = a # splitn (Suc n) c b"
proof -
  assume "c \<notin> set a"
  then have "takeWhile (\<lambda>x. x \<noteq> c) (a @ c # b) = a" "dropWhile (\<lambda>x. x \<noteq> c) (a @ c # b) = c # b"
    by (induction a) auto
  then show ?thesis by simp
qed

text \<open>\<^verbatim>\<open>split\<close> on a character: one part more than there are separators.\<close>

fun split_on :: "char \<Rightarrow> string \<Rightarrow> string list" where
  "split_on c [] = [[]]"
| "split_on c (x # xs) =
     (if x = c then [] # split_on c xs
      else case split_on c xs of [] \<Rightarrow> [[x]] | p # ps \<Rightarrow> (x # p) # ps)"

lemma split_on_nonempty: "split_on c s \<noteq> []"
  by (induction s) (auto split: list.splits)

fun join_with :: "char \<Rightarrow> string list \<Rightarrow> string" where
  "join_with c [] = []"
| "join_with c [p] = p"
| "join_with c (p # q # ps) = p @ c # join_with c (q # ps)"

lemma join_split: "join_with c (split_on c s) = s"
proof (induction s)
  case (Cons x s)
  obtain p ps where "split_on c s = p # ps" using split_on_nonempty[of c s] by (cases "split_on c s") auto
  with Cons show ?case by (cases ps) auto
qed simp

section \<open>Trimming\<close>

definition is_whitespace :: "char \<Rightarrow> bool" where
  "is_whitespace c \<longleftrightarrow> (let n = of_char c :: nat in (9 \<le> n \<and> n \<le> 13) \<or> n = 32 \<or> n = 0x85 \<or> n = 0xA0)"

definition trim_start :: "string \<Rightarrow> string" where
  "trim_start s = dropWhile is_whitespace s"

fun strip_prefix :: "string \<Rightarrow> string \<Rightarrow> string option" where
  "strip_prefix [] s = Some s"
| "strip_prefix (p # ps) [] = None"
| "strip_prefix (p # ps) (x # xs) = (if p = x then strip_prefix ps xs else None)"

definition strip_suffix :: "string \<Rightarrow> string \<Rightarrow> string option" where
  "strip_suffix suf s = map_option rev (strip_prefix (rev suf) (rev s))"

lemma strip_prefix_Some: "strip_prefix p s = Some r \<longleftrightarrow> s = p @ r"
  by (induction p s rule: strip_prefix.induct) auto

lemma strip_suffix_Some: "strip_suffix suf s = Some r \<longleftrightarrow> s = r @ suf"
proof -
  have "strip_suffix suf s = Some r \<longleftrightarrow> rev s = rev suf @ rev r"
    by (auto simp: strip_suffix_def strip_prefix_Some)
  also have "\<dots> \<longleftrightarrow> s = r @ suf" by (metis rev_append rev_rev_ident)
  finally show ?thesis .
qed

section \<open>Numbers\<close>

definition digit_val :: "nat \<Rightarrow> char \<Rightarrow> nat option" where
  "digit_val radix c =
     (let n = of_char c :: nat;
          d = (if 48 \<le> n \<and> n \<le> 57 then Some (n - 48)
               else if 97 \<le> n \<and> n \<le> 122 then Some (n - 87)
               else if 65 \<le> n \<and> n \<le> 90 then Some (n - 55) else None)
      in case d of Some v \<Rightarrow> (if v < radix then Some v else None) | None \<Rightarrow> None)"

text \<open>The digits of a number below \<open>limit\<close>; a larger one is an error, as an overflow is.\<close>

fun parse_digits :: "nat \<Rightarrow> nat \<Rightarrow> nat \<Rightarrow> string \<Rightarrow> nat option" where
  "parse_digits limit radix acc [] = Some acc"
| "parse_digits limit radix acc (c # cs) =
     (case digit_val radix c of
        None \<Rightarrow> None
      | Some d \<Rightarrow> (if radix * acc + d < limit then parse_digits limit radix (radix * acc + d) cs else None))"

text \<open>\<^verbatim>\<open>from_str_radix\<close> of an unsigned type: a leading plus sign is allowed.\<close>

definition parse_unsigned :: "nat \<Rightarrow> nat \<Rightarrow> string \<Rightarrow> nat option" where
  "parse_unsigned limit radix s =
     (case s of
        [] \<Rightarrow> None
      | c # cs \<Rightarrow>
          (if c = CHR ''+'' then (if cs = [] then None else parse_digits limit radix 0 cs)
           else parse_digits limit radix 0 s))"

definition parse_u64 :: "nat \<Rightarrow> string \<Rightarrow> u64 option" where
  "parse_u64 radix s = map_option of_nat (parse_unsigned (2 ^ 64) radix s)"

definition parse_u32 :: "nat \<Rightarrow> string \<Rightarrow> u32 option" where
  "parse_u32 radix s = map_option of_nat (parse_unsigned (2 ^ 32) radix s)"

definition parse_i32 :: "nat \<Rightarrow> string \<Rightarrow> 32 word option" where
  "parse_i32 radix s =
     (case s of
        [] \<Rightarrow> None
      | c # cs \<Rightarrow>
          (if c = CHR ''-''
           then (if cs = [] then None
                 else map_option (\<lambda>n. - of_nat n) (parse_digits (2 ^ 31 + 1) radix 0 cs))
           else map_option of_nat (parse_unsigned (2 ^ 31) radix s)))"

subsection \<open>Printing\<close>

definition digit_char :: "nat \<Rightarrow> char" where
  "digit_char d = char_of (if d < 10 then 48 + d else 87 + d)"

fun to_radix :: "nat \<Rightarrow> nat \<Rightarrow> string" where
  "to_radix radix n =
     (if radix < 2 \<or> n < radix then [digit_char n]
      else to_radix radix (n div radix) @ [digit_char (n mod radix)])"

declare to_radix.simps [simp del]

lemma of_digit_char: "d < 36 \<Longrightarrow> (of_char (digit_char d) :: nat) = (if d < 10 then 48 + d else 87 + d)"
  by (simp add: digit_char_def)

lemma digit_val_char:
  assumes "d < radix" "radix \<le> 36"
  shows "digit_val radix (digit_char d) = Some d"
proof -
  have "d < 36" using assms by simp
  from of_digit_char[OF this] show ?thesis
    using assms by (cases "d < 10") (simp_all add: digit_val_def)
qed

lemma parse_digits_append:
  "parse_digits limit radix acc (xs @ ys) =
     (case parse_digits limit radix acc xs of None \<Rightarrow> None | Some a \<Rightarrow> parse_digits limit radix a ys)"
  by (induction xs arbitrary: acc) (auto split: option.splits)

lemma parse_digits_to_radix:
  assumes "2 \<le> radix" "radix \<le> 36" "n < limit"
  shows "parse_digits limit radix 0 (to_radix radix n) = Some n"
  using assms(3)
proof (induction n rule: less_induct)
  case (less n)
  show ?case
  proof (cases "n < radix")
    case True
    then show ?thesis
      using less.prems assms by (simp add: to_radix.simps[of radix n] digit_val_char)
  next
    case False
    have "n div radix < n" using False assms by (intro div_less_dividend) auto
    moreover from this have "n div radix < limit" using less.prems by simp
    ultimately have "parse_digits limit radix 0 (to_radix radix (n div radix)) = Some (n div radix)"
      by (rule less.IH)
    moreover have "digit_val radix (digit_char (n mod radix)) = Some (n mod radix)"
      using assms by (intro digit_val_char) auto
    ultimately show ?thesis
      using False assms less.prems
      by (simp add: to_radix.simps[of radix n] parse_digits_append)
  qed
qed

lemma to_radix_digits: "c \<in> set (to_radix radix n) \<Longrightarrow> 2 \<le> radix \<Longrightarrow> \<exists>d < radix. c = digit_char d"
proof (induction n rule: less_induct)
  case (less n)
  show ?case
  proof (cases "n < radix")
    case True
    with less.prems show ?thesis by (auto simp: to_radix.simps[of radix n])
  next
    case False
    have lt: "n div radix < n" using False less.prems by (intro div_less_dividend) auto
    consider "c \<in> set (to_radix radix (n div radix))" | "c = digit_char (n mod radix)"
      using less.prems False by (auto simp: to_radix.simps[of radix n])
    then show ?thesis
    proof cases
      case 1
      then show ?thesis by (rule less.IH[OF lt _ less.prems(2)])
    next
      case 2
      then show ?thesis using less.prems(2) by (intro exI[of _ "n mod radix"]) simp
    qed
  qed
qed

text \<open>A printed number, with leading zeros, is read back.\<close>

lemma to_radix_nonempty: "to_radix radix n \<noteq> []"
  by (simp add: to_radix.simps[of radix n])

lemma to_radix_char:
  assumes "c \<in> set (replicate z CHR ''0'' @ to_radix radix n)" "2 \<le> radix" "radix \<le> 36"
  shows "48 \<le> (of_char c :: nat) \<and> (of_char c \<le> (57::nat) \<or> 97 \<le> (of_char c :: nat))"
proof (cases "c = CHR ''0''")
  case False
  then obtain d where d: "d < radix" "c = digit_char d"
    using assms to_radix_digits[of c radix n] by (auto split: if_splits)
  then show ?thesis using of_digit_char[of d] assms(3) by auto
qed simp

lemma to_radix_no_sep:
  assumes "2 \<le> radix" "radix \<le> 36"
  shows "CHR '' '' \<notin> set (replicate z CHR ''0'' @ to_radix radix n)"
    and "CHR ''-'' \<notin> set (replicate z CHR ''0'' @ to_radix radix n)"
    and "CHR '':'' \<notin> set (replicate z CHR ''0'' @ to_radix radix n)"
    and "CHR ''+'' \<notin> set (replicate z CHR ''0'' @ to_radix radix n)"
  using to_radix_char[OF _ assms, of "CHR '' ''" z n] to_radix_char[OF _ assms, of "CHR ''-''" z n]
    to_radix_char[OF _ assms, of "CHR '':''" z n] to_radix_char[OF _ assms, of "CHR ''+''" z n]
  by (auto simp del: set_append)

lemma parse_digits_zeros:
  assumes "0 < limit" "2 \<le> radix" "radix \<le> 36"
  shows "parse_digits limit radix 0 (replicate z CHR ''0'' @ s) = parse_digits limit radix 0 s"
proof (induction z)
  case (Suc z)
  have "digit_val radix CHR ''0'' = Some 0"
    using assms by (simp add: digit_val_def)
  with Suc assms(1) show ?case by simp
qed simp

lemma parse_unsigned_to_radix:
  assumes "2 \<le> radix" "radix \<le> 36" "n < limit"
  shows "parse_unsigned limit radix (replicate z CHR ''0'' @ to_radix radix n) = Some n"
proof -
  obtain c cs where s: "replicate z CHR ''0'' @ to_radix radix n = c # cs"
    using to_radix_nonempty[of radix n] by (cases "replicate z CHR ''0'' @ to_radix radix n") auto
  have "c \<noteq> CHR ''+''" using to_radix_no_sep(4)[OF assms(1,2), of z n] s by auto
  then have "parse_unsigned limit radix (c # cs) = parse_digits limit radix 0 (c # cs)"
    by (simp add: parse_unsigned_def)
  then show ?thesis
    unfolding s[symmetric] using assms by (simp add: parse_digits_zeros parse_digits_to_radix)
qed

lemma parse_u64_to_radix:
  assumes "2 \<le> radix" "radix \<le> 36"
  shows "parse_u64 radix (replicate z CHR ''0'' @ to_radix radix (unat w)) = Some w"
  using parse_unsigned_to_radix[OF assms, of "unat w" "2 ^ 64" z] unsigned_less[of w, where ?'a = nat]
  by (simp add: parse_u64_def)

end
