(* ===== verification/Ptrace.thy ===== *)
theory Ptrace
  imports Sys_Io Str
begin

text \<open>
  \<^verbatim>\<open>src/tracer/ptrace.rs\<close>, \<^verbatim>\<open>src/tracer/ptrace_syscall_info.rs\<close> and \<^verbatim>\<open>src/tracer/mod.rs\<close>: the threads of
  a traced process and the decoding of \<^verbatim>\<open>PTRACE_GET_SYSCALL_INFO\<close>.
\<close>

section \<open>Threads\<close>

record pt_thread =
  tid :: pid

definition th_setregs :: "'w os \<Rightarrow> pt_thread \<Rightarrow> regs \<Rightarrow> ('w, unit) io" where
  "th_setregs os t r = try_io (os_setregs os (tid t) r) ''cannot set registers with ptrace''"

definition th_getregs :: "'w os \<Rightarrow> pt_thread \<Rightarrow> ('w, regs) io" where
  "th_getregs os t = try_io (os_getregs os (tid t)) ''cannot get registers with ptrace''"

definition th_detach :: "'w os \<Rightarrow> pt_thread \<Rightarrow> ('w, unit) io" where
  "th_detach os t = try_io (os_detach os (tid t)) ''cannot detach process from ptrace''"

definition th_interrupt :: "'w os \<Rightarrow> pt_thread \<Rightarrow> ('w, unit) io" where
  "th_interrupt os t = try_io (os_interrupt os (tid t)) ''cannot stop/interrupt tracee with ptrace''"

definition th_syscall :: "'w os \<Rightarrow> pt_thread \<Rightarrow> ('w, unit) io" where
  "th_syscall os t = try_io (os_syscall os (tid t)) ''cannot set break on syscall with ptrace''"

definition th_cont :: "'w os \<Rightarrow> pt_thread \<Rightarrow> nat option \<Rightarrow> ('w, unit) io" where
  "th_cont os t sig = try_io (os_cont os (tid t) sig) ''cannot continue tracee with ptrace''"

definition th_read :: "'w os \<Rightarrow> pt_thread \<Rightarrow> u64 \<Rightarrow> ('w, u64) io" where
  "th_read os t addr = try_io (os_read os (tid t) addr) ''cannot read with ptrace''"

definition th_write :: "'w os \<Rightarrow> pt_thread \<Rightarrow> u64 \<Rightarrow> u64 \<Rightarrow> ('w, unit) io" where
  "th_write os t addr data = try_io (os_write os (tid t) addr data) ''cannot write with ptrace''"

definition thread_drop :: "'w os \<Rightarrow> pt_thread \<Rightarrow> ('w, unit) io" where
  "thread_drop os t = ignore_io (os_detach os (tid t))"

definition drop_threads :: "'w os \<Rightarrow> pt_thread list \<Rightarrow> ('w, unit) io" where
  "drop_threads os ts = for_io ts (thread_drop os)"

definition attach_seize :: "'w os \<Rightarrow> pid \<Rightarrow> ('w, unit) io" where
  "attach_seize os t =
     bind_io (try_io (os_seize os t) ''cannot seize the process'') (\<lambda>_.
     bind_io (try_io (os_interrupt os t) ''cannot interrupt/stop the tracee'') (\<lambda>_.
     bind_io (try_io (os_waitpid os t WSTOPPED) ''waitpid failed'') (\<lambda>_. ret ())))"

text \<open>The name of a directory entry as a thread id; \<open>None\<close> is a name that is not a string.\<close>

definition tid_of_entry :: "string option res \<Rightarrow> pid res" where
  "tid_of_entry e =
     bind_res (try_with e ''failed to read directory'') (\<lambda>name.
     bind_res (require_with name ''cannot convert filename to string'') (\<lambda>n.
     require_with (parse_i32 10 n) ''invalid tid''))"

fun attach_loop ::
  "'w os \<Rightarrow> pid \<Rightarrow> nat \<Rightarrow> string option res list \<Rightarrow> pt_thread list \<Rightarrow> nat \<Rightarrow> ('w, pt_thread list \<times> nat) io" where
  "attach_loop os pid i [] threads process_idx = ret (threads, process_idx)"
| "attach_loop os pid i (e # es) threads process_idx =
     bind_io (on_err (lift_res (tid_of_entry e)) (drop_threads os threads)) (\<lambda>t.
     let process_idx' = (if t = pid then i else process_idx) in
     bind_io (attempt (attach_seize os t)) (\<lambda>r.
     attach_loop os pid (i + 1) es (if is_ok r then threads @ [\<lparr>tid = t\<rparr>] else threads) process_idx'))"

definition attach_all_threads :: "'w os \<Rightarrow> pid \<Rightarrow> ('w, pt_thread list \<times> nat) io" where
  "attach_all_threads os pid =
     bind_io (try_io (os_tasks os pid) ''failed to open directory'') (\<lambda>es.
     attach_loop os pid 0 es [] 0)"

section \<open>The answer to PTRACE_GET_SYSCALL_INFO\<close>

datatype op_type =
    PTRACE_SYSCALL_INFO_NONE
  | PTRACE_SYSCALL_INFO_ENTRY
  | PTRACE_SYSCALL_INFO_EXIT
  | PTRACE_SYSCALL_INFO_SECCOMP
  | unknown

datatype syscall_op =
    OpEntry u64 "u64 list"
  | OpExit u64 u8
  | OpSeccomp u64 "u64 list" u32
  | OpNone

record syscall_info =
  si_arch :: u32
  si_instruction_pointer :: u64
  si_stack_pointer :: u64
  si_op :: syscall_op

text \<open>
  The structure is its bytes, with the layout of \<^verbatim>\<open>repr(C)\<close>: \<^verbatim>\<open>op\<close> at 0, \<^verbatim>\<open>arch\<close> at 4, the pointers at 8
  and 16 and the union at 24.
\<close>

type_synonym raw_info = bytes

definition RAW_INFO_SIZE :: nat where "RAW_INFO_SIZE = 88"
definition RAW_DATA_SIZE :: nat where "RAW_DATA_SIZE = 64"

definition u64_at :: "nat \<Rightarrow> bytes \<Rightarrow> u64" where
  "u64_at off bs = field off 8 bs"

definition args_at :: "nat \<Rightarrow> bytes \<Rightarrow> u64 list" where
  "args_at off bs = map (\<lambda>k. u64_at (off + 8 * k) bs) [0..<6]"

text \<open>A byte that is no value of \<^verbatim>\<open>OpType\<close> would be undefined behaviour; it is a panic here.\<close>

definition raw_op :: "raw_info \<Rightarrow> op_type res" where
  "raw_op bs =
     (let b = field 0 1 bs :: u8 in
      if b = 0 then Inr PTRACE_SYSCALL_INFO_NONE
      else if b = 1 then Inr PTRACE_SYSCALL_INFO_ENTRY
      else if b = 2 then Inr PTRACE_SYSCALL_INFO_EXIT
      else if b = 3 then Inr PTRACE_SYSCALL_INFO_SECCOMP
      else if b = 4 then Inr unknown
      else panic ''invalid discriminant'')"

definition parse_raw_data :: "raw_info \<Rightarrow> syscall_op res" where
  "parse_raw_data info =
     bind_res (raw_op info) (\<lambda>op.
     case op of
       PTRACE_SYSCALL_INFO_NONE \<Rightarrow> Inr OpNone
     | PTRACE_SYSCALL_INFO_ENTRY \<Rightarrow> Inr (OpEntry (u64_at 24 info) (args_at 32 info))
     | PTRACE_SYSCALL_INFO_EXIT \<Rightarrow> Inr (OpExit (u64_at 24 info) (field 32 1 info))
     | PTRACE_SYSCALL_INFO_SECCOMP \<Rightarrow>
         Inr (OpSeccomp (u64_at 24 info) (args_at 32 info) (field 80 4 info))
     | unknown \<Rightarrow> bail ''unknown ptrace_syscall_info.op'')"

definition parse_raw_info :: "raw_info \<Rightarrow> syscall_info res" where
  "parse_raw_info raw =
     bind_res (parse_raw_data raw) (\<lambda>op.
     Inr \<lparr>si_arch = field 4 4 raw, si_instruction_pointer = u64_at 8 raw,
          si_stack_pointer = u64_at 16 raw, si_op = op\<rparr>)"

text \<open>The arguments are the result of the \<^verbatim>\<open>ptrace\<close> call and the buffer after it.\<close>

definition get_syscall_info :: "int \<Rightarrow> raw_info \<Rightarrow> syscall_info res" where
  "get_syscall_info n info =
     (if n \<le> 0 then bail ''ptrace get syscall info error''
      else
        bind_res (raw_op info) (\<lambda>op.
        if \<not> (op = PTRACE_SYSCALL_INFO_NONE \<and> int (RAW_INFO_SIZE - RAW_DATA_SIZE) = n \<or> int RAW_INFO_SIZE = n)
        then bail ''ptrace wrote unexpected number of bytes''
        else try_with (parse_raw_info info) ''cannot understand ptrace(PTRACE_GET_SYSCALL_INFO) response''))"

section \<open>Properties\<close>

lemma attach_loop_threads:
  assumes "attach_loop os pid i es threads idx w = Some (w', Inr (threads', idx'))"
    and "length threads' = length threads + length es"
  shows "map (\<lambda>t. Inr (tid t)) threads' = map (\<lambda>t. Inr (tid t)) threads @ map tid_of_entry es"
    and "(\<exists>j < length es. idx' = i + j \<and> tid_of_entry (es ! j) = Inr pid)
      \<or> idx' = idx \<and> Inr pid \<notin> tid_of_entry ` set es"
proof -
  have grow: "length threads2 \<le> length threads1 + length xs"
    if "attach_loop os pid k xs threads1 ix w1 = Some (w2, Inr (threads2, ix2))" for k xs threads1 ix w1 w2 threads2 ix2
    using that
  proof (induction xs arbitrary: k threads1 ix w1)
    case (Cons x xs)
    then show ?case by (fastforce simp: io_simps Let_def split: if_splits)
  qed (simp add: io_simps)
  have "map (\<lambda>t. Inr (tid t)) threads' = map (\<lambda>t. Inr (tid t)) threads @ map tid_of_entry es \<and>
      ((\<exists>j < length es. idx' = i + j \<and> tid_of_entry (es ! j) = Inr pid)
       \<or> idx' = idx \<and> Inr pid \<notin> tid_of_entry ` set es)"
    using assms
  proof (induction es arbitrary: i threads idx w)
    case (Cons e es)
    then obtain t w1 and r :: "unit res" where t: "tid_of_entry e = Inr t"
      and l: "attach_loop os pid (i + 1) es (if is_ok r then threads @ [\<lparr>tid = t\<rparr>] else threads)
        (if t = pid then i else idx) w1 = Some (w', Inr (threads', idx'))"
      by (auto simp: io_simps Let_def)
    have "is_ok r" using grow[OF l] Cons.prems(2) by (auto split: if_splits)
    then have "length threads' = length (threads @ [\<lparr>tid = t\<rparr>]) + length es" using Cons.prems(2) by simp
    note IH = Cons.IH[OF l[unfolded if_P[OF \<open>is_ok r\<close>]] this]
    then consider j where "j < length es" "idx' = i + 1 + j" "tid_of_entry (es ! j) = Inr pid"
      | "idx' = (if t = pid then i else idx)" "Inr pid \<notin> tid_of_entry ` set es" by blast
    then show ?case
    proof cases
      case (1 j)
      then show ?thesis using IH t by (auto intro!: exI[of _ "Suc j"])
    next
      case 2
      then show ?thesis using IH t by (cases "t = pid") auto
    qed
  qed (simp add: io_simps)
  then show "map (\<lambda>t. Inr (tid t)) threads' = map (\<lambda>t. Inr (tid t)) threads @ map tid_of_entry es"
    and "(\<exists>j < length es. idx' = i + j \<and> tid_of_entry (es ! j) = Inr pid)
      \<or> idx' = idx \<and> Inr pid \<notin> tid_of_entry ` set es" by simp_all
qed

text \<open>
  If no thread of the process is lost while attaching, \<^verbatim>\<open>attach_all_threads\<close> returns the threads
  of the task directory in its order, and the index it returns is that of the main thread.
\<close>

theorem attach_all_threads_main:
  assumes "os_tasks os pid w = Some (w1, Inr es)"
    and "attach_all_threads os pid w = Some (w2, Inr (threads, idx))"
    and "length threads = length es" and "Inr pid \<in> tid_of_entry ` set es"
  shows "map (\<lambda>t. Inr (tid t)) threads = map tid_of_entry es \<and> idx < length threads \<and> tid (threads ! idx) = pid"
proof -
  have l: "attach_loop os pid 0 es [] 0 w1 = Some (w2, Inr (threads, idx))"
    using assms(1,2) by (simp add: attach_all_threads_def)
  note th = attach_loop_threads[OF l, simplified, OF assms(3)]
  then obtain j where j: "j < length es" "idx = j" "tid_of_entry (es ! j) = Inr pid" using assms(4) by auto
  then have "tid (threads ! j) = pid" using arg_cong[OF th(1), of "\<lambda>l. l ! j"] assms(3) by simp
  then show ?thesis using th(1) j assms(3) by simp
qed

text \<open>The bytes the kernel writes: the head of the structure, then the member of the union.\<close>

definition raw_head :: "u8 \<Rightarrow> u32 \<Rightarrow> u64 \<Rightarrow> u64 \<Rightarrow> bytes" where
  "raw_head op arch ip sp = [op, 0, 0, 0] @ word_bytes 4 arch @ word_bytes 8 ip @ word_bytes 8 sp"

definition raw_entry :: "u64 \<Rightarrow> u64 \<Rightarrow> u64 \<Rightarrow> u64 \<Rightarrow> u64 \<Rightarrow> u64 \<Rightarrow> u64 \<Rightarrow> bytes" where
  "raw_entry nr a b c d e f = word_bytes 8 nr @ word_bytes 8 a @ word_bytes 8 b @ word_bytes 8 c
     @ word_bytes 8 d @ word_bytes 8 e @ word_bytes 8 f"

lemma field_byte: "field 0 (Suc 0) (b # bs) = b"
  by (simp add: field_def)

lemma length_raw_head [simp]: "length (raw_head op arch ip sp) = 24"
  by (simp add: raw_head_def)

lemma raw_head_fields [simp]:
  "field 0 (Suc 0) (raw_head op arch ip sp @ bs) = op"
  "field 4 4 (raw_head op arch ip sp @ bs) = arch"
  "field 8 8 (raw_head op arch ip sp @ bs) = ip"
  "field 16 8 (raw_head op arch ip sp @ bs) = sp"
proof -
  let ?h = "[op, 0, 0, 0] :: bytes"
  have "field 4 4 (?h @ word_bytes 4 arch @ (word_bytes 8 ip @ word_bytes 8 sp) @ bs) = arch"
    "field 8 8 (?h @ word_bytes 4 arch @ word_bytes 8 ip @ word_bytes 8 sp @ bs) = ip"
    "field 16 8 (?h @ word_bytes 4 arch @ word_bytes 8 ip @ word_bytes 8 sp @ bs) = sp"
    by (simp_all del: append_Cons)
  then show "field 4 4 (raw_head op arch ip sp @ bs) = arch" "field 8 8 (raw_head op arch ip sp @ bs) = ip"
    "field 16 8 (raw_head op arch ip sp @ bs) = sp" by (simp_all add: raw_head_def)
  show "field 0 (Suc 0) (raw_head op arch ip sp @ bs) = op" by (simp add: raw_head_def field_byte)
qed

lemma length_raw_entry [simp]: "length (raw_entry nr a b c d e f) = 56"
  by (simp add: raw_entry_def)

lemma raw_entry_fields [simp]:
  "field 0 8 (raw_entry nr a b c d e f @ bs) = nr"
  "map (\<lambda>k. u64_at (8 + 8 * k) (raw_entry nr a b c d e f @ bs)) [0..<6] = [a, b, c, d, e, f]"
  by (simp_all add: raw_entry_def u64_at_def upt_rec)

text \<open>
  The answer of the kernel is decoded as it is laid out: an entry stop gives the number and the
  six arguments of the system call, an exit stop the result and the error flag, and a seccomp stop
  the data of the filter, each with the architecture and the pointers of the head.
\<close>

theorem syscall_info_decodes:
  "get_syscall_info 88 (raw_head 1 arch ip sp @ raw_entry nr a b c d e f @ replicate 8 0) =
     Inr \<lparr>si_arch = arch, si_instruction_pointer = ip, si_stack_pointer = sp, si_op = OpEntry nr [a, b, c, d, e, f]\<rparr> \<and>
   get_syscall_info 88 (raw_head 2 arch ip sp @ word_bytes 8 rval @ is_error # replicate 55 0) =
     Inr \<lparr>si_arch = arch, si_instruction_pointer = ip, si_stack_pointer = sp, si_op = OpExit rval is_error\<rparr> \<and>
   get_syscall_info 88 (raw_head 3 arch ip sp @ raw_entry nr a b c d e f @ word_bytes 4 ret_data @ replicate 4 0) =
     Inr \<lparr>si_arch = arch, si_instruction_pointer = ip, si_stack_pointer = sp,
          si_op = OpSeccomp nr [a, b, c, d, e, f] ret_data\<rparr> \<and>
   get_syscall_info 24 (raw_head 0 arch ip sp @ replicate 64 0) =
     Inr \<lparr>si_arch = arch, si_instruction_pointer = ip, si_stack_pointer = sp, si_op = OpNone\<rparr>"
  by (simp add: get_syscall_info_def raw_op_def RAW_INFO_SIZE_def RAW_DATA_SIZE_def parse_raw_info_def
      parse_raw_data_def args_at_def u64_at_def field_byte Let_def raw_entry_fields(2)[unfolded u64_at_def])

end
