(* ===== verification/Sim_Os.thy ===== *)
theory Sim_Os
  imports Ptrace
begin

text \<open>
  A small operating system on which the properties of the tracer are evaluated: registers, memory and
  system call stops of the threads of one process. A system call returns \<open>sim_ret\<close>; \<open>sim_status\<close> are
  the statuses \<^verbatim>\<open>waitpid\<close> reports before the stops, \<open>sim_gone\<close> the threads that cannot be seized.
\<close>

record sim =
  sim_regs :: "pid \<Rightarrow> regs"
  sim_mem :: "u64 \<Rightarrow> u8"
  sim_tasks :: "string list"
  sim_gone :: "pid list"
  sim_in :: "pid list"
  sim_ret :: u64
  sim_status :: "wait_status list"
  sim_detached :: "pid list"

definition sim_step :: "pid \<Rightarrow> sim \<Rightarrow> sim" where
  "sim_step p s =
     (let r = sim_regs s p in
      if p \<in> set (sim_in s)
      then s\<lparr>sim_in := removeAll p (sim_in s), sim_regs := (sim_regs s)(p := r\<lparr>rax := sim_ret s\<rparr>)\<rparr>
      else s\<lparr>sim_in := p # sim_in s, sim_regs := (sim_regs s)(p := r\<lparr>rip := rip r + 2\<rparr>)\<rparr>)"

definition sim_os :: "sim os" where
  "sim_os = \<lparr>
     os_getregs = (\<lambda>p s. Some (s, Inr (sim_regs s p))),
     os_setregs = (\<lambda>p r s. Some (s\<lparr>sim_regs := (sim_regs s)(p := r)\<rparr>, Inr ())),
     os_read = (\<lambda>p a s. Some (s, Inr (peek_word (sim_mem s) a))),
     os_write = (\<lambda>p a v s. Some (s\<lparr>sim_mem := poke_word (sim_mem s) a v\<rparr>, Inr ())),
     os_seize = (\<lambda>p s. Some (s, if p \<in> set (sim_gone s) then bail ''ESRCH'' else Inr ())),
     os_interrupt = (\<lambda>p s. Some (s, Inr ())),
     os_detach = (\<lambda>p s. Some (s\<lparr>sim_detached := p # sim_detached s\<rparr>, Inr ())),
     os_syscall = (\<lambda>p s. Some (sim_step p s, Inr ())),
     os_cont = (\<lambda>p sig s. Some (s, Inr ())),
     os_waitpid = (\<lambda>p f s.
       case sim_status s of
         [] \<Rightarrow> Some (s, Inr (PtraceSyscall p))
       | x # xs \<Rightarrow> Some (s\<lparr>sim_status := xs\<rparr>, Inr x)),
     os_getpgid = (\<lambda>p s. Some (s, Inr p)),
     os_getpgrp = (\<lambda>s. Some (s, Inr 1)),
     os_tasks = (\<lambda>p s. Some (s, Inr (map (\<lambda>n. Inr (Some n)) (sim_tasks s)))),
     os_vm_read = (\<lambda>p a n s. Some (s, Inr (map (\<lambda>k. sim_mem s (a + of_nat k)) [0..<n]))),
     os_vm_write = (\<lambda>p a bs s. Some (s\<lparr>sim_mem := (\<lambda>b.
       if unat (b - a) < length bs then bs ! unat (b - a) else sim_mem s b)\<rparr>, Inr ()))\<rparr>"

lemma sim_ptrace_ok: "ptrace_ok sim_os sim_regs sim_mem"
  by (auto simp: ptrace_ok_def sim_os_def)

definition zero_regs :: regs where
  "zero_regs = regs_from_kvm \<lparr>k_rax = 0, k_rbx = 0, k_rcx = 0, k_rdx = 0, k_rsi = 0, k_rdi = 0,
     k_rsp = 0, k_rbp = 0, k_r8 = 0, k_r9 = 0, k_r10 = 0, k_r11 = 0, k_r12 = 0, k_r13 = 0, k_r14 = 0,
     k_r15 = 0, k_rip = 0, k_rflags = 0\<rparr>"

text \<open>A process 7 with the threads 7 and 8, whose main thread is at 0x400000.\<close>

definition sim0 :: sim where
  "sim0 = \<lparr>sim_regs = (\<lambda>p. zero_regs\<lparr>rip := 0x400000, rbx := ucast p\<rparr>), sim_mem = (\<lambda>a. ucast a + 0x90),
     sim_tasks = [''8'', ''7''], sim_gone = [], sim_in = [], sim_ret = 42, sim_status = [], sim_detached = []\<rparr>"

lemma sim_tids:
  "tid_of_entry (Inr (Some ''7'')) = Inr 7" "tid_of_entry (Inr (Some ''8'')) = Inr 8"
  by (simp_all add: tid_of_entry_def parse_i32_def parse_unsigned_def digit_val_def)

lemma sim_seize: "attach_seize sim_os p s =
    Some (if p \<in> set (sim_gone s) \<or> sim_status s = [] then s else s\<lparr>sim_status := tl (sim_status s)\<rparr>,
      if p \<in> set (sim_gone s) then Inl (Err [''cannot seize the process'', ''ESRCH'']) else Inr ())"
  by (cases "sim_status s")
    (auto simp: attach_seize_def sim_os_def bind_io_def try_io_def ret_def bail_def)

lemmas sim_attach_simps = attach_all_threads_def sim_seize attempt_def on_err_def lift_res_def
  bind_io_def try_io_def ret_def sim_tids

theorem attach_all_threads_main_witness:
  "\<exists>w threads idx. attach_all_threads sim_os 7 sim0 = Some (w, Inr (threads, idx)) \<and>
     idx < length threads \<and> tid (threads ! idx) = 7"
proof -
  have t: "os_tasks sim_os 7 sim0 = Some (sim0, Inr [Inr (Some ''8''), Inr (Some ''7'')])"
    by (simp add: sim_os_def sim0_def)
  have a: "attach_all_threads sim_os 7 sim0 = Some (sim0, Inr ([\<lparr>tid = 8\<rparr>, \<lparr>tid = 7\<rparr>], 1))"
    using t by (simp add: sim_attach_simps) (simp add: sim0_def)
  from attach_all_threads_main[OF t a] show ?thesis using a by (simp add: sim_tids)
qed

text \<open>
  If a thread listed before the main thread cannot be seized, the index returned by
  \<^verbatim>\<open>attach_all_threads\<close> is not that of the main thread, here not even an index of the list.
\<close>

lemma attach_index_shift:
  "attach_all_threads sim_os 7 (sim0\<lparr>sim_gone := [8]\<rparr>) = Some (sim0\<lparr>sim_gone := [8]\<rparr>, Inr ([\<lparr>tid = 7\<rparr>], 1))"
proof -
  have "os_tasks sim_os 7 (sim0\<lparr>sim_gone := [8]\<rparr>) =
      Some (sim0\<lparr>sim_gone := [8]\<rparr>, Inr [Inr (Some ''8''), Inr (Some ''7'')])"
    by (simp add: sim_os_def sim0_def)
  then show ?thesis by (simp add: sim_attach_simps) (simp add: sim0_def)
qed

end
