(* ===== verification/Page_Math.thy ===== *)
theory Page_Math
  imports Vmsh_Prelude
begin

text \<open>
  \<^verbatim>\<open>src/page_math.rs\<close>: page rounding and the offset between a physical guest address and the
  address at which the hypervisor maps it.

  \<^verbatim>\<open>page_size()\<close> asks \<^verbatim>\<open>sysconf\<close>, whose answer is an argument of \<open>page_size\<close>. The code that uses
  it walks four-level x86-64 page tables, and on that architecture the answer is 4096
  (\<open>PAGE_SIZE\<close>). The rounding laws are proved once, for every power of two, in the locale
  \<open>pow2\<close>, and interpreted at \<open>PAGE_SIZE\<close> here and at the number of entries of a page table in
  \<open>Page_Commit\<close>.
\<close>

section \<open>Definitions\<close>

definition PAGE_SIZE :: usize where
  "PAGE_SIZE = 4096"

text \<open>\<^verbatim>\<open>sysconf\<close> gives an error, no value, or a value.\<close>

fun page_size :: "(error + u64 option) \<Rightarrow> usize res" where
  "page_size (Inl e) = panic ''sysconf failed''"
| "page_size (Inr None) = panic ''page size unknown''"
| "page_size (Inr (Some v)) = Inr v"

definition huge_page_size :: "u8 \<Rightarrow> usize res" where
  "huge_page_size level =
     bind_res (chk_sub 3 level) (\<lambda>d.
     bind_res (chk_mul 9 d) (\<lambda>s.
     Inr (push_bit (unat s) PAGE_SIZE)))"

definition page_start :: "usize \<Rightarrow> usize" where
  "page_start v = v AND NOT (PAGE_SIZE - 1)"

definition page_align :: "usize \<Rightarrow> usize res" where
  "page_align v =
     bind_res (chk_add v PAGE_SIZE) (\<lambda>s.
     bind_res (chk_sub s 1) (\<lambda>t.
     Inr (t AND NOT (PAGE_SIZE - 1))))"

definition is_page_aligned :: "usize \<Rightarrow> bool" where
  "is_page_aligned v \<longleftrightarrow> v AND (PAGE_SIZE - 1) = 0"

text \<open>Negation of an \<^verbatim>\<open>isize\<close>: the smallest value has no negative.\<close>

definition chk_neg :: "isize \<Rightarrow> isize res" where
  "chk_neg a = (if a = 2 ^ 63 then panic ''attempt to negate with overflow'' else Inr (- a))"

definition compute_host_offset :: "usize \<Rightarrow> usize \<Rightarrow> isize res" where
  "compute_host_offset host_addr phys_addr =
     (if phys_addr < host_addr then chk_sub host_addr phys_addr
      else bind_res (chk_sub phys_addr host_addr) chk_neg)"

section \<open>Rounding to a power of two\<close>

locale pow2 =
  fixes n :: usize and k :: nat
  assumes n_eq: "n = 2 ^ k" and k_less: "k < 64"
begin

lemma unat_n: "unat n = 2 ^ k"
  using k_less by (simp add: n_eq unat_2p)

lemma n_minus_1: "n - 1 = mask k"
  by (simp add: n_eq mask_eq_exp_minus_1)

lemma and_n_minus_1: "unat (v AND (n - 1)) = unat v mod 2 ^ k"
  by (simp only: n_minus_1 unat_and_mask)

lemma aligned_iff: "v AND (n - 1) = 0 \<longleftrightarrow> 2 ^ k dvd unat v"
  by (simp only: n_minus_1 and_mask_dvd_nat)

lemma align_down: "unat (v AND NOT (n - 1)) = unat v div 2 ^ k * 2 ^ k"
  by (simp only: n_minus_1 unat_and_not_mask)

lemma align_up:
  assumes "unat v + 2 ^ k < 2 ^ 64"
  shows "unat ((v + n - 1) AND NOT (n - 1)) = (unat v + (2 ^ k - 1)) div 2 ^ k * 2 ^ k"
proof -
  have "unat (v + n) = unat v + 2 ^ k"
    using assms by (simp add: unat_add_no_overflow unat_n)
  moreover have "(1::nat) \<le> 2 ^ k" by simp
  ultimately have "unat (v + n - 1) = unat v + (2 ^ k - 1)"
    by (subst unat_sub) (simp_all add: word_le_nat_alt trans_le_add2)
  then show ?thesis
    by (simp only: align_down)
qed

lemma round_up_least:
  fixes a m :: nat
  defines "r \<equiv> (a + (2 ^ k - 1)) div 2 ^ k * 2 ^ k"
  shows "2 ^ k dvd r" and "a \<le> r" and "r < a + 2 ^ k"
    and "\<lbrakk>2 ^ k dvd m; a \<le> m\<rbrakk> \<Longrightarrow> r \<le> m"
proof -
  define q :: nat where "q = 2 ^ k"
  have q: "0 < q" by (simp add: q_def)
  have r: "r = (a + (q - 1)) div q * q" by (simp add: r_def q_def)
  have split: "(a + (q - 1)) div q * q + (a + (q - 1)) mod q = a + (q - 1)"
    by (rule div_mult_mod_eq)
  moreover have "(a + (q - 1)) mod q < q" using q by (rule mod_less_divisor)
  ultimately show "a \<le> r" and lt: "r < a + 2 ^ k"
    using q unfolding r q_def[symmetric] by linarith+
  show "2 ^ k dvd r" by (simp add: r_def)
  assume "2 ^ k dvd m" and "a \<le> m"
  then obtain c where "m = q * c" unfolding q_def by (elim dvdE)
  moreover from \<open>a \<le> m\<close> have "(a + (q - 1)) div q \<le> (m + (q - 1)) div q"
    by (intro div_le_mono) simp
  moreover have "(q * c + (q - 1)) div q = c"
    using q div_mult_self4[of q c "q - 1"] by simp
  ultimately have "(a + (q - 1)) div q \<le> c" and "m = c * q"
    by (simp_all only: mult.commute)
  then show "r \<le> m" unfolding r by (simp only: mult_le_mono1)
qed

end

interpretation page: pow2 PAGE_SIZE 12
  by unfold_locales (simp_all add: PAGE_SIZE_def)

lemma unat_PAGE_SIZE [simp]: "unat PAGE_SIZE = 4096"
  using page.unat_n by simp

section \<open>Behaviour\<close>

lemma unat_page_start: "unat (page_start v) = unat v div 4096 * 4096"
  using page.align_down[of v] by (simp add: page_start_def)

lemma is_page_aligned_iff: "is_page_aligned v \<longleftrightarrow> 4096 dvd unat v"
  using page.aligned_iff[of v] by (simp add: is_page_aligned_def)

lemma page_align_Inr [res_simps]:
  "page_align v = Inr r \<longleftrightarrow>
     unat v + 4096 < 2 ^ 64 \<and> unat r = (unat v + 4095) div 4096 * 4096"
proof -
  have one: "1 \<le> v + PAGE_SIZE" if "unat v + 4096 < 2 ^ 64"
    using that by (simp add: word_le_nat_alt unat_add_no_overflow)
  have eq: "unat ((v + PAGE_SIZE - 1) AND NOT (PAGE_SIZE - 1)) = (unat v + 4095) div 4096 * 4096"
    if "unat v + 4096 < 2 ^ 64"
    using page.align_up[of v] that by simp
  show ?thesis
    using one eq unfolding page_align_def bind_res_Inr chk_add_Inr chk_sub_Inr
    by (auto intro: word_unat_eq_iff[THEN iffD2])
qed

lemma page_align_aligned:
  assumes "page_align v = Inr r"
  shows "is_page_aligned r" and "v \<le> r" and "unat r < unat v + 4096"
  using assms page.round_up_least[of "unat v"]
  by (simp_all add: page_align_Inr is_page_aligned_iff word_le_nat_alt)

end
