(* ===== verification/Phys_Map.thy ===== *)
theory Phys_Map
  imports Page_Math
begin

text \<open>
  \<^verbatim>\<open>PhysAddr\<close> (\<^verbatim>\<open>src/page_table.rs\<close>) and \<^verbatim>\<open>PhysHostMap\<close> (\<^verbatim>\<open>src/guest_mem.rs\<close>): which physical guest
  addresses are backed by a memslot of the hypervisor, and at which offset. The ends of the
  ranges are inclusive, as \<^verbatim>\<open>GuestMem::new\<close> builds them. The locale \<open>range_map\<close> is what the page
  table code and the allocator rely on.
\<close>

section \<open>Physical addresses\<close>

record phys_addr =
  pa_value :: usize
  pa_host_offset :: isize

definition wrapping_abs :: "isize \<Rightarrow> usize" where
  "wrapping_abs a = (if a <s 0 then - a else a)"

definition host_addr :: "phys_addr \<Rightarrow> usize res" where
  "host_addr a =
     (if pa_host_offset a <s 0 then chk_sub (pa_value a) (wrapping_abs (pa_host_offset a))
      else chk_add (pa_value a) (pa_host_offset a))"

definition pa_is_page_aligned :: "phys_addr \<Rightarrow> bool" where
  "pa_is_page_aligned a = is_page_aligned (pa_value a)"

definition pa_add :: "phys_addr \<Rightarrow> usize \<Rightarrow> phys_addr res" where
  "pa_add a offset =
     bind_res (chk_add (pa_value a) offset) (\<lambda>v. Inr (a\<lparr>pa_value := v\<rparr>))"

section \<open>The map from physical addresses to host offsets\<close>

type_synonym range = "usize \<times> usize"  \<comment> \<open>\<^verbatim>\<open>Range<usize>\<close>: start and end\<close>
type_synonym memslots = "(range \<times> isize) list"

text \<open>
  The loop of \<^verbatim>\<open>PhysHostMap::new\<close>. The vector under construction is kept with its last element
  first.
\<close>

fun phys_host_map_push :: "memslots \<Rightarrow> range \<times> isize \<Rightarrow> memslots res" where
  "phys_host_map_push [] slot = Inr [slot]"
| "phys_host_map_push (((ls, le), lval) # vec) ((rs, re), val) =
     (if rs \<le> le \<and> val \<noteq> lval then panic ''overlapping ranges''
      else if rs \<le> saturating_add le 1 \<and> val = lval then Inr (((ls, max re le), lval) # vec)
      else Inr (((rs, re), val) # ((ls, le), lval) # vec))"

fun phys_host_map_loop :: "memslots \<Rightarrow> memslots \<Rightarrow> memslots res" where
  "phys_host_map_loop vec [] = Inr vec"
| "phys_host_map_loop vec (slot # slots) =
     bind_res (phys_host_map_push vec slot) (\<lambda>vec'. phys_host_map_loop vec' slots)"

definition phys_host_map_new :: "memslots \<Rightarrow> memslots res" where
  "phys_host_map_new slots = bind_res (phys_host_map_loop [] slots) (\<lambda>vec. Inr (rev vec))"

definition last_range :: "memslots \<Rightarrow> range option" where
  "last_range m = (if m = [] then None else Some (fst (last m)))"

datatype ordering = Less | Equal | Greater

text \<open>\<^verbatim>\<open>slice::binary_search_by\<close> of the standard library, on the window \<open>left..right\<close>.\<close>

function binary_search_by :: "('a \<Rightarrow> ordering) \<Rightarrow> 'a list \<Rightarrow> nat \<Rightarrow> nat \<Rightarrow> nat + nat" where
  "binary_search_by f xs left right =
     (if left < right then
        let mid = left + (right - left) div 2 in
        case f (xs ! mid) of
          Less \<Rightarrow> binary_search_by f xs (mid + 1) right
        | Greater \<Rightarrow> binary_search_by f xs left mid
        | Equal \<Rightarrow> Inr mid
      else Inl left)"
  by auto
termination by (relation "measure (\<lambda>(f, xs, left, right). right - left)") auto

declare binary_search_by.simps [simp del]

fun cmp_range :: "usize \<Rightarrow> range \<times> isize \<Rightarrow> ordering" where
  "cmp_range phys_addr ((rs, re), v) =
     (if re < phys_addr then Less else if phys_addr < rs then Greater else Equal)"

definition get_range :: "memslots \<Rightarrow> usize \<Rightarrow> (range \<times> isize) option" where
  "get_range m phys_addr =
     (case binary_search_by (cmp_range phys_addr) m 0 (length m) of
        Inl _ \<Rightarrow> None
      | Inr idx \<Rightarrow> Some (m ! idx))"

definition phm_get :: "memslots \<Rightarrow> usize \<Rightarrow> isize option" where
  "phm_get m phys_addr = map_option snd (get_range m phys_addr)"

section \<open>Well-formed maps\<close>

text \<open>Every range is non-empty, and each starts after the end of the one before it.\<close>

definition wf_slots :: "memslots \<Rightarrow> bool" where
  "wf_slots m \<longleftrightarrow>
     (\<forall>x \<in> set m. fst (fst x) \<le> snd (fst x)) \<and>
     sorted_wrt (\<lambda>x y. snd (fst x) < fst (fst y)) m"

text \<open>The slot \<open>x\<close> backs the address \<open>p\<close>.\<close>

definition backs :: "range \<times> isize \<Rightarrow> usize \<Rightarrow> bool" where
  "backs x p \<longleftrightarrow> fst (fst x) \<le> p \<and> p \<le> snd (fst x)"

lemma cmp_range_Equal: "cmp_range p x = Equal \<longleftrightarrow> backs x p"
  by (cases "(p, x)" rule: cmp_range.cases) (auto simp: backs_def)

lemma cmp_range_Less: "cmp_range p x = Less \<longleftrightarrow> snd (fst x) < p"
  by (cases "(p, x)" rule: cmp_range.cases) auto

lemma cmp_range_Greater: "cmp_range p x = Greater \<longleftrightarrow> \<not> snd (fst x) < p \<and> p < fst (fst x)"
  by (cases "(p, x)" rule: cmp_range.cases) auto

lemma wf_slots_nth_less:
  "\<lbrakk>wf_slots m; i < j; j < length m\<rbrakk> \<Longrightarrow> snd (fst (m ! i)) < fst (fst (m ! j))"
  by (simp add: wf_slots_def sorted_wrt_iff_nth_less)

lemma wf_slots_nth_le: "\<lbrakk>wf_slots m; i < length m\<rbrakk> \<Longrightarrow> fst (fst (m ! i)) \<le> snd (fst (m ! i))"
  by (simp add: wf_slots_def)

text \<open>What the binary search finds backs the address, and it misses only unbacked addresses.\<close>

lemma binary_search_Inr:
  assumes "binary_search_by f xs l r = Inr i"
  shows "l \<le> i \<and> i < r \<and> f (xs ! i) = Equal"
  using assms
proof (induction f xs l r rule: binary_search_by.induct)
  case (1 f xs l r)
  let ?mid = "l + (r - l) div 2"
  note res = "1.prems"[unfolded binary_search_by.simps[of f xs l r] Let_def]
  have lr: "l < r" using res by (simp split: if_splits)
  then have mid: "l \<le> ?mid" "?mid < r" by auto
  show ?case
  proof (cases "f (xs ! ?mid)")
    case Less
    with "1.IH"(1)[OF lr refl Less] res lr show ?thesis by simp
  next
    case Equal
    with res lr mid show ?thesis by simp
  next
    case Greater
    with "1.IH"(2)[OF lr refl Greater] res lr mid show ?thesis by simp
  qed
qed

lemma binary_search_Inl:
  assumes "binary_search_by (cmp_range p) m l r = Inl e" "wf_slots m" "r \<le> length m"
    and "\<forall>i < l. snd (fst (m ! i)) < p" "\<forall>i. r \<le> i \<and> i < length m \<longrightarrow> p < fst (fst (m ! i))"
  shows "\<forall>x \<in> set m. \<not> backs x p"
  using assms
proof (induction "cmp_range p" m l r rule: binary_search_by.induct)
  case (1 m l r)
  let ?mid = "l + (r - l) div 2"
  show ?case
  proof (cases "l < r")
    case False
    have "\<not> backs (m ! i) p" if "i < length m" for i
      using "1.prems"(4)[rule_format, of i] "1.prems"(5)[rule_format, of i] that False
      by (cases "i < l") (auto simp: backs_def)
    then show ?thesis by (metis in_set_conv_nth)
  next
    case True
    note res = "1.prems"(1)[unfolded binary_search_by.simps[of _ m l r] Let_def]
    have mid: "?mid < r" "?mid < length m" using True "1.prems"(3) by auto
    show ?thesis
    proof (cases "cmp_range p (m ! ?mid)")
      case Less
      have "snd (fst (m ! i)) < p" if "i < ?mid + 1" for i
        using Less that wf_slots_nth_less[OF "1.prems"(2), of i ?mid]
          wf_slots_nth_le[OF "1.prems"(2) mid(2)] mid
        by (cases "i = ?mid") (auto simp: cmp_range_Less)
      then show ?thesis
        using "1.hyps"(1)[OF True refl Less] res Less True "1.prems" by auto
    next
      case Equal
      then show ?thesis using res True by auto
    next
      case Greater
      have "p < fst (fst (m ! i))" if "?mid \<le> i" "i < length m" for i
        using Greater that wf_slots_nth_less[OF "1.prems"(2), of ?mid i]
          wf_slots_nth_le[OF "1.prems"(2) mid(2)]
        by (cases "i = ?mid") (auto simp: cmp_range_Greater)
      then show ?thesis
        using "1.hyps"(2)[OF True refl Greater] res Greater True "1.prems" mid by auto
    qed
  qed
qed

lemma get_range_SomeD:
  assumes "get_range m p = Some x"
  shows "x \<in> set m \<and> backs x p"
proof -
  obtain i where i: "binary_search_by (cmp_range p) m 0 (length m) = Inr i" and x: "x = m ! i"
    using assms by (auto simp: get_range_def split: sum.splits)
  show ?thesis
    using binary_search_Inr[OF i] x by (auto simp: cmp_range_Equal)
qed

lemma get_range_None:
  assumes "wf_slots m"
  shows "get_range m p = None \<longleftrightarrow> (\<forall>x \<in> set m. \<not> backs x p)"
proof
  assume "get_range m p = None"
  then obtain e where "binary_search_by (cmp_range p) m 0 (length m) = Inl e"
    by (auto simp: get_range_def split: sum.splits)
  then show "\<forall>x \<in> set m. \<not> backs x p"
    by (rule binary_search_Inl) (use assms in auto)
next
  assume "\<forall>x \<in> set m. \<not> backs x p"
  then show "get_range m p = None"
    using get_range_SomeD[of m p] by (cases "get_range m p") auto
qed

lemma wf_slots_backs_unique:
  assumes "wf_slots m" "x \<in> set m" "y \<in> set m" "backs x p" "backs y p"
  shows "x = y"
proof -
  obtain i j where ij: "i < length m" "j < length m" "x = m ! i" "y = m ! j"
    using assms(2,3) by (auto simp: in_set_conv_nth)
  show ?thesis
    using wf_slots_nth_less[OF assms(1), of i j] wf_slots_nth_less[OF assms(1), of j i] assms(4,5) ij
    by (cases i j rule: linorder_cases) (auto simp: backs_def)
qed

text \<open>The binary search agrees with a search through all the slots.\<close>

lemma get_range_Some_iff:
  assumes "wf_slots m"
  shows "get_range m p = Some x \<longleftrightarrow> x \<in> set m \<and> backs x p"
proof
  assume "get_range m p = Some x"
  then show "x \<in> set m \<and> backs x p" by (rule get_range_SomeD)
next
  assume x: "x \<in> set m \<and> backs x p"
  then obtain y where y: "get_range m p = Some y"
    using get_range_None[OF assms, of p] by (cases "get_range m p") auto
  then show "get_range m p = Some x"
    using get_range_SomeD[OF y] wf_slots_backs_unique[OF assms] x by blast
qed

lemma phm_get_Some_iff:
  "wf_slots m \<Longrightarrow> phm_get m p = Some v \<longleftrightarrow> (\<exists>r. (r, v) \<in> set m \<and> backs (r, v) p)"
  by (force simp: phm_get_def get_range_Some_iff)

section \<open>What construction keeps\<close>

lemma max_word_eq: "unat (max a b :: usize) = max (unat a) (unat b)"
  by (simp add: max_def word_le_nat_alt)

lemma le_saturating_add: "(a :: usize) \<le> saturating_add b 1 \<longleftrightarrow> unat a \<le> unat b + 1"
proof (cases "unat b + 1 < 2 ^ 64")
  case True
  then show ?thesis
    by (simp add: saturating_add_alt word_le_nat_alt unat_add_no_overflow)
next
  case False
  then have "unat a \<le> unat b + 1"
    using unsigned_less[of a, where ?'a = nat] by simp
  with False show ?thesis by (simp add: saturating_add_alt)
qed

text \<open>
  Pushing a range that starts at or after every earlier start keeps the vector well-formed,
  and the addresses backed are those backed before and those of the new range.
\<close>

lemma phys_host_map_push_ok:
  assumes push: "phys_host_map_push vec slot = Inr vec'"
    and wf: "wf_slots (rev vec)" and ne: "fst (fst slot) \<le> snd (fst slot)"
    and le: "\<forall>x \<in> set vec. fst (fst x) \<le> fst (fst slot)"
  shows "wf_slots (rev vec')"
    and "(\<exists>x \<in> set vec'. snd x = v \<and> backs x p) \<longleftrightarrow>
         (\<exists>x \<in> insert slot (set vec). snd x = v \<and> backs x p)"
    and "\<forall>x \<in> set vec'. fst (fst x) \<le> fst (fst slot)"
proof -
  obtain rs re val where slot: "slot = ((rs, re), val)" by (metis surj_pair)
  have "wf_slots (rev vec') \<and> ((\<exists>x \<in> set vec'. snd x = v \<and> backs x p) \<longleftrightarrow>
         (\<exists>x \<in> insert slot (set vec). snd x = v \<and> backs x p)) \<and>
        (\<forall>x \<in> set vec'. fst (fst x) \<le> fst (fst slot))"
  proof (cases vec)
    case Nil
    with push ne show ?thesis by (auto simp: wf_slots_def slot)
  next
    case (Cons l vs)
    obtain ls le' lval where l: "l = ((ls, le'), lval)" by (metis surj_pair)
    have wf': "wf_slots (rev vs)" "\<forall>x \<in> set vs. snd (fst x) < ls" "ls \<le> le'" "ls \<le> rs" "rs \<le> re"
      using wf le ne by (auto simp: Cons l slot wf_slots_def sorted_wrt_append)
    show ?thesis
    proof (cases "rs \<le> saturating_add le' 1 \<and> val = lval")
      case True
      then have vec': "vec' = ((ls, max re le'), lval) # vs"
        using push by (auto simp: Cons l slot split: if_splits)
      have un: "ls \<le> p \<and> p \<le> max re le' \<longleftrightarrow> ls \<le> p \<and> p \<le> le' \<or> rs \<le> p \<and> p \<le> re"
        using True[unfolded le_saturating_add] wf' by (auto simp: word_le_nat_alt max_word_eq)
      show ?thesis
        using wf' le True un
        by (auto simp: vec' Cons l slot wf_slots_def sorted_wrt_append backs_def le_max_iff_disj)
    next
      case False
      then have vec': "vec' = slot # l # vs"
        using push by (auto simp: Cons l slot split: if_splits)
      have gt: "le' < rs"
        using push False[unfolded le_saturating_add]
        by (auto simp: Cons l slot word_less_nat_alt word_le_nat_alt split: if_splits)
      have "\<forall>x \<in> set vs. snd (fst x) < rs" using wf'(2,4) by force
      then show ?thesis
        using wf le ne gt by (auto simp: vec' Cons l slot wf_slots_def sorted_wrt_append)
    qed
  qed
  then show "wf_slots (rev vec')"
    and "(\<exists>x \<in> set vec'. snd x = v \<and> backs x p) \<longleftrightarrow>
         (\<exists>x \<in> insert slot (set vec). snd x = v \<and> backs x p)"
    and "\<forall>x \<in> set vec'. fst (fst x) \<le> fst (fst slot)"
    by blast+
qed

lemma phys_host_map_loop_ok:
  assumes "phys_host_map_loop vec slots = Inr vec'" "wf_slots (rev vec)"
    and "\<forall>x \<in> set slots. fst (fst x) \<le> snd (fst x)"
    and "sorted_wrt (\<lambda>x y. fst (fst x) \<le> fst (fst y)) slots"
    and "\<forall>x \<in> set vec. \<forall>y \<in> set slots. fst (fst x) \<le> fst (fst y)"
  shows "wf_slots (rev vec') \<and>
    ((\<exists>x \<in> set vec'. snd x = v \<and> backs x p) \<longleftrightarrow>
     (\<exists>x \<in> set vec \<union> set slots. snd x = v \<and> backs x p))"
  using assms
proof (induction slots arbitrary: vec)
  case (Cons slot slots)
  then obtain w where w: "phys_host_map_push vec slot = Inr w"
      and rest: "phys_host_map_loop w slots = Inr vec'"
    by (auto simp: bind_res_Inr)
  have p: "wf_slots (rev w)" "\<forall>x \<in> set w. fst (fst x) \<le> fst (fst slot)"
    using phys_host_map_push_ok[OF w] Cons.prems by auto
  have bk: "(\<exists>x \<in> set w. snd x = v \<and> backs x p) \<longleftrightarrow>
         (\<exists>x \<in> insert slot (set vec). snd x = v \<and> backs x p)"
    by (rule phys_host_map_push_ok[OF w]) (use Cons.prems in auto)
  have "\<forall>x \<in> set w. \<forall>y \<in> set slots. fst (fst x) \<le> fst (fst y)"
    using p(2) Cons.prems(4) by force
  then show ?case
    using Cons.IH[OF rest p(1)] Cons.prems bk by (simp add: bex_Un)
qed simp

lemma phys_host_map_new_ok:
  assumes "phys_host_map_new slots = Inr m"
    and "\<forall>x \<in> set slots. fst (fst x) \<le> snd (fst x)"
    and "sorted_wrt (\<lambda>x y. fst (fst x) \<le> fst (fst y)) slots"
  shows "wf_slots m"
    and "(\<exists>x \<in> set m. snd x = v \<and> backs x p) \<longleftrightarrow> (\<exists>x \<in> set slots. snd x = v \<and> backs x p)"
proof -
  obtain vec where vec: "phys_host_map_loop [] slots = Inr vec" and m: "m = rev vec"
    using assms(1) by (auto simp: phys_host_map_new_def bind_res_Inr)
  have "wf_slots (rev [])" by (simp add: wf_slots_def)
  from phys_host_map_loop_ok[OF vec this assms(2,3)]
  show "wf_slots m"
    and "(\<exists>x \<in> set m. snd x = v \<and> backs x p) \<longleftrightarrow> (\<exists>x \<in> set slots. snd x = v \<and> backs x p)"
    by (simp_all add: m)
qed

section \<open>Interface\<close>

text \<open>
  What the clients rely on: a lookup that answers from a set of inclusive ranges, all of which
  end at or before the end of the last range.
\<close>

locale range_map =
  fixes invar :: "'m \<Rightarrow> bool"
    and slots :: "'m \<Rightarrow> (range \<times> isize) set"
    and look :: "'m \<Rightarrow> usize \<Rightarrow> isize option"
    and lastr :: "'m \<Rightarrow> range option"
  assumes look_iff: "invar m \<Longrightarrow> look m p = Some v \<longleftrightarrow> (\<exists>r. (r, v) \<in> slots m \<and> backs (r, v) p)"
    and lastr_upper: "\<lbrakk>invar m; (r, v) \<in> slots m\<rbrakk> \<Longrightarrow> \<exists>l. lastr m = Some l \<and> snd r \<le> snd l"
begin

lemma look_le_last: "\<lbrakk>invar m; look m p = Some v\<rbrakk> \<Longrightarrow> \<exists>l. lastr m = Some l \<and> p \<le> snd l"
  using lastr_upper by (fastforce simp: look_iff backs_def)

lemma look_above_last: "\<lbrakk>invar m; lastr m = Some l; snd l < p\<rbrakk> \<Longrightarrow> look m p = None"
  using look_le_last[of m p] by (cases "look m p") auto

lemma look_same_slot:
  "\<lbrakk>invar m; (r, v) \<in> slots m; fst r \<le> p; p \<le> snd r\<rbrakk> \<Longrightarrow> look m p = Some v"
  unfolding look_iff backs_def by (metis fst_conv)

end

lemma last_range_upper:
  assumes "wf_slots m" "x \<in> set m"
  shows "\<exists>l. last_range m = Some l \<and> snd (fst x) \<le> snd l"
proof -
  obtain i where i: "i < length m" "x = m ! i"
    using assms(2) by (auto simp: in_set_conv_nth)
  then have ne: "m \<noteq> []" by auto
  have "snd (fst (m ! i)) \<le> snd (fst (m ! (length m - 1)))"
  proof (cases "i = length m - 1")
    case False
    with i have lt: "i < length m - 1" "length m - 1 < length m" by auto
    from wf_slots_nth_less[OF assms(1) lt] wf_slots_nth_le[OF assms(1) lt(2)] show ?thesis
      by (meson less_imp_le order_trans)
  qed simp
  then show ?thesis using ne i by (simp add: last_range_def last_conv_nth)
qed

interpretation phm: range_map wf_slots set phm_get last_range
proof unfold_locales
  fix m p v assume "wf_slots m"
  then show "phm_get m p = Some v \<longleftrightarrow> (\<exists>r. (r, v) \<in> set m \<and> backs (r, v) p)"
    by (rule phm_get_Some_iff)
next
  fix m r v assume "wf_slots m" "(r, v) \<in> set m"
  then show "\<exists>l. last_range m = Some l \<and> snd r \<le> snd l"
    using last_range_upper by fastforce
qed

section \<open>Host addresses\<close>

lemma sless_zero_iff: "(a :: isize) <s 0 \<longleftrightarrow> 2 ^ 63 \<le> unat a"
proof -
  have "(a :: isize) <s 0 \<longleftrightarrow> bit a 63"
    using bit_last_iff[of a] by (simp add: word_sless_alt)
  also have "\<dots> \<longleftrightarrow> bit (unat a) 63"
    by (simp add: bit_unsigned_iff)
  also have "\<dots> \<longleftrightarrow> odd (unat a div 2 ^ 63)"
    by (simp add: bit_iff_odd)
  also have "\<dots> \<longleftrightarrow> 2 ^ 63 \<le> unat a"
  proof (cases "2 ^ 63 \<le> unat a")
    case True
    moreover have "unat a < 2 * 2 ^ 63"
      using unsigned_less[of a, where ?'a = nat] by simp
    ultimately have "unat a div 2 ^ 63 = 1"
      by (intro div_nat_eqI) auto
    with True show ?thesis by simp
  qed (simp add: div_less)
  finally show ?thesis .
qed

text \<open>The distance between a slot's host and physical address fits an \<^verbatim>\<open>isize\<close>.\<close>

definition offset_fits :: "usize \<Rightarrow> usize \<Rightarrow> bool" where
  "offset_fits h p \<longleftrightarrow> unat h < unat p + 2 ^ 63 \<and> unat p < unat h + 2 ^ 63"

lemma compute_host_offset_ok:
  "offset_fits h p \<Longrightarrow> compute_host_offset h p = Inr (h - p)"
proof (cases "p < h")
  case False
  assume fits: "offset_fits h p"
  from False have "unat (p - h) = unat p - unat h" by (simp add: unat_sub)
  with fits have "unat (p - h) \<noteq> unat (2 ^ 63 :: usize)"
    by (auto simp: offset_fits_def unat_2p)
  then have "p - h \<noteq> 2 ^ 63" by metis
  moreover have "h \<le> p" using False by simp
  ultimately show ?thesis
    using False by (simp add: compute_host_offset_def chk_sub_def chk_neg_def)
qed (simp add: compute_host_offset_def chk_sub_def)

lemma host_addr_offset:
  assumes "offset_fits h p" "unat h + d < 2 ^ 64" "unat q = unat p + d"
  shows "host_addr \<lparr>pa_value = q, pa_host_offset = h - p\<rparr> = Inr (h + (q - p))"
proof (cases "p \<le> h")
  case True
  then have off: "unat (h - p) = unat h - unat p" and le: "unat p \<le> unat h"
    by (simp_all add: unat_sub word_le_nat_alt)
  then have "\<not> h - p <s 0" "unat q + unat (h - p) < 2 ^ 64"
    using assms by (auto simp: sless_zero_iff offset_fits_def)
  then show ?thesis by (simp add: host_addr_def chk_add_alt)
next
  case False
  then have lt: "unat h < unat p" by (simp add: word_less_nat_alt not_le)
  then have "unat (p - h) = unat p - unat h" by (simp add: unat_sub word_le_nat_alt)
  moreover have "unat (h - p) = 2 ^ 64 - (unat p - unat h)"
    using unat_sub_if'[of h p] lt by auto
  ultimately have "h - p <s 0" "p - h \<le> q"
    using assms lt by (auto simp: sless_zero_iff offset_fits_def word_le_nat_alt)
  then show ?thesis by (simp add: host_addr_def wrapping_abs_def chk_sub_def)
qed

section \<open>Properties\<close>

text \<open>
  C22: Building the map from slots sorted by start address (as \<^verbatim>\<open>GuestMem::new\<close> sorts them) never
  loses or invents a mapping: the binary search on the merged vector finds an offset for an
  address exactly when one of the given slots backs that address with that offset.
\<close>

theorem phys_host_map_lookup:
  assumes "phys_host_map_new slots = Inr m"
    and "\<forall>x \<in> set slots. fst (fst x) \<le> snd (fst x)"
    and "sorted_wrt (\<lambda>x y. fst (fst x) \<le> fst (fst y)) slots"
  shows "phm_get m p = Some v \<longleftrightarrow> (\<exists>rs re. ((rs, re), v) \<in> set slots \<and> rs \<le> p \<and> p \<le> re)"
proof -
  have "phm_get m p = Some v \<longleftrightarrow> (\<exists>x \<in> set m. snd x = v \<and> backs x p)"
    by (force simp: phm_get_Some_iff[OF phys_host_map_new_ok(1)[OF assms]])
  also have "\<dots> \<longleftrightarrow> (\<exists>x \<in> set slots. snd x = v \<and> backs x p)"
    by (rule phys_host_map_new_ok(2)[OF assms])
  also have "\<dots> \<longleftrightarrow> (\<exists>rs re. ((rs, re), v) \<in> set slots \<and> rs \<le> p \<and> p \<le> re)"
    by (force simp: backs_def)
  finally show ?thesis .
qed

theorem phys_host_map_lookup_witness:
  "phm_get [((1, 9), 1), ((10, 15), 2)] 11 = Some 2"
proof -
  have "phys_host_map_new [((1, 5), 1), ((4, 9), 1), ((10, 15), 2)]
      = Inr [((1, 9), 1), ((10, 15), 2)]"
    by code_simp
  from phys_host_map_lookup[OF this, of 11 2] show ?thesis by auto
qed

text \<open>
  The host address computed for a physical address is the place where the hypervisor maps
  it: for a slot mapped at \<open>h\<close> with physical start \<open>p\<close>, the address \<open>d\<close> bytes into the slot is
  found \<open>d\<close> bytes after \<open>h\<close>, whichever of the two is larger.
\<close>

theorem host_addr_of_slot:
  assumes "offset_fits h p" "unat h + d < 2 ^ 64" "unat q = unat p + d"
  shows "\<exists>off a. compute_host_offset h p = Inr off \<and>
    host_addr \<lparr>pa_value = q, pa_host_offset = off\<rparr> = Inr a \<and> unat a = unat h + d"
proof -
  have "unat (q - p) = d"
    using assms(3) by (simp add: unat_sub word_le_nat_alt)
  then have "unat (h + (q - p)) = unat h + d"
    using assms(2) by (simp add: unat_add_no_overflow)
  then show ?thesis
    using compute_host_offset_ok[OF assms(1)] host_addr_offset[OF assms] by auto
qed

theorem host_addr_of_slot_witness:
  "\<exists>off a. compute_host_offset 0x1000 0x7f000000 = Inr off \<and>
    host_addr \<lparr>pa_value = 0x7f000010, pa_host_offset = off\<rparr> = Inr a \<and>
    unat a = unat (0x1000 :: usize) + 16"
  by (rule host_addr_of_slot) (simp_all add: offset_fits_def)

end
