(* ===== verification/Page_Table.thy ===== *)
theory Page_Table
  imports Phys_Map
begin

text \<open>
  \<^verbatim>\<open>src/page_table.rs\<close>: page table entries, the tables of the guest, and \<^verbatim>\<open>map_memory\<close>, which adds
  mappings to the guest's four-level page table.

  \<^verbatim>\<open>Rc<RefCell<PageTable>>\<close> is modelled by an explicit heap: a reference is an index into
  \<open>heap\<close>, and \<open>borrowed\<close> lists the references that are mutably borrowed, so that a second
  \<^verbatim>\<open>borrow_mut\<close> of the same table panics as it does in the code. Reading the memory of the
  hypervisor process (\<^verbatim>\<open>process_read\<close>) and writing to it (\<^verbatim>\<open>process_vm_writev\<close>) are system calls;
  they are the arguments \<open>rd\<close> and \<open>wr\<close>. The order in which a \<^verbatim>\<open>HashMap\<close> yields its values is
  unspecified; it is the argument \<open>ord\<close>.
\<close>

section \<open>Entries\<close>

definition ENTRY_COUNT :: usize where "ENTRY_COUNT = 512"

definition LEVEL_COUNT :: nat where "LEVEL_COUNT = 4"

type_synonym page_table_flags = u64

definition PRESENT :: page_table_flags where "PRESENT = 1"
definition WRITABLE :: page_table_flags where "WRITABLE = 0x2"
definition ACCESSED :: page_table_flags where "ACCESSED = 0x20"
definition DIRTY :: page_table_flags where "DIRTY = 0x40"
definition HUGE_PAGE :: page_table_flags where "HUGE_PAGE = 0x80"
definition NO_EXECUTE :: page_table_flags where "NO_EXECUTE = 0x8000000000000000"

text \<open>All the flags \<^verbatim>\<open>PageTableFlags\<close> declares: bits 0 to 11 and 52 to 63.\<close>

definition PageTableFlags_all :: page_table_flags where
  "PageTableFlags_all = 0xFFF0000000000FFF"

definition flags_contain :: "page_table_flags \<Rightarrow> page_table_flags \<Rightarrow> bool" where
  "flags_contain f g \<longleftrightarrow> f AND g = g"

type_synonym page_table_entry = u64

definition entry_is_unused :: "page_table_entry \<Rightarrow> bool" where
  "entry_is_unused e \<longleftrightarrow> e = 0"

definition entry_set_addr :: "phys_addr \<Rightarrow> page_table_flags \<Rightarrow> page_table_entry res" where
  "entry_set_addr addr flags =
     bind_res (assert_res (pa_is_page_aligned addr) ''addr.is_page_aligned()'') (\<lambda>_.
     Inr (pa_value addr OR flags))"

definition entry_set_unused :: "page_table_entry \<Rightarrow> page_table_entry" where
  "entry_set_unused e = 0"

definition entry_flags :: "page_table_entry \<Rightarrow> page_table_flags" where
  "entry_flags e = e AND PageTableFlags_all"

definition entry_addr :: "page_table_entry \<Rightarrow> u64" where
  "entry_addr e = e AND 0x000FFFFFFFFFF000"

section \<open>Tables\<close>

record page_table =
  pt_entries :: "page_table_entry list"
  pt_virt_addr :: u64
  pt_phys_addr :: phys_addr
  pt_level :: u8

definition pt_empty :: "phys_addr \<Rightarrow> page_table" where
  "pt_empty a = \<lparr>pt_entries = replicate 512 0, pt_virt_addr = 0, pt_phys_addr = a, pt_level = 0\<rparr>"

text \<open>\<open>rd a\<close>: the 512 entries at the address \<open>a\<close> of the hypervisor process.\<close>

type_synonym reader = "usize \<Rightarrow> page_table_entry list res"

definition pt_read :: "reader \<Rightarrow> phys_addr \<Rightarrow> u64 \<Rightarrow> u8 \<Rightarrow> page_table res" where
  "pt_read rd a virt_addr level =
     bind_res (host_addr a) (\<lambda>h.
     bind_res (rd h) (\<lambda>es.
     Inr \<lparr>pt_entries = es, pt_virt_addr = virt_addr, pt_phys_addr = a, pt_level = level\<rparr>))"

definition pt_entry_phys_addr :: "page_table_entry \<Rightarrow> memslots \<Rightarrow> phys_addr res" where
  "pt_entry_phys_addr e m =
     bind_res (require_with (phm_get m (entry_addr e)) ''physical address is not backed by memslot'')
       (\<lambda>off. Inr \<lparr>pa_value = entry_addr e, pa_host_offset = off\<rparr>)"

definition get_shift :: "u8 \<Rightarrow> u8 res" where
  "get_shift level =
     bind_res (assert_res (level \<le> 3) ''level <= 3'') (\<lambda>_.
     bind_res (chk_sub 3 level) (\<lambda>d.
     bind_res (chk_mul 9 d) (\<lambda>s. chk_add 12 s)))"

definition get_index :: "u64 \<Rightarrow> u8 \<Rightarrow> u64 res" where
  "get_index virt level =
     bind_res (get_shift level) (\<lambda>s. Inr (drop_bit (unat s) virt AND 0x1FF))"

definition table_align :: "usize \<Rightarrow> usize res" where
  "table_align pages =
     bind_res (chk_add pages (ENTRY_COUNT - 1)) (\<lambda>s. Inr (s AND NOT (ENTRY_COUNT - 1)))"

fun estimate_loop :: "nat \<Rightarrow> usize \<Rightarrow> usize \<Rightarrow> usize res" where
  "estimate_loop 0 tables total_tables = Inr total_tables"
| "estimate_loop (Suc n) tables total_tables =
     bind_res (table_align tables) (\<lambda>t.
     let tables' = t div ENTRY_COUNT in
     bind_res (chk_add total_tables tables') (\<lambda>total. estimate_loop n tables' total))"

definition estimate_page_table_size :: "usize \<Rightarrow> usize res" where
  "estimate_page_table_size sz =
     bind_res (page_align sz) (\<lambda>s.
     bind_res (estimate_loop LEVEL_COUNT (s div PAGE_SIZE) 0) (\<lambda>total_tables.
     bind_res (chk_mul total_tables 8) (\<lambda>b. chk_mul b ENTRY_COUNT)))"

section \<open>The tables touched by a mapping\<close>

type_synonym prot_flags = u32

definition PROT_READ :: prot_flags where "PROT_READ = 1"
definition PROT_WRITE :: prot_flags where "PROT_WRITE = 2"
definition PROT_EXEC :: prot_flags where "PROT_EXEC = 4"

definition prot_contains :: "prot_flags \<Rightarrow> prot_flags \<Rightarrow> bool" where
  "prot_contains p q \<longleftrightarrow> p AND q = q"

record mapped_memory =
  mm_phys_start :: phys_addr
  mm_virt_start :: usize
  mm_len :: usize
  mm_prot :: prot_flags

definition page_table_flags :: "prot_flags \<Rightarrow> page_table_flags" where
  "page_table_flags p =
     (let flags = PRESENT OR ACCESSED;
          flags = (if prot_contains p PROT_WRITE then flags OR WRITABLE else flags);
          flags = (if \<not> prot_contains p PROT_EXEC then flags OR NO_EXECUTE else flags)
      in flags)"

text \<open>
  The heap of tables, the tables to be written (\<^verbatim>\<open>upsert_tables\<close>, with the latest insertion
  first), the original content of the tables read (\<^verbatim>\<open>old_tables\<close>), the place of the next new
  table (\<^verbatim>\<open>pt_addr\<close>), and the local variables \<^verbatim>\<open>phys_addr\<close> and \<^verbatim>\<open>len\<close> of \<^verbatim>\<open>map_memory_single\<close>.
\<close>

record map_state =
  heap :: "page_table list"
  borrowed :: "nat list"
  upsert_tables :: "(usize \<times> nat) list"
  old_tables :: "page_table list"
  pt_addr :: phys_addr
  cur_phys :: phys_addr
  cur_len :: usize

definition hash_insert :: "usize \<Rightarrow> nat \<Rightarrow> (usize \<times> nat) list \<Rightarrow> (usize \<times> nat) list" where
  "hash_insert k v m = (k, v) # filter (\<lambda>x. fst x \<noteq> k) m"

definition entry_at :: "map_state \<Rightarrow> nat \<Rightarrow> nat \<Rightarrow> page_table_entry" where
  "entry_at s t i = pt_entries (heap s ! t) ! i"

definition set_entry :: "nat \<Rightarrow> nat \<Rightarrow> page_table_entry \<Rightarrow> map_state \<Rightarrow> map_state" where
  "set_entry t i e s =
     s\<lparr>heap := (heap s)[t := (heap s ! t)\<lparr>pt_entries := (pt_entries (heap s ! t))[i := e]\<rparr>]\<rparr>"

definition rc_new :: "page_table \<Rightarrow> map_state \<Rightarrow> nat \<times> map_state" where
  "rc_new t s = (length (heap s), s\<lparr>heap := heap s @ [t]\<rparr>)"

definition borrow_mut :: "nat \<Rightarrow> map_state \<Rightarrow> map_state res" where
  "borrow_mut t s =
     (if t \<in> set (borrowed s) then panic ''already borrowed'' else Inr (s\<lparr>borrowed := t # borrowed s\<rparr>))"

definition release :: "nat \<Rightarrow> map_state \<Rightarrow> map_state" where
  "release t s = s\<lparr>borrowed := remove1 t (borrowed s)\<rparr>"

text \<open>The \<^verbatim>\<open>entry\<close> argument is entry \<open>i\<close> of the table \<open>t\<close>.\<close>

definition allocate_page_table :: "nat \<Rightarrow> nat \<Rightarrow> map_state \<Rightarrow> (nat \<times> map_state) res" where
  "allocate_page_table t i s =
     (let (table, s1) = rc_new (pt_empty (pt_addr s)) s in
      bind_res (entry_set_addr (pt_addr s) (PRESENT OR ACCESSED OR DIRTY OR WRITABLE)) (\<lambda>e.
      let s2 = set_entry t i e s1;
          s3 = s2\<lparr>upsert_tables := hash_insert (pa_value (pt_addr s)) table (upsert_tables s2)\<rparr> in
      bind_res (chk_add (pa_value (pt_addr s)) (8 * ENTRY_COUNT)) (\<lambda>v.
      Inr (table, s3\<lparr>pt_addr := (pt_addr s)\<lparr>pa_value := v\<rparr>\<rparr>))))"

definition read_page_table :: "reader \<Rightarrow> memslots \<Rightarrow> usize \<Rightarrow> map_state \<Rightarrow> (nat \<times> map_state) res" where
  "read_page_table rd m a s =
     bind_res (require_with (phm_get m a) ''phys address is not backed by memslot'') (\<lambda>off.
     bind_res (try_with (pt_read rd \<lparr>pa_value = a, pa_host_offset = off\<rparr> 0 0) ''cannot read page table'')
       (\<lambda>pt.
     let (table, s1) = rc_new pt s;
         s2 = s1\<lparr>old_tables := old_tables s1 @ [pt]\<rparr> in
     Inr (table, s2\<lparr>upsert_tables := hash_insert a table (upsert_tables s2)\<rparr>)))"

definition get_page_table ::
  "reader \<Rightarrow> memslots \<Rightarrow> nat \<Rightarrow> nat \<Rightarrow> map_state \<Rightarrow> (nat \<times> map_state) res" where
  "get_page_table rd m t i s =
     (let entry = entry_at s t i in
      if flags_contain (entry_flags entry) (HUGE_PAGE OR PRESENT)
      then bail ''found huge table in page table''
      else if flags_contain (entry_flags entry) PRESENT
      then (case map_of (upsert_tables s) (entry_addr entry) of
              Some t' \<Rightarrow> Inr (t', s)
            | None \<Rightarrow> read_page_table rd m (entry_addr entry) s)
      else allocate_page_table t i s)"

definition get_start_idx :: "usize \<Rightarrow> nat \<Rightarrow> u8 \<Rightarrow> nat res" where
  "get_start_idx virt_addr idx level =
     (if idx \<noteq> 0 then Inr 0 else bind_res (get_index virt_addr level) (\<lambda>i. Inr (unat i)))"

section \<open>Mapping\<close>

text \<open>
  The four nested loops of \<^verbatim>\<open>map_memory_single\<close>. \<open>level3_loop\<close> is the innermost one, on the entries
  of table \<open>t\<close> with the given indices; its \<open>bool\<close> is \<^verbatim>\<open>break 'outer\<close>. \<open>upper_loop\<close> is the body the
  three outer ones share: for the \<open>i\<close>-th entry from \<open>start\<close>, fetch the table the entry points
  to, borrow it, and run the next loop on it from the start index of the next level.
\<close>

fun level3_loop :: "prot_flags \<Rightarrow> nat \<Rightarrow> nat list \<Rightarrow> map_state \<Rightarrow> (bool \<times> map_state) res" where
  "level3_loop prot t [] s = Inr (False, s)"
| "level3_loop prot t (i # is) s =
     (if flags_contain (entry_flags (entry_at s t i)) PRESENT
      then bail ''found already mapped page in page table''
      else
        bind_res (entry_set_addr (cur_phys s) (page_table_flags prot)) (\<lambda>e.
        bind_res (chk_add (pa_value (cur_phys s)) PAGE_SIZE) (\<lambda>v.
        bind_res (chk_sub (cur_len s) PAGE_SIZE) (\<lambda>l.
        let s' = (set_entry t i e s)\<lparr>cur_phys := (cur_phys s)\<lparr>pa_value := v\<rparr>, cur_len := l\<rparr> in
        if l = 0 then Inr (True, s') else level3_loop prot t is s'))))"

fun upper_loop ::
  "reader \<Rightarrow> memslots \<Rightarrow> usize \<Rightarrow> u8 \<Rightarrow> (nat \<Rightarrow> nat \<Rightarrow> map_state \<Rightarrow> (bool \<times> map_state) res)
    \<Rightarrow> nat \<Rightarrow> nat \<Rightarrow> nat list \<Rightarrow> map_state \<Rightarrow> (bool \<times> map_state) res" where
  "upper_loop rd m virt level next_loop t start [] s = Inr (False, s)"
| "upper_loop rd m virt level next_loop t start (i # is) s =
     bind_res (get_start_idx virt i level) (\<lambda>start'.
     bind_res (get_page_table rd m t (start + i) s) (\<lambda>(t', s1).
     bind_res (borrow_mut t' s1) (\<lambda>s2.
     bind_res (next_loop t' start' s2) (\<lambda>(brk, s3).
     let s4 = release t' s3 in
     if brk then Inr (True, s4)
     else upper_loop rd m virt level next_loop t start is s4))))"

definition level3 :: "prot_flags \<Rightarrow> nat \<Rightarrow> nat \<Rightarrow> map_state \<Rightarrow> (bool \<times> map_state) res" where
  "level3 prot t start = level3_loop prot t [start..<512]"

definition level2 ::
  "reader \<Rightarrow> memslots \<Rightarrow> usize \<Rightarrow> prot_flags \<Rightarrow> nat \<Rightarrow> nat \<Rightarrow> map_state \<Rightarrow> (bool \<times> map_state) res" where
  "level2 rd m virt prot t start = upper_loop rd m virt 3 (level3 prot) t start [0..<512 - start]"

definition level1 ::
  "reader \<Rightarrow> memslots \<Rightarrow> usize \<Rightarrow> prot_flags \<Rightarrow> nat \<Rightarrow> nat \<Rightarrow> map_state \<Rightarrow> (bool \<times> map_state) res" where
  "level1 rd m virt prot t start =
     upper_loop rd m virt 2 (level2 rd m virt prot) t start [0..<512 - start]"

text \<open>\<open>pml4\<close> is the reference of the top table, which the caller has borrowed.\<close>

definition map_memory_single ::
  "reader \<Rightarrow> memslots \<Rightarrow> nat \<Rightarrow> mapped_memory \<Rightarrow> map_state \<Rightarrow> map_state res" where
  "map_memory_single rd m pml4 mm s =
     (let virt = mm_virt_start mm;
          s0 = s\<lparr>cur_phys := mm_phys_start mm, cur_len := mm_len mm\<rparr> in
      bind_res (get_index virt 0) (\<lambda>start0.
      bind_res (upper_loop rd m virt 1 (level1 rd m virt (mm_prot mm)) pml4 (unat start0)
                  [0..<512 - unat start0] s0)
        (\<lambda>(brk, s1). Inr s1)))"

fun map_memory_loop ::
  "reader \<Rightarrow> memslots \<Rightarrow> nat \<Rightarrow> mapped_memory list \<Rightarrow> map_state \<Rightarrow> map_state res" where
  "map_memory_loop rd m pml4 [] s = Inr s"
| "map_memory_loop rd m pml4 (mm # mms) s =
     bind_res (borrow_mut pml4 s) (\<lambda>s1.
     bind_res (map_memory_single rd m pml4 mm s1) (\<lambda>s2.
     map_memory_loop rd m pml4 mms (release pml4 s2)))"

text \<open>The checks of the first loop of \<^verbatim>\<open>map_memory\<close>: \<open>prev\<close> is the mapping before.\<close>

fun check_mappings :: "mapped_memory option \<Rightarrow> mapped_memory list \<Rightarrow> unit res" where
  "check_mappings prev [] = Inr ()"
| "check_mappings prev (mm # mms) =
     (if \<not> (is_page_aligned (mm_len mm) \<and> is_page_aligned (mm_virt_start mm) \<and>
            pa_is_page_aligned (mm_phys_start mm))
      then bail ''is not page aligned''
      else bind_res
        (case prev of
           None \<Rightarrow> Inr ()
         | Some p \<Rightarrow> bind_res (pa_add (mm_phys_start p) (mm_len p)) (\<lambda>e.
             if e \<noteq> mm_phys_start mm then bail ''is not after'' else Inr ()))
        (\<lambda>_. check_mappings (Some mm) mms))"

section \<open>Committing\<close>

text \<open>
  \<open>wr iov mem\<close>: \<^verbatim>\<open>process_vm_writev\<close> with the pairs of remote base address and the entries of a
  table; the memory of the process after the call, and the number of bytes written or an error.
\<close>

type_synonym 'm writer = "(usize \<times> page_table_entry list) list \<Rightarrow> 'm \<Rightarrow> 'm \<times> usize res"

definition commit_page_tables :: "'m writer \<Rightarrow> page_table list \<Rightarrow> 'm \<Rightarrow> 'm \<times> unit res" where
  "commit_page_tables wr tables mem =
     (case map_res (\<lambda>t. bind_res (host_addr (pt_phys_addr t)) (\<lambda>h. Inr (h, pt_entries t))) tables of
        Inl e \<Rightarrow> (mem, Inl e)
      | Inr iov \<Rightarrow>
          (let (mem', r) = wr iov mem in
           (mem',
            bind_res (try_with r ''cannot write to process'') (\<lambda>written.
            bind_res (chk_mul (of_nat (length iov)) PAGE_SIZE) (\<lambda>expected.
            if written \<noteq> expected then bail ''short write'' else Inr ())))))"

record virt_mem =
  vm_old_tables :: "page_table list"
  vm_mappings :: "mapped_memory list"

definition init_state :: map_state where
  "init_state = \<lparr>heap = [], borrowed = [], upsert_tables = [], old_tables = [],
     pt_addr = \<lparr>pa_value = 0, pa_host_offset = 0\<rparr>,
     cur_phys = \<lparr>pa_value = 0, pa_host_offset = 0\<rparr>, cur_len = 0\<rparr>"

text \<open>\<^verbatim>\<open>map_memory\<close> up to the commit: the state with the tables to be written.\<close>

definition map_memory_tables ::
  "reader \<Rightarrow> memslots \<Rightarrow> usize \<Rightarrow> mapped_memory list \<Rightarrow> map_state res" where
  "map_memory_tables rd m pml4_addr mappings =
     bind_res (try_with (read_page_table rd m pml4_addr init_state) ''cannot read pml4 page table'')
       (\<lambda>(pml4, s).
     bind_res (check_mappings None mappings) (\<lambda>_.
     bind_res (if mappings = [] then panic ''attempt to subtract with overflow''
               else Inr (last mappings)) (\<lambda>last_mapping.
     bind_res (pa_add (mm_phys_start last_mapping) (mm_len last_mapping)) (\<lambda>pa.
     map_memory_loop rd m pml4 mappings (s\<lparr>pt_addr := pa\<rparr>)))))"

definition map_memory ::
  "('m \<Rightarrow> reader) \<Rightarrow> 'm writer \<Rightarrow> (page_table list \<Rightarrow> page_table list) \<Rightarrow> memslots \<Rightarrow> usize
    \<Rightarrow> mapped_memory list \<Rightarrow> 'm \<Rightarrow> 'm \<times> virt_mem res" where
  "map_memory rd wr ord m pml4_addr mappings mem =
     (case map_memory_tables (rd mem) m pml4_addr mappings of
        Inl e \<Rightarrow> (mem, Inl e)
      | Inr s \<Rightarrow>
          (let (mem', r) = commit_page_tables wr
                 (ord (map (\<lambda>(k, t). heap s ! t) (upsert_tables s))) mem in
           (mem', bind_res (try_with r ''cannot write page tables'') (\<lambda>_.
              Inr \<lparr>vm_old_tables = old_tables s, vm_mappings = mappings\<rparr>))))"

text \<open>\<^verbatim>\<open>Drop\<close> of \<^verbatim>\<open>VirtMem\<close>: an error is only logged.\<close>

definition virt_mem_drop :: "'m writer \<Rightarrow> virt_mem \<Rightarrow> 'm \<Rightarrow> 'm" where
  "virt_mem_drop wr v mem = fst (commit_page_tables wr (vm_old_tables v) mem)"

end
