(* ===== verification/Proc_Maps.thy ===== *)
theory Proc_Maps
  imports Page_Table Str "HOL-Library.Multiset"
begin

text \<open>
  \<^verbatim>\<open>src/tracer/proc.rs\<close> and \<^verbatim>\<open>src/kvm/memslots.rs\<close>: the memory mappings of the hypervisor as
  \<^verbatim>\<open>/proc/<pid>/maps\<close> lists them, and the memslots of the virtual machine, which an eBPF program reads
  from the kernel. The content of the files and what the kernel hands to the program are
  arguments.
\<close>

section \<open>Mappings\<close>

datatype map_flags = MAP_PRIVATE | MAP_SHARED

record mapping =
  mp_start :: usize
  mp_end :: usize
  mp_prot_flags :: prot_flags
  mp_map_flags :: map_flags
  mp_offset :: u64
  mp_major_dev :: u64
  mp_minor_dev :: u64
  mp_inode :: u64
  mp_pathname :: string
  mp_phys_addr :: usize

definition mp_size :: "mapping \<Rightarrow> usize res" where
  "mp_size m = chk_sub (mp_end m) (mp_start m)"

definition phys_end :: "mapping \<Rightarrow> usize res" where
  "phys_end m = bind_res (mp_size m) (\<lambda>s. chk_add (mp_phys_addr m) s)"

definition phys_to_host_offset :: "mapping \<Rightarrow> isize res" where
  "phys_to_host_offset m = compute_host_offset (mp_start m) (mp_phys_addr m)"

definition find_mapping :: "mapping list \<Rightarrow> usize \<Rightarrow> mapping option" where
  "find_mapping mappings ip = find (\<lambda>m. mp_start m \<le> ip \<and> ip < mp_end m) mappings"

section \<open>Parsing a line\<close>

definition parse_flags :: "string \<Rightarrow> (prot_flags \<times> map_flags) res" where
  "parse_flags f =
     bind_res (assert_res (length f = 4) ''fields.len() == 4'') (\<lambda>_.
     Inr ((if f ! 0 = CHR ''r'' then PROT_READ else 0) OR
          (if f ! 1 = CHR ''w'' then PROT_WRITE else 0) OR
          (if f ! 2 = CHR ''x'' then PROT_EXEC else 0),
          if f ! 3 = CHR ''p'' then MAP_PRIVATE else MAP_SHARED))"

text \<open>
  The message for a bad offset is formatted with \<^verbatim>\<open>range[2]\<close>, and \<^verbatim>\<open>range\<close> has at most two elements.
\<close>

definition parse_line :: "string \<Rightarrow> mapping res" where
  "parse_line line =
     (let fields = splitn 6 CHR '' '' line in
      bind_res (index_res fields 0) (\<lambda>f0.
      let range = splitn 2 CHR ''-'' f0 in
      bind_res (index_res range 0) (\<lambda>r0.
      bind_res (require_with (parse_u64 16 r0) ''start address is not a number'') (\<lambda>start.
      bind_res (index_res range 1) (\<lambda>r1.
      bind_res (require_with (parse_u64 16 r1) ''end address is not a number'') (\<lambda>end'.
      bind_res (index_res fields 1) (\<lambda>f1.
      bind_res (parse_flags f1) (\<lambda>(prot, flags).
      bind_res (index_res fields 2) (\<lambda>f2.
      bind_res (case parse_u64 16 f2 of
          Some v \<Rightarrow> Inr v
        | None \<Rightarrow> bind_res (index_res range 2) (\<lambda>_. bail ''offset is not a number'')) (\<lambda>offset.
      bind_res (index_res fields 3) (\<lambda>f3.
      let dev = splitn 2 CHR '':'' f3 in
      bind_res (index_res dev 0) (\<lambda>d0.
      bind_res (require_with (parse_u64 16 d0) ''major dev is not a number'') (\<lambda>major.
      bind_res (index_res dev 1) (\<lambda>d1.
      bind_res (require_with (parse_u64 16 d1) ''minor dev is not a number'') (\<lambda>minor.
      bind_res (index_res fields 4) (\<lambda>f4.
      bind_res (require_with (parse_u64 10 f4) ''inode is not a number'') (\<lambda>inode.
      bind_res (index_res fields 5) (\<lambda>f5.
      let stripped = trim_start f5;
          pathname = (case strip_suffix ''\<newline>'' stripped of Some p \<Rightarrow> p | None \<Rightarrow> stripped) in
      Inr \<lparr>mp_start = start, mp_end = end', mp_prot_flags = prot, mp_map_flags = flags,
           mp_offset = offset, mp_major_dev = major, mp_minor_dev = minor, mp_inode = inode,
           mp_pathname = pathname, mp_phys_addr = 0\<rparr>))))))))))))))))))"

definition pid_maps :: "string list res \<Rightarrow> mapping list res" where
  "pid_maps lines =
     bind_res (try_with lines ''cannot open or read maps'') (\<lambda>ls.
     map_res (\<lambda>l. try_with (parse_line l) ''cannot parse line'') ls)"

section \<open>File descriptors\<close>

text \<open>
  A directory entry of \<^verbatim>\<open>/proc/<pid>/fd\<close>: its name, and the target of the link unless it is gone.
  \<^verbatim>\<open>parse::<c_int>\<close> is an argument.
\<close>

fun pid_fds :: "(string \<Rightarrow> 'fd option) \<Rightarrow> (string \<times> string option) res list \<Rightarrow> ('fd \<times> string) list res" where
  "pid_fds parse [] = Inr []"
| "pid_fds parse (Inl e # es) = try_with (Inl e) ''failed to read directory''"
| "pid_fds parse (Inr (name, None) # es) = pid_fds parse es"
| "pid_fds parse (Inr (name, Some target) # es) =
     bind_res (require_with (parse name) ''not a valid number'') (\<lambda>fd.
     bind_res (pid_fds parse es) (\<lambda>fds. Inr ((fd, target) # fds)))"

section \<open>Memslots\<close>

record mem_slot =
  ms_base_gfn :: u64
  ms_npages :: u64
  ms_userspace_addr :: u64

definition ms_start :: "mem_slot \<Rightarrow> usize" where
  "ms_start s = ms_userspace_addr s"

definition ms_size :: "mem_slot \<Rightarrow> usize res" where
  "ms_size s = chk_mul (ms_npages s) PAGE_SIZE"

definition ms_end :: "mem_slot \<Rightarrow> usize res" where
  "ms_end s = bind_res (ms_size s) (\<lambda>z. chk_add (ms_start s) z)"

definition physical_start :: "mem_slot \<Rightarrow> usize res" where
  "physical_start s = chk_mul (ms_base_gfn s) PAGE_SIZE"

text \<open>
  The eBPF program for kernels from 5.16 on: a breadth-first walk of the red-black tree of
  memslots. The queue is an array map of 128 elements, to which updates beyond the end are
  dropped and in which lookups beyond the end fail; \<^verbatim>\<open>tail\<close> counts all the insertions.
\<close>

datatype rb_node = Leaf | Node rb_node mem_slot rb_node

definition MAX_SLOTS :: nat where "MAX_SLOTS = 1024"
definition QUEUE_LEN :: nat where "QUEUE_LEN = 128"

definition queue_update :: "rb_node \<Rightarrow> rb_node list \<Rightarrow> rb_node list" where
  "queue_update n q = (if length q < QUEUE_LEN then q @ [n] else q)"

definition enqueue :: "rb_node \<Rightarrow> rb_node list \<times> nat \<Rightarrow> rb_node list \<times> nat" where
  "enqueue child qt = (if child = Leaf then qt else (queue_update child (fst qt), snd qt + 1))"

function bpf_walk :: "nat \<Rightarrow> rb_node list \<Rightarrow> nat \<Rightarrow> mem_slot list \<Rightarrow> mem_slot list" where
  "bpf_walk head q tail out =
     (if head < MAX_SLOTS \<and> head < tail \<and> head < length q \<and> length out < MAX_SLOTS then
        (case q ! head of
           Leaf \<Rightarrow> out
         | Node l slot r \<Rightarrow>
             (let (q', tail') = enqueue r (enqueue l (q, tail)) in
              bpf_walk (head + 1) q' tail' (out @ [slot])))
      else out)"
  by auto
termination by (relation "measure (\<lambda>(head, q, tail, out). MAX_SLOTS - head)") auto

declare bpf_walk.simps [simp del]

definition bpf_memslots :: "rb_node \<Rightarrow> mem_slot list" where
  "bpf_memslots root = bpf_walk 0 [root] 1 []"

text \<open>The slots become mappings: the mapping of the process that holds the start of the slot.\<close>

definition slot_mapping :: "mapping list \<Rightarrow> mem_slot \<Rightarrow> mapping res" where
  "slot_mapping mappings slot =
     (case find_mapping mappings (ms_start slot) of
        Some m \<Rightarrow>
          bind_res (ms_end slot) (\<lambda>e.
          bind_res (physical_start slot) (\<lambda>p.
          Inr (m\<lparr>mp_start := ms_start slot, mp_end := e, mp_phys_addr := p\<rparr>)))
      | None \<Rightarrow> bail ''No mapping of memslot found in hypervisor'')"

definition get_maps :: "mem_slot list res \<Rightarrow> mapping list res \<Rightarrow> mapping list res" where
  "get_maps slots maps =
     bind_res (try_with slots ''could not receive memslots from kernel'') (\<lambda>ss.
     bind_res maps (\<lambda>mappings. map_res (slot_mapping mappings) ss))"

definition VCPUFD_INODE_NAME_STARTS_WITH :: string where
  "VCPUFD_INODE_NAME_STARTS_WITH = ''anon_inode:kvm-vcpu:''"

definition get_vcpu_maps :: "mapping list res \<Rightarrow> mapping list res" where
  "get_vcpu_maps maps =
     bind_res maps (\<lambda>mappings.
     bind_res (map_res (\<lambda>m.
         bind_res (require_with (strip_prefix VCPUFD_INODE_NAME_STARTS_WITH (mp_pathname m))
           ''vcpufd does not start with expected prefix'') (\<lambda>astr.
         bind_res (require_with (parse_u64 10 astr) ''vcpufd has unexpected postfix'') (\<lambda>ai. Inr (ai, m))))
       (filter (\<lambda>m. strip_prefix VCPUFD_INODE_NAME_STARTS_WITH (mp_pathname m) \<noteq> None) mappings))
       (\<lambda>tagged. Inr (map snd (sort_key fst tagged))))"

section \<open>The format of a line\<close>

text \<open>A line as proc(5) describes it; \<open>z\<close> zeros pad the offset and \<open>w\<close> spaces the path name.\<close>

definition perms :: "prot_flags \<Rightarrow> map_flags \<Rightarrow> string" where
  "perms p f =
     [if prot_contains p PROT_READ then CHR ''r'' else CHR ''-'',
      if prot_contains p PROT_WRITE then CHR ''w'' else CHR ''-'',
      if prot_contains p PROT_EXEC then CHR ''x'' else CHR ''-'',
      if f = MAP_PRIVATE then CHR ''p'' else CHR ''s'']"

abbreviation hex :: "nat \<Rightarrow> u64 \<Rightarrow> string" where
  "hex z v \<equiv> replicate z CHR ''0'' @ to_radix 16 (unat v)"

definition format_line :: "nat \<Rightarrow> nat \<Rightarrow> mapping \<Rightarrow> string" where
  "format_line z w m =
     (hex 0 (mp_start m) @ CHR ''-'' # hex 0 (mp_end m)) @ CHR '' '' #
     perms (mp_prot_flags m) (mp_map_flags m) @ CHR '' '' # hex z (mp_offset m) @ CHR '' '' #
     (hex 1 (mp_major_dev m) @ CHR '':'' # hex 1 (mp_minor_dev m)) @ CHR '' '' #
     (replicate 0 CHR ''0'' @ to_radix 10 (unat (mp_inode m))) @ CHR '' '' #
     replicate w CHR '' '' @ mp_pathname m"

lemma parse_flags_perms:
  assumes "p AND 7 = p"
  shows "parse_flags (perms p f) = Inr (p, f)"
proof -
  have "unat p = unat p mod 8"
    using unat_and_mask[of p 3] assms by (simp add: mask_eq_exp_minus_1)
  then have "unat p < 8" by (metis mod_less_divisor zero_less_numeral)
  then have "unat p \<in> {0, 1, 2, 3, 4, 5, 6, 7}" by auto
  then have "p \<in> {0, 1, 2, 3, 4, 5, 6, 7}" by (auto simp: word_unat_eq_iff)
  then show ?thesis
    by (cases f) (auto simp: parse_flags_def perms_def prot_contains_def PROT_READ_def PROT_WRITE_def
        PROT_EXEC_def assert_res_def)
qed

lemma trim_start_spaces:
  assumes "s = [] \<or> \<not> is_whitespace (hd s)"
  shows "trim_start (replicate w CHR '' '' @ s) = s"
proof -
  have "is_whitespace CHR '' ''" by (simp add: is_whitespace_def)
  then have "trim_start (replicate w CHR '' '' @ s) = trim_start s"
    by (induction w) (simp_all add: trim_start_def)
  also have "\<dots> = s" using assms by (cases s) (auto simp: trim_start_def)
  finally show ?thesis .
qed

lemma perms_no_space: "CHR '' '' \<notin> set (perms p f)"
  by (simp add: perms_def)

lemma splitn_line:
  assumes "CHR '' '' \<notin> set a" "CHR '' '' \<notin> set b" "CHR '' '' \<notin> set c" "CHR '' '' \<notin> set d" "CHR '' '' \<notin> set e"
  shows "splitn 6 CHR '' '' (a @ CHR '' '' # b @ CHR '' '' # c @ CHR '' '' # d @ CHR '' '' # e @ CHR '' '' # f)
    = [a, b, c, d, e, f]"
proof -
  have "(6::nat) = Suc (Suc (Suc (Suc (Suc (Suc 0)))))" by simp
  then show ?thesis using assms by (simp only: splitn_append splitn.simps(1,2) not_False_eq_True)
qed

lemma splitn_two: "c \<notin> set a \<Longrightarrow> splitn 2 c (a @ c # b) = [a, b]"
  by (simp add: numeral_2_eq_2 del: splitn.simps(3))

text \<open>
  What the kernel writes for a mapping is what is read: \<^verbatim>\<open>parse_line\<close> recovers every field from a
  line in the format of proc(5), whatever the padding of the numbers and of the path name.
\<close>

theorem parse_format_line:
  assumes "mp_prot_flags m AND 7 = mp_prot_flags m" "mp_phys_addr m = 0"
    and "mp_pathname m = [] \<or> \<not> is_whitespace (hd (mp_pathname m))"
    and "\<forall>p. mp_pathname m \<noteq> p @ ''\<newline>''"
  shows "parse_line (format_line z w m) = Inr m"
proof -
  define a b c d e i where "a = hex 0 (mp_start m)" and "b = hex 0 (mp_end m)"
    and "c = hex z (mp_offset m)" and "d = hex 1 (mp_major_dev m)" and "e = hex 1 (mp_minor_dev m)"
    and "i = replicate 0 CHR ''0'' @ to_radix 10 (unat (mp_inode m))"
  note defs = this
  have ns: "CHR '' '' \<notin> set (replicate k CHR ''0'' @ to_radix 16 n)"
     "CHR ''-'' \<notin> set (replicate k CHR ''0'' @ to_radix 16 n)"
     "CHR '':'' \<notin> set (replicate k CHR ''0'' @ to_radix 16 n)"
     "CHR '' '' \<notin> set (replicate k CHR ''0'' @ to_radix 10 n)" for k n
    using to_radix_no_sep[of 16 k n] to_radix_no_sep[of 10 k n] by simp_all
  have line: "format_line z w m = (a @ CHR ''-'' # b) @ CHR '' '' #
      perms (mp_prot_flags m) (mp_map_flags m) @ CHR '' '' # c @ CHR '' '' # (d @ CHR '':'' # e) @ CHR '' '' #
      i @ CHR '' '' # replicate w CHR '' '' @ mp_pathname m"
    by (simp only: format_line_def defs)
  have fields: "splitn 6 CHR '' '' (format_line z w m) =
      [a @ CHR ''-'' # b, perms (mp_prot_flags m) (mp_map_flags m), c, d @ CHR '':'' # e, i,
       replicate w CHR '' '' @ mp_pathname m]"
    unfolding line by (rule splitn_line) (use ns perms_no_space in \<open>auto simp: defs\<close>)
  have two: "splitn 2 CHR ''-'' (a @ CHR ''-'' # b) = [a, b]"
    "splitn 2 CHR '':'' (d @ CHR '':'' # e) = [d, e]"
    unfolding defs by (rule splitn_two, rule ns)+
  have num: "parse_u64 16 a = Some (mp_start m)" "parse_u64 16 b = Some (mp_end m)"
    "parse_u64 16 c = Some (mp_offset m)" "parse_u64 16 d = Some (mp_major_dev m)"
    "parse_u64 16 e = Some (mp_minor_dev m)" "parse_u64 10 i = Some (mp_inode m)"
    unfolding defs by (rule parse_u64_to_radix; simp)+
  have suf: "strip_suffix ''\<newline>'' (mp_pathname m) = None"
    using assms(4) strip_suffix_Some[of "''\<newline>''" "mp_pathname m"]
    by (cases "strip_suffix ''\<newline>'' (mp_pathname m)") auto
  show ?thesis
    unfolding parse_line_def fields Let_def
    by (simp add: index_res_def two num parse_flags_perms[OF assms(1)] trim_start_spaces[OF assms(3)] suf
        assms(2))
qed

theorem parse_format_line_witness:
  "parse_line ''1f-2a rw-p 00ac 08:01 17 /bin/x'' = Inr
     \<lparr>mp_start = 0x1f, mp_end = 0x2a, mp_prot_flags = 3, mp_map_flags = MAP_PRIVATE,
      mp_offset = 0xac, mp_major_dev = 8, mp_minor_dev = 1, mp_inode = 17,
      mp_pathname = ''/bin/x'', mp_phys_addr = 0\<rparr>"
  (is "_ = Inr ?m")
proof -
  have "format_line 2 0 ?m = ''1f-2a rw-p 00ac 08:01 17 /bin/x''"
    by code_simp
  moreover have "parse_line (format_line 2 0 ?m) = Inr ?m"
    by (rule parse_format_line) (simp_all add: is_whitespace_def)
  ultimately show ?thesis by simp
qed

section \<open>The walk over the memslots\<close>

fun slots_of :: "rb_node \<Rightarrow> mem_slot multiset" where
  "slots_of Leaf = {#}"
| "slots_of (Node l s r) = add_mset s (slots_of l + slots_of r)"

definition queue_slots :: "rb_node list \<Rightarrow> mem_slot multiset" where
  "queue_slots q = sum_list (map slots_of q)"

lemma queue_slots_simps [simp]:
  "queue_slots [] = {#}" "queue_slots (n # q) = slots_of n + queue_slots q"
  "queue_slots (q @ q') = queue_slots q + queue_slots q'"
  by (simp_all add: queue_slots_def)

lemma size_slots_of: "n \<noteq> Leaf \<Longrightarrow> 0 < size (slots_of n)"
  by (cases n) auto

lemma length_le_queue_slots: "Leaf \<notin> set q \<Longrightarrow> length q \<le> size (queue_slots q)"
proof (induction q)
  case (Cons n q)
  then show ?case using size_slots_of[of n] by auto
qed simp

lemma enqueue_ok:
  assumes "length q + length (filter (\<lambda>n. n \<noteq> Leaf) [l, r]) \<le> QUEUE_LEN"
  shows "enqueue r (enqueue l (q, length q)) =
    (q @ filter (\<lambda>n. n \<noteq> Leaf) [l, r], length (q @ filter (\<lambda>n. n \<noteq> Leaf) [l, r]))"
  using assms by (cases "l = Leaf"; cases "r = Leaf") (auto simp: enqueue_def queue_update_def)

lemma bpf_walk_all:
  assumes "head + size (queue_slots (drop head q)) \<le> QUEUE_LEN" "head \<le> length q"
    "Leaf \<notin> set q" "length out = head"
  shows "mset (bpf_walk head q (length q) out) = mset out + queue_slots (drop head q)"
  using assms
proof (induction "size (queue_slots (drop head q))" arbitrary: head q out rule: less_induct)
  case less
  show ?case
  proof (cases "head < length q")
    case False
    with less.prems(2) show ?thesis by (simp add: bpf_walk.simps)
  next
    case True
    then have dr: "drop head q = q ! head # drop (Suc head) q" by (simp add: Cons_nth_drop_Suc)
    obtain l s r where nd: "q ! head = Node l s r"
      using less.prems(3) True nth_mem[OF True] by (cases "q ! head") auto
    let ?cs = "filter (\<lambda>n. n \<noteq> Leaf) [l, r]"
    have cs: "queue_slots ?cs = slots_of l + slots_of r" by (cases l; cases r) auto
    have sz: "size (queue_slots (drop (Suc head) (q @ ?cs))) + 1 = size (queue_slots (drop head q))"
      using True by (simp add: dr nd cs)
    have nl: "Leaf \<notin> set (q @ ?cs)" using less.prems(3) by auto
    have "length (drop (Suc head) (q @ ?cs)) \<le> size (queue_slots (drop (Suc head) (q @ ?cs)))"
      using nl by (intro length_le_queue_slots) (meson in_set_dropD)
    then have fit: "length q + length ?cs \<le> QUEUE_LEN"
      using sz less.prems(1) True by simp
    have "head < MAX_SLOTS" "length out < MAX_SLOTS"
      using less.prems True fit by (simp_all add: MAX_SLOTS_def QUEUE_LEN_def)
    then have "bpf_walk head q (length q) out = bpf_walk (Suc head) (q @ ?cs) (length (q @ ?cs)) (out @ [s])"
      using True nd enqueue_ok[OF fit] by (subst bpf_walk.simps) simp
    also have "mset \<dots> = mset (out @ [s]) + queue_slots (drop (Suc head) (q @ ?cs))"
      by (rule less.hyps) (use sz less.prems nl True in auto)
    finally show ?thesis using True by (simp add: dr nd cs)
  qed
qed


definition ex_tree :: rb_node where
  "ex_tree = Node (Node Leaf \<lparr>ms_base_gfn = 0, ms_npages = 1, ms_userspace_addr = 0x1000\<rparr> Leaf)
     \<lparr>ms_base_gfn = 1, ms_npages = 1, ms_userspace_addr = 0x9000\<rparr> Leaf"


end
