(* ===== verification/Tracer_Inject.thy ===== *)
theory Tracer_Inject
  imports Sim_Os Proc_Maps
begin

text \<open>
  \<^verbatim>\<open>src/tracer/inject_syscall.rs\<close> and \<^verbatim>\<open>src/tracer/mod.rs\<close>: running system calls in another process.
  The instruction under the instruction pointer of its main thread is replaced by \<^verbatim>\<open>syscall\<close>, the
  registers are set to the call, and registers and instruction are put back at the end. \<open>me\<close> is the
  thread the code runs in.
\<close>

type_synonym thread_id = nat

record vcpu =
  vc_idx :: usize
  vc_fd_num :: raw_fd
  vc_map :: "mapping option"

record tracer =
  tr_process_idx :: nat
  tr_owner :: "thread_id option"
  tr_threads :: "pt_thread list"
  tr_vcpus :: "vcpu list"

definition tr_main_thread :: "tracer \<Rightarrow> pt_thread res" where
  "tr_main_thread t = index_res (tr_threads t) (tr_process_idx t)"

record process =
  pr_process_idx :: nat
  pr_saved_regs :: regs
  pr_saved_text :: u64
  pr_threads :: "pt_thread list option"
  pr_owner :: "thread_id option"

definition inj_init :: "'w os \<Rightarrow> pt_thread list \<Rightarrow> nat \<Rightarrow> ('w, regs \<times> u64) io" where
  "inj_init os threads process_idx =
     bind_io (lift_res (index_res threads process_idx)) (\<lambda>t.
     bind_io (try_io (th_getregs os t) ''cannot get registers for main process'') (\<lambda>saved_regs.
     let ip = reg_ip saved_regs in
     bind_io (try_io (th_read os t ip) ''cannot get text for main process'') (\<lambda>saved_text.
     bind_io (try_io (th_write os t ip SYSCALL_TEXT) ''cannot patch syscall instruction'') (\<lambda>_.
     ret (saved_regs, saved_text)))))"

definition deinit :: "'w os \<Rightarrow> process \<Rightarrow> ('w, pt_thread list option \<times> process) io" where
  "deinit os p =
     (case pr_threads p of
        Some threads \<Rightarrow>
          bind_io (lift_res (index_res threads (pr_process_idx p))) (\<lambda>main_thread.
          bind_io (ignore_io (th_write os main_thread (reg_ip (pr_saved_regs p)) (pr_saved_text p))) (\<lambda>_.
          bind_io (ignore_io (th_setregs os main_thread (pr_saved_regs p))) (\<lambda>_.
          ret (Some threads, p\<lparr>pr_threads := None\<rparr>))))
      | None \<Rightarrow> ret (None, p))"

definition expect_threads :: "pt_thread list option \<Rightarrow> pt_thread list res" where
  "expect_threads ts = (case ts of Some x \<Rightarrow> Inr x | None \<Rightarrow> panic ''Process was deinited before it was dropped!'')"

definition proc_drop :: "'w os \<Rightarrow> process \<Rightarrow> ('w, unit) io" where
  "proc_drop os p =
     bind_io (deinit os p) (\<lambda>(threads, _).
     case threads of Some ts \<Rightarrow> drop_threads os ts | None \<Rightarrow> ret ())"

definition from_tracer :: "'w os \<Rightarrow> tracer \<Rightarrow> ('w, process) io" where
  "from_tracer os t =
     bind_io (on_err (inj_init os (tr_threads t) (tr_process_idx t)) (drop_threads os (tr_threads t)))
       (\<lambda>(saved_regs, saved_text).
     ret \<lparr>pr_process_idx = tr_process_idx t, pr_saved_regs = saved_regs, pr_saved_text = saved_text,
          pr_threads = Some (tr_threads t), pr_owner = tr_owner t\<rparr>)"

definition into_tracer :: "'w os \<Rightarrow> process \<Rightarrow> vcpu list \<Rightarrow> ('w, tracer) io" where
  "into_tracer os p vcpus =
     bind_io (deinit os p) (\<lambda>(threads, p').
     bind_io (lift_res (expect_threads threads)) (\<lambda>ts.
     ret \<lparr>tr_process_idx = pr_process_idx p, tr_owner = pr_owner p', tr_threads = ts, tr_vcpus = vcpus\<rparr>))"

definition inj_attach :: "'w os \<Rightarrow> thread_id \<Rightarrow> pid \<Rightarrow> ('w, process) io" where
  "inj_attach os me pid =
     bind_io (attach_all_threads os pid) (\<lambda>(threads, process_idx).
     bind_io (on_err (inj_init os threads process_idx) (drop_threads os threads)) (\<lambda>(saved_regs, saved_text).
     ret \<lparr>pr_process_idx = process_idx, pr_saved_regs = saved_regs, pr_saved_text = saved_text,
          pr_threads = Some threads, pr_owner = Some me\<rparr>))"

section \<open>Ownership\<close>

definition pr_main_thread :: "process \<Rightarrow> pt_thread res" where
  "pr_main_thread p =
     (case pr_threads p of
        None \<Rightarrow> panic ''No threads associated''
      | Some threads \<Rightarrow> index_res threads (pr_process_idx p))"

definition pr_pid :: "process \<Rightarrow> pid res" where
  "pr_pid p =
     (case pr_threads p of
        None \<Rightarrow> panic ''no threads associated with process''
      | Some threads \<Rightarrow> bind_res (index_res threads (pr_process_idx p)) (\<lambda>t. Inr (tid t)))"

definition check_owner :: "thread_id option \<Rightarrow> thread_id \<Rightarrow> unit res" where
  "check_owner owner me =
     (case owner of
        Some tracer \<Rightarrow> if me \<noteq> tracer then bail ''thread was attached from another thread'' else Inr ()
      | None \<Rightarrow> bail ''thread is not attached. Call `adopt()` first'')"

text \<open>\<^verbatim>\<open>retain\<close> drops, and so detaches, each thread that cannot be seized.\<close>

fun retain_seized :: "'w os \<Rightarrow> pt_thread list \<Rightarrow> ('w, pt_thread list) io" where
  "retain_seized os [] = ret []"
| "retain_seized os (t # ts) =
     bind_io (attempt (attach_seize os (tid t))) (\<lambda>r.
     if is_ok r then bind_io (retain_seized os ts) (\<lambda>ts'. ret (t # ts'))
     else bind_io (thread_drop os t) (\<lambda>_. retain_seized os ts))"

definition adopt :: "'w os \<Rightarrow> thread_id \<Rightarrow> ('w \<times> process, unit) io" where
  "adopt os me =
     bind_io get_st (\<lambda>(_, p).
     if pr_owner p \<noteq> None
     then lift_res (bail ''thread cannot be adopted by current thread. Call `disown()` in the previous thread first'')
     else
       bind_io
         (case pr_threads p of
            None \<Rightarrow> ret ()
          | Some threads0 \<Rightarrow>
              bind_io (upd_snd (\<lambda>p. p\<lparr>pr_threads := None\<rparr>)) (\<lambda>_.
              bind_io (on_fst (retain_seized os threads0)) (\<lambda>threads.
              bind_io (on_err (on_fst (inj_init os threads (pr_process_idx p))) (on_fst (drop_threads os threads)))
                (\<lambda>(saved_regs, saved_text).
              upd_snd (\<lambda>p. p\<lparr>pr_saved_regs := saved_regs, pr_saved_text := saved_text,
                               pr_threads := Some threads\<rparr>)))))
         (\<lambda>_. upd_snd (\<lambda>p. p\<lparr>pr_owner := Some me\<rparr>)))"

definition disown :: "'w os \<Rightarrow> ('w \<times> process, unit) io" where
  "disown os =
     bind_io get_st (\<lambda>(_, p).
     if pr_owner p = None then lift_res (bail ''thread is already disowned'')
     else
       bind_io (on_fst (deinit os p)) (\<lambda>(taken, p').
       bind_io (upd_snd (\<lambda>_. p')) (\<lambda>_.
       bind_io (lift_res (expect_threads taken)) (\<lambda>threads.
       bind_io (on_err (on_fst (for_io threads (th_detach os))) (on_fst (drop_threads os threads))) (\<lambda>_.
       upd_snd (\<lambda>p. p\<lparr>pr_threads := Some threads, pr_owner := None\<rparr>))))))"

section \<open>System calls\<close>

partial_function (option) wait_for_syscall :: "'w os \<Rightarrow> process \<Rightarrow> 'w \<Rightarrow> ('w \<times> unit res) option" where
  "wait_for_syscall os p w =
     bind_io (lift_res (pr_main_thread p)) (\<lambda>t.
     bind_io (try_io (th_syscall os t) ''ptrace_syscall() failed'') (\<lambda>_.
     bind_io (try_io (os_waitpid os (tid t) WAIT_NONE) ''waitpid failed'') (\<lambda>status w'.
     case status of
       PtraceSyscall _ \<Rightarrow> Some (w', Inr ())
     | Exited _ _ \<Rightarrow> Some (w', bail ''process exited'')
     | _ \<Rightarrow> wait_for_syscall os p w'))) w"

definition proc_syscall :: "'w os \<Rightarrow> thread_id \<Rightarrow> process \<Rightarrow> regs \<Rightarrow> ('w, isize) io" where
  "proc_syscall os me p regs =
     bind_io (lift_res (check_owner (pr_owner p) me)) (\<lambda>_.
     bind_io (lift_res (pr_main_thread p)) (\<lambda>t.
     bind_io (try_io (th_setregs os t regs) ''cannot set system call args'') (\<lambda>_.
     bind_io (try_io (wait_for_syscall os p) ''failed to trap before syscall'') (\<lambda>_.
     bind_io (try_io (wait_for_syscall os p) ''failed to trap after syscall'') (\<lambda>_.
     bind_io (try_io (th_getregs os t) ''cannot syscall results'') (\<lambda>result_regs.
     bind_io (lift_res (chk_sub (reg_ip result_regs) SYSCALL_SIZE)) (\<lambda>ip.
     bind_io (lift_res (assert_res (reg_ip (pr_saved_regs p) = ip) ''assertion failed'')) (\<lambda>_.
     ret (syscall_ret result_regs)))))))))"

text \<open>The macro \<^verbatim>\<open>syscall_args!\<close>: missing arguments are 0.\<close>

definition syscall_args :: "regs \<Rightarrow> u64 list \<Rightarrow> regs" where
  "syscall_args r xs = prepare_syscall r (xs @ replicate (7 - length xs) 0)"

definition proc_ioctl :: "'w os \<Rightarrow> thread_id \<Rightarrow> process \<Rightarrow> raw_fd \<Rightarrow> u64 \<Rightarrow> u64 \<Rightarrow> ('w, 32 word) io" where
  "proc_ioctl os me p fd request arg =
     bind_io (proc_syscall os me p (syscall_args (pr_saved_regs p) [16, scast fd, request, arg])) (\<lambda>v.
     ret (ucast v))"

definition proc_getpid :: "'w os \<Rightarrow> thread_id \<Rightarrow> process \<Rightarrow> ('w, pid) io" where
  "proc_getpid os me p =
     bind_io (proc_syscall os me p (syscall_args (pr_saved_regs p) [39])) (\<lambda>v. ret (ucast v))"

definition proc_mmap ::
  "'w os \<Rightarrow> thread_id \<Rightarrow> process \<Rightarrow> u64 \<Rightarrow> usize \<Rightarrow> 32 word \<Rightarrow> 32 word \<Rightarrow> raw_fd \<Rightarrow> u64 \<Rightarrow> ('w, u64) io" where
  "proc_mmap os me p addr len prot flags fd offset =
     proc_syscall os me p (syscall_args (pr_saved_regs p)
       [9, addr, len, scast prot, scast flags, scast fd, offset])"

definition proc_munmap :: "'w os \<Rightarrow> thread_id \<Rightarrow> process \<Rightarrow> u64 \<Rightarrow> usize \<Rightarrow> ('w, unit) io" where
  "proc_munmap os me p addr len =
     bind_io (proc_syscall os me p (syscall_args (pr_saved_regs p) [11, addr, len])) (\<lambda>_. ret ())"

definition proc_socket ::
  "'w os \<Rightarrow> thread_id \<Rightarrow> process \<Rightarrow> 32 word \<Rightarrow> 32 word \<Rightarrow> 32 word \<Rightarrow> ('w, 32 word) io" where
  "proc_socket os me p domain ty protocol =
     bind_io (proc_syscall os me p (syscall_args (pr_saved_regs p) [41, scast domain, scast ty, scast protocol]))
       (\<lambda>v. ret (ucast v))"

definition proc_close :: "'w os \<Rightarrow> thread_id \<Rightarrow> process \<Rightarrow> raw_fd \<Rightarrow> ('w, 32 word) io" where
  "proc_close os me p fd =
     bind_io (proc_syscall os me p (syscall_args (pr_saved_regs p) [3, scast fd])) (\<lambda>v. ret (ucast v))"

definition proc_bind :: "'w os \<Rightarrow> thread_id \<Rightarrow> process \<Rightarrow> raw_fd \<Rightarrow> u64 \<Rightarrow> u32 \<Rightarrow> ('w, 32 word) io" where
  "proc_bind os me p socket address address_len =
     bind_io (proc_syscall os me p (syscall_args (pr_saved_regs p) [49, scast socket, address, ucast address_len]))
       (\<lambda>v. ret (ucast v))"

definition proc_connect :: "'w os \<Rightarrow> thread_id \<Rightarrow> process \<Rightarrow> raw_fd \<Rightarrow> u64 \<Rightarrow> u32 \<Rightarrow> ('w, 32 word) io" where
  "proc_connect os me p socket address len =
     bind_io (proc_syscall os me p (syscall_args (pr_saved_regs p) [42, scast socket, address, ucast len]))
       (\<lambda>v. ret (ucast v))"

definition proc_recvmsg :: "'w os \<Rightarrow> thread_id \<Rightarrow> process \<Rightarrow> raw_fd \<Rightarrow> u64 \<Rightarrow> 32 word \<Rightarrow> ('w, isize) io" where
  "proc_recvmsg os me p fd msg flags =
     proc_syscall os me p (syscall_args (pr_saved_regs p) [47, scast fd, msg, scast flags])"

definition proc_userfaultfd :: "'w os \<Rightarrow> thread_id \<Rightarrow> process \<Rightarrow> 32 word \<Rightarrow> ('w, 32 word) io" where
  "proc_userfaultfd os me p flags =
     bind_io (proc_syscall os me p (syscall_args (pr_saved_regs p) [323, scast flags])) (\<lambda>v. ret (ucast v))"

section \<open>Properties\<close>

text \<open>Requests that do not fail on the thread \<open>t\<close>, as for a stopped thread and mapped text.\<close>

definition ptrace_reliable :: "'w os \<Rightarrow> pid \<Rightarrow> bool" where
  "ptrace_reliable os t \<longleftrightarrow>
     (\<forall>w r. \<exists>w'. os_setregs os t r w = Some (w', Inr ())) \<and>
     (\<forall>w a v. \<exists>w'. os_write os t a v w = Some (w', Inr ()))"

lemma inj_init_effect:
  assumes "ptrace_ok os R M" "inj_init os threads idx w0 = Some (w1, Inr (regs, text))"
  shows "idx < length threads" and "regs = R w0 (tid (threads ! idx))"
    and "text = peek_word (M w0) (rip regs)" and "R w1 = R w0" and "M w1 = poke_word (M w0) (rip regs) SYSCALL_TEXT"
proof -
  let ?t = "threads ! idx"
  obtain wa wb where i: "idx < length threads" and g: "os_getregs os (tid ?t) w0 = Some (wa, Inr regs)"
    and r: "os_read os (tid ?t) (rip regs) wa = Some (wb, Inr text)"
    and p: "os_write os (tid ?t) (rip regs) SYSCALL_TEXT wb = Some (w1, Inr ())"
    using assms(2)
    by (auto simp: inj_init_def io_simps index_res_Inr th_getregs_def th_read_def th_write_def Let_def reg_ip_def)
  note laws = ptrace_okD(1)[OF assms(1) g] ptrace_okD(3)[OF assms(1) r] ptrace_okD(4)[OF assms(1) p]
  then show "idx < length threads" and "regs = R w0 (tid (threads ! idx))"
    and "text = peek_word (M w0) (rip regs)" and "R w1 = R w0" and "M w1 = poke_word (M w0) (rip regs) SYSCALL_TEXT"
    using i by auto
qed

lemma deinit_effect:
  assumes "ptrace_ok os R M" "ptrace_reliable os (tid (ts ! pr_process_idx p))"
    and "pr_threads p = Some ts" "pr_process_idx p < length ts"
  shows "\<exists>w'. deinit os p w = Some (w', Inr (Some ts, p\<lparr>pr_threads := None\<rparr>)) \<and>
    R w' = (R w)(tid (ts ! pr_process_idx p) := pr_saved_regs p) \<and>
    M w' = poke_word (M w) (rip (pr_saved_regs p)) (pr_saved_text p)"
proof -
  let ?t = "ts ! pr_process_idx p"
  obtain w1 where w1: "os_write os (tid ?t) (rip (pr_saved_regs p)) (pr_saved_text p) w = Some (w1, Inr ())"
    using assms(2) by (meson ptrace_reliable_def)
  obtain w2 where w2: "os_setregs os (tid ?t) (pr_saved_regs p) w1 = Some (w2, Inr ())"
    using assms(2) by (meson ptrace_reliable_def)
  have i: "index_res ts (pr_process_idx p) = Inr ?t" using assms(4) by (simp add: index_res_Inr)
  have "ignore_io (th_write os ?t (rip (pr_saved_regs p)) (pr_saved_text p)) w = Some (w1, Inr ())"
    "ignore_io (th_setregs os ?t (pr_saved_regs p)) w1 = Some (w2, Inr ())"
    by (simp_all add: th_write_def th_setregs_def ignore_io_run[where r = "Inr ()"] w1 w2)
  then have "deinit os p w = Some (w2, Inr (Some ts, p\<lparr>pr_threads := None\<rparr>))"
    using assms(3) i by (simp add: deinit_def reg_ip_def ret_def)
  moreover have "R w1 = R w" "M w1 = poke_word (M w) (rip (pr_saved_regs p)) (pr_saved_text p)"
    using ptrace_okD(4)[OF assms(1) w1] by simp_all
  moreover have "R w2 = (R w1)(tid ?t := pr_saved_regs p)" "M w2 = M w1"
    using ptrace_okD(2)[OF assms(1) w2] by simp_all
  ultimately show ?thesis by auto
qed

text \<open>
  C3: Injection leaves no trace: whatever happened between patching the main thread and cleaning up,
  the clean-up returns, the main thread has again the registers it was stopped with, the patched
  word of its text is again the original one, and nothing else is changed.
\<close>

theorem injection_restores:
  assumes "ptrace_ok os R M" and "ptrace_reliable os (tid (threads ! idx))"
    and "inj_init os threads idx w0 = Some (w1, Inr (regs, text))"
    and "p = \<lparr>pr_process_idx = idx, pr_saved_regs = regs, pr_saved_text = text, pr_threads = Some threads, pr_owner = ow\<rparr>"
  shows "\<exists>w3. deinit os p w2 = Some (w3, Inr (Some threads, p\<lparr>pr_threads := None\<rparr>)) \<and>
    R w3 = (R w2)(tid (threads ! idx) := R w0 (tid (threads ! idx))) \<and>
    M w3 = (\<lambda>a. if a - rip (R w0 (tid (threads ! idx))) < 8 then M w0 a else M w2 a)"
proof -
  note init = inj_init_effect[OF assms(1,3)]
  obtain w3 where "deinit os p w2 = Some (w3, Inr (Some threads, p\<lparr>pr_threads := None\<rparr>))"
    "R w3 = (R w2)(tid (threads ! idx) := regs)" "M w3 = poke_word (M w2) (rip regs) text"
    using deinit_effect[OF assms(1), of threads p w2] assms(2,4) init(1) by auto
  then show ?thesis using init by (auto simp: poke_peek fun_eq_iff)
qed

lemma check_owner_Inr [res_simps]: "check_owner ow me = Inr u \<longleftrightarrow> ow = Some me"
  by (auto simp: check_owner_def split: option.splits)

lemma foreign_syscall:
  assumes "pr_owner p \<noteq> Some me"
  shows "\<exists>e. proc_syscall os me p regs w = Some (w, Inl (Err e))"
  using assms by (cases "pr_owner p") (auto simp: proc_syscall_def check_owner_def bail_def lift_res_def bind_io_def)


lemma deinit_Inr:
  "deinit os p w = Some (w', Inr (ts, p')) \<Longrightarrow> ts = pr_threads p \<and> p' = p\<lparr>pr_threads := None\<rparr>"
  by (auto simp: deinit_def io_simps split: option.splits)

text \<open>
  C29: Ownership is exclusive: a process that is handed over by \<^verbatim>\<open>disown\<close> and \<^verbatim>\<open>adopt\<close> keeps its
  threads on the way, has no owner in between and the adopting thread as its owner afterwards. At
  each point a thread that is not the owner gets an error from an injected system call, which has
  no effect on the process.
\<close>

theorem ownership_transfer:
  assumes "disown os (w, p) = Some ((w1, p1), Inr ())" and "adopt os me (w1', p1) = Some ((w2, p2), Inr ())"
  shows "pr_owner p \<noteq> None \<and> pr_owner p1 = None \<and> pr_threads p1 = pr_threads p \<and> pr_owner p2 = Some me \<and>
    (\<exists>e. proc_syscall os u p1 regs w3 = Some (w3, Inl (Err e))) \<and>
    (u \<noteq> me \<longrightarrow> (\<exists>e. proc_syscall os u p2 regs w3 = Some (w3, Inl (Err e))))"
proof -
  have d: "pr_owner p \<noteq> None \<and> pr_owner p1 = None \<and> pr_threads p1 = pr_threads p"
    using assms(1)
    by (auto simp: disown_def io_simps expect_threads_def split: if_splits option.splits dest!: deinit_Inr)
  have a: "pr_owner p2 = Some me"
    using assms(2) by (auto simp: adopt_def io_simps split: if_splits prod.splits)
  show ?thesis using d a foreign_syscall[of p1 u os regs w3] foreign_syscall[of p2 u os regs w3] by auto
qed

text \<open>
  The statuses that \<^verbatim>\<open>waitpid\<close> reports while the thread is run: a system call stop is among the first
  \<open>n\<close>, and the process does not exit before.
\<close>

fun stops_within :: "'w os \<Rightarrow> pid \<Rightarrow> nat \<Rightarrow> 'w \<Rightarrow> bool" where
  "stops_within os t 0 w \<longleftrightarrow> False"
| "stops_within os t (Suc n) w \<longleftrightarrow>
     (case os_syscall os t w of
        Some (w1, Inr _) \<Rightarrow>
          (case os_waitpid os t WAIT_NONE w1 of
             Some (w2, Inr (PtraceSyscall _)) \<Rightarrow> True
           | Some (w2, Inr (Exited _ _)) \<Rightarrow> False
           | Some (w2, Inr _) \<Rightarrow> stops_within os t n w2
           | _ \<Rightarrow> False)
      | _ \<Rightarrow> False)"


text \<open>
  A process whose threads were lost by a failed \<^verbatim>\<open>adopt\<close> can be adopted again, and is then owned without
  having threads.
\<close>

lemma adopt_without_threads:
  "\<lbrakk>pr_owner p = None; pr_threads p = None\<rbrakk> \<Longrightarrow> adopt os me (w, p) = Some ((w, p\<lparr>pr_owner := Some me\<rparr>), Inr ())"
  by (simp add: adopt_def bind_io_def get_st_def ret_def upd_snd_def)

section \<open>An example\<close>

definition sim_threads :: "pt_thread list" where
  "sim_threads = [\<lparr>tid = 8\<rparr>, \<lparr>tid = 7\<rparr>]"

definition sim_proc :: process where
  "sim_proc = \<lparr>pr_process_idx = 1, pr_saved_regs = sim_regs sim0 7, pr_saved_text = peek_word (sim_mem sim0) 0x400000,
     pr_threads = Some sim_threads, pr_owner = Some 1\<rparr>"

lemma sim_init:
  "inj_init sim_os sim_threads 1 sim0 =
     Some (sim0\<lparr>sim_mem := poke_word (sim_mem sim0) 0x400000 SYSCALL_TEXT\<rparr>,
       Inr (sim_regs sim0 7, peek_word (sim_mem sim0) 0x400000))"
  by (simp add: inj_init_def sim_threads_def index_res_def bind_io_def lift_res_def th_getregs_def th_read_def
      th_write_def try_io_def sim_os_def reg_ip_def ret_def) (simp add: sim0_def ret_def)

lemma sim_reliable: "ptrace_reliable sim_os t"
  by (simp add: ptrace_reliable_def sim_os_def)

theorem injection_restores_witness:
  "\<exists>w3. deinit sim_os sim_proc (sim0\<lparr>sim_mem := (\<lambda>a. 0), sim_regs := (\<lambda>p. zero_regs)\<rparr>) =
      Some (w3, Inr (Some sim_threads, sim_proc\<lparr>pr_threads := None\<rparr>)) \<and>
    sim_regs w3 7 = sim_regs sim0 7 \<and> sim_regs w3 8 = zero_regs \<and>
    sim_mem w3 0x400001 = 0x91 \<and> sim_mem w3 0x400008 = 0"
proof -
  have ip: "rip (sim_regs sim0 7) = 0x400000" by (simp add: sim0_def)
  have mem: "sim_mem sim0 0x400001 = 0x91" by (simp add: sim0_def)
  have t: "tid (sim_threads ! 1) = 7" by (simp add: sim_threads_def)
  from injection_restores[OF sim_ptrace_ok sim_reliable sim_init, of sim_proc "Some 1"
      "sim0\<lparr>sim_mem := (\<lambda>a. 0), sim_regs := (\<lambda>p. zero_regs)\<rparr>"]
  show ?thesis unfolding t by (auto simp: sim_proc_def ip mem)
qed

lemma sim_wait:
  "sim_status s = [] \<Longrightarrow> wait_for_syscall sim_os sim_proc s = Some (sim_step 7 s, Inr ())"
  by (subst wait_for_syscall.simps)
    (simp add: sim_proc_def sim_threads_def pr_main_thread_def index_res_def bind_io_def lift_res_def try_io_def
      th_syscall_def sim_os_def sim_step_def Let_def)

lemma sim_main: "pr_main_thread sim_proc = Inr \<lparr>tid = 7\<rparr>"
  by (simp add: pr_main_thread_def sim_proc_def sim_threads_def index_res_def)

lemma sim_ioctl: "\<exists>w. proc_ioctl sim_os 1 sim_proc 5 0xAE80 0 sim0 = Some (w, Inr 42)"
proof -
  have ow: "pr_owner sim_proc = Some 1" "pr_saved_regs sim_proc = sim_regs sim0 7"
    by (simp_all add: sim_proc_def)
  define s where "s = sim0\<lparr>sim_regs := (sim_regs sim0)(7 := syscall_args (sim_regs sim0 7) [16, 5, 0xAE80, 0])\<rparr>"
  have st: "sim_status s = []" "sim_status (sim_step 7 s) = []"
    by (simp_all add: s_def sim0_def sim_step_def Let_def)
  have set: "th_setregs sim_os \<lparr>tid = 7\<rparr> (syscall_args (sim_regs sim0 7) [16, 5, 0xAE80, 0]) sim0 = Some (s, Inr ())"
    by (simp add: th_setregs_def sim_os_def try_io_def s_def)
  have regs: "sim_regs (sim_step 7 (sim_step 7 s)) 7 =
      (syscall_args (sim_regs sim0 7) [16, 5, 0xAE80, 0])\<lparr>rip := 0x400002, rax := 42\<rparr>"
    by (simp add: s_def sim_step_def Let_def sim0_def syscall_args_def prepare_syscall_def eval_nat_numeral)
  have get: "th_getregs sim_os \<lparr>tid = 7\<rparr> (sim_step 7 (sim_step 7 s)) =
      Some (sim_step 7 (sim_step 7 s), Inr (sim_regs (sim_step 7 (sim_step 7 s)) 7))"
    by (simp add: th_getregs_def sim_os_def try_io_def)
  have "rip (sim_regs sim0 7) = 0x400000" by (simp add: sim0_def)
  then show ?thesis
    by (simp add: proc_ioctl_def proc_syscall_def ow check_owner_def sim_main set sim_wait[OF st(1)] sim_wait[OF st(2)]
        get regs reg_ip_def chk_sub_def SYSCALL_SIZE_def assert_res_def syscall_ret_def ret_def)
qed



definition sim_disowned :: process where
  "sim_disowned = sim_proc\<lparr>pr_owner := None\<rparr>"

lemma sim_disown: "\<exists>w. disown sim_os (sim0, sim_proc) = Some ((w, sim_disowned), Inr ())"
  by (simp add: disown_def bind_io_def get_st_def sim_proc_def sim_disowned_def on_fst_def deinit_def sim_threads_def
      index_res_def lift_res_def ignore_io_def attempt_def th_write_def th_setregs_def try_io_def sim_os_def
      ret_def upd_snd_def expect_threads_def on_err_def th_detach_def)

lemma sim_adopt:
  "\<exists>w p. adopt sim_os 2 (sim0, sim_disowned) = Some ((w, p), Inr ())"
proof -
  have r: "retain_seized sim_os sim_threads sim0 = Some (sim0, Inr sim_threads)"
    by (simp add: sim_threads_def bind_io_def attempt_def sim_seize ret_def) (simp add: sim0_def)
  have "pr_owner sim_disowned = None" "pr_threads sim_disowned = Some sim_threads" "pr_process_idx sim_disowned = 1"
    by (simp_all add: sim_disowned_def sim_proc_def)
  then show ?thesis
    by (simp add: adopt_def bind_io_def get_st_def upd_snd_def on_fst_def r on_err_def sim_init[simplified])
qed

theorem ownership_transfer_witness:
  "\<exists>w p1 p2. disown sim_os (sim0, sim_proc) = Some ((w, p1), Inr ()) \<and> pr_owner p1 = None \<and>
     pr_owner p2 = Some 2 \<and> (\<exists>e. proc_syscall sim_os 1 p2 zero_regs sim0 = Some (sim0, Inl (Err e)))"
proof -
  obtain w where d: "disown sim_os (sim0, sim_proc) = Some ((w, sim_disowned), Inr ())" using sim_disown by blast
  obtain w2 p2 where a: "adopt sim_os 2 (sim0, sim_disowned) = Some ((w2, p2), Inr ())" using sim_adopt by blast
  from ownership_transfer[OF d a, of 1 zero_regs sim0] d show ?thesis by fastforce
qed

end
