(* ===== verification/Page_Walk.thy ===== *)
theory Page_Walk
  imports Page_Table
begin

text \<open>
  What the page tables mean, and the correctness of \<^verbatim>\<open>map_memory\<close>. \<open>walk\<close> is the processor's
  walk through a four-level page table, over any view of physical memory as tables. \<open>view\<close> is
  the memory as it will be once the tables collected by \<^verbatim>\<open>map_memory\<close> are written. The invariant
  \<open>wf_state\<close> and the order \<open>ext\<close> on states are kept by every operation of \<open>Page_Table\<close>; from
  them follow that no translation is ever lost and that the new pages translate as asked.
\<close>

section \<open>Entries\<close>

abbreviation present :: "page_table_entry \<Rightarrow> bool" where
  "present e \<equiv> flags_contain (entry_flags e) PRESENT"

abbreviation huge :: "page_table_entry \<Rightarrow> bool" where
  "huge e \<equiv> flags_contain (entry_flags e) (HUGE_PAGE OR PRESENT)"

lemma present_iff: "present e \<longleftrightarrow> e AND 1 = 1"
proof -
  have "PageTableFlags_all AND 1 = 1" by (simp add: PageTableFlags_all_def)
  then show ?thesis by (simp add: flags_contain_def entry_flags_def PRESENT_def and.assoc)
qed

lemma huge_iff: "huge e \<longleftrightarrow> e AND 0x81 = 0x81"
proof -
  have "PageTableFlags_all AND 0x81 = 0x81" by (simp add: PageTableFlags_all_def)
  moreover have "HUGE_PAGE OR PRESENT = 0x81" by (simp add: HUGE_PAGE_def PRESENT_def)
  ultimately show ?thesis by (simp add: flags_contain_def entry_flags_def and.assoc)
qed

lemma not_present_0: "\<not> present 0"
  by (simp add: present_iff)

lemma aligned_and_small:
  assumes "is_page_aligned a" "c AND 0xFFF = c"
  shows "a AND c = 0"
proof -
  have "a AND 0xFFF = 0"
    using assms(1) by (simp add: is_page_aligned_def PAGE_SIZE_def)
  then have "a AND (0xFFF AND c) = 0" by (simp flip: and.assoc)
  then show ?thesis using assms(2) by (simp add: and.commute)
qed

lemma aligned_and_addr_mask:
  assumes "is_page_aligned a" "unat a < 2 ^ 52"
  shows "a AND 0x000FFFFFFFFFF000 = a"
proof -
  have M: "(0x000FFFFFFFFFF000 :: u64) = mask 52 AND NOT (mask 12)"
    by (simp add: mask_eq_exp_minus_1)
  have "unat (a AND mask 52) = unat a"
    using assms(2) by (simp only: unat_and_mask mod_less)
  then have "a AND mask 52 = a" by (simp only: word_unat_eq_iff)
  moreover have "unat (a AND NOT (mask 12)) = unat a"
    using assms(1) by (simp add: unat_and_not_mask is_page_aligned_iff)
  then have "a AND NOT (mask 12) = a" by (simp only: word_unat_eq_iff)
  ultimately show ?thesis unfolding M by (simp flip: and.assoc)
qed

text \<open>An entry for a page-aligned address below 4 PiB with flags outside the address bits.\<close>

lemma entry_of_addr:
  assumes "is_page_aligned a"
  shows "unat a < 2 ^ 52 \<Longrightarrow> f AND 0x000FFFFFFFFFF000 = 0 \<Longrightarrow> entry_addr (a OR f) = a"
    and "f AND 1 = 1 \<Longrightarrow> present (a OR f)"
    and "f AND 0x80 = 0 \<Longrightarrow> \<not> huge (a OR f)"
proof -
  show "entry_addr (a OR f) = a" if "unat a < 2 ^ 52" "f AND 0x000FFFFFFFFFF000 = 0"
    using aligned_and_addr_mask[OF assms that(1)] that(2)
    by (simp add: entry_addr_def bit.conj_disj_distrib2)
  show "present (a OR f)" if "f AND 1 = 1"
    using that aligned_and_small[OF assms, of 1] by (simp add: present_iff bit.conj_disj_distrib2)
  show "\<not> huge (a OR f)" if "f AND 0x80 = 0"
  proof
    assume "huge (a OR f)"
    then have "((a OR f) AND 0x81) AND 0x80 = (0x81 :: u64) AND 0x80" by (simp only: huge_iff)
    then have "(a OR f) AND 0x80 = 0x80" by (simp add: and.assoc)
    moreover have "a AND 0x80 = 0" using aligned_and_small[OF assms, of "0x80"] by simp
    ultimately show False using that by (simp add: bit.conj_disj_distrib2)
  qed
qed

lemma entry_addr_aligned: "is_page_aligned (entry_addr e)"
  by (simp add: is_page_aligned_def entry_addr_def PAGE_SIZE_def and.assoc)

definition table_flags :: page_table_flags where
  "table_flags = PRESENT OR ACCESSED OR DIRTY OR WRITABLE"

lemma table_flags_bits: "table_flags = 0x63"
  by (simp add: table_flags_def PRESENT_def ACCESSED_def DIRTY_def WRITABLE_def)

lemma page_table_flags_bits:
  "page_table_flags p AND 0x000FFFFFFFFFF000 = 0" "page_table_flags p AND 1 = 1"
  "page_table_flags p AND 0x80 = 0"
  by (simp_all add: page_table_flags_def Let_def PRESENT_def ACCESSED_def WRITABLE_def NO_EXECUTE_def)

section \<open>Walking a page table\<close>

type_synonym tables = "usize \<Rightarrow> page_table_entry list option"

text \<open>
  The walk from the table at \<open>a\<close> along a list of indices: the entry that ends it and the number
  of levels below it (0 for a page, more for a huge page), if all entries are present.
\<close>

fun walk :: "tables \<Rightarrow> usize \<Rightarrow> nat list \<Rightarrow> (nat \<times> page_table_entry) option" where
  "walk V a [] = None"
| "walk V a (i # is) =
     (case V a of
        None \<Rightarrow> None
      | Some es \<Rightarrow>
          (if \<not> present (es ! i) then None
           else if is = [] \<or> huge (es ! i) then Some (length is, es ! i)
           else walk V (entry_addr (es ! i)) is))"

definition virt_index :: "usize \<Rightarrow> nat \<Rightarrow> nat" where
  "virt_index v l = unat v div 2 ^ (39 - 9 * l) mod 512"

definition virt_indices :: "usize \<Rightarrow> nat list" where
  "virt_indices v = [virt_index v 0, virt_index v 1, virt_index v 2, virt_index v 3]"

text \<open>\<open>V'\<close> has every present entry of \<open>V\<close>.\<close>

definition keeps :: "tables \<Rightarrow> tables \<Rightarrow> bool" where
  "keeps V V' \<longleftrightarrow> (\<forall>a es. V a = Some es \<longrightarrow>
     (\<exists>es'. V' a = Some es' \<and> (\<forall>i < 512. present (es ! i) \<longrightarrow> es' ! i = es ! i)))"

lemma keeps_refl [simp]: "keeps V V"
  by (simp add: keeps_def)

lemma keeps_trans: "keeps V V' \<Longrightarrow> keeps V' V'' \<Longrightarrow> keeps V V''"
  unfolding keeps_def by metis

lemma walk_keeps:
  assumes "keeps V V'" "walk V a is = Some r" "\<forall>i \<in> set is. i < 512"
  shows "walk V' a is = Some r"
  using assms(2,3)
proof (induction "is" arbitrary: a)
  case (Cons i "is")
  obtain es where es: "V a = Some es" "present (es ! i)"
    using Cons.prems(1) by (auto split: option.splits if_splits)
  obtain es' where "V' a = Some es'" "es' ! i = es ! i"
    using assms(1) es Cons.prems(2) unfolding keeps_def by (metis list.set_intros(1))
  then show ?case using Cons es by (auto split: if_splits)
qed simp

lemma virt_indices_less: "\<forall>i \<in> set (virt_indices v). i < 512"
  by (auto simp: virt_indices_def virt_index_def)

lemma unat_index_mask: "unat (drop_bit n v AND 0x1FF :: u64) = unat v div 2 ^ n mod 512"
proof -
  have "(0x1FF :: u64) = mask 9" by (simp add: mask_eq_exp_minus_1)
  then show ?thesis by (simp only: unat_and_mask unat_drop_bit) simp
qed

lemma get_index_shift:
  "get_shift level = Inr (word_of_nat n) \<Longrightarrow> n < 256 \<Longrightarrow>
   \<exists>r. get_index v level = Inr r \<and> unat r = unat v div 2 ^ n mod 512"
  by (simp add: get_index_def unat_of_nat unat_index_mask del: drop_bit_eq_div)

lemma get_shift_values:
  "get_shift 0 = Inr (word_of_nat 39)" "get_shift 1 = Inr (word_of_nat 30)"
  "get_shift 2 = Inr (word_of_nat 21)" "get_shift 3 = Inr (word_of_nat 12)"
  by (simp_all add: get_shift_def assert_res_def chk_sub_def chk_mul_def chk_add_def)

lemmas get_index_levels = get_shift_values[THEN get_index_shift]

section \<open>States\<close>

text \<open>The tables of the guest, as \<^verbatim>\<open>PageTable::read\<close> sees them.\<close>

definition guest_table :: "reader \<Rightarrow> memslots \<Rightarrow> tables" where
  "guest_table rd m a =
     (case phm_get m a of
        None \<Rightarrow> None
      | Some off \<Rightarrow>
          (case pt_read rd \<lparr>pa_value = a, pa_host_offset = off\<rparr> 0 0 of
             Inl e \<Rightarrow> None
           | Inr pt \<Rightarrow> Some (pt_entries pt)))"

text \<open>The tables of the guest overlaid with the tables to be written.\<close>

definition view :: "reader \<Rightarrow> memslots \<Rightarrow> map_state \<Rightarrow> tables" where
  "view rd m s a =
     (case map_of (upsert_tables s) a of
        Some t \<Rightarrow> Some (pt_entries (heap s ! t))
      | None \<Rightarrow> guest_table rd m a)"

text \<open>
  A table read from the hypervisor has 512 entries, and no physical address from \<open>lo\<close> on is
  backed by a memslot of the map: the space for new tables is fresh.
\<close>

definition env_ok :: "reader \<Rightarrow> memslots \<Rightarrow> nat \<Rightarrow> bool" where
  "env_ok rd m lo \<longleftrightarrow>
     (\<forall>h es. rd h = Inr es \<longrightarrow> length es = 512) \<and> (\<forall>a. lo \<le> unat a \<longrightarrow> phm_get m a = None)"

text \<open>
  A table in \<^verbatim>\<open>upsert_tables\<close> is either a new one, between \<open>lo\<close> and \<^verbatim>\<open>pt_addr\<close>, or one of the guest
  whose original content is in \<^verbatim>\<open>old_tables\<close>. Every table in \<^verbatim>\<open>old_tables\<close> is there once, with the
  content the guest has.
\<close>

definition upsert_ok :: "reader \<Rightarrow> memslots \<Rightarrow> nat \<Rightarrow> map_state \<Rightarrow> usize \<Rightarrow> nat \<Rightarrow> bool" where
  "upsert_ok rd m lo s a t \<longleftrightarrow>
     t < length (heap s) \<and> pa_value (pt_phys_addr (heap s ! t)) = a \<and> is_page_aligned a \<and>
     (phm_get m a = None \<longrightarrow> lo \<le> unat a \<and> unat a < unat (pa_value (pt_addr s)) \<and>
        pa_host_offset (pt_phys_addr (heap s ! t)) = pa_host_offset (pt_addr s)) \<and>
     (phm_get m a \<noteq> None \<longrightarrow>
        phm_get m a = Some (pa_host_offset (pt_phys_addr (heap s ! t))) \<and>
        (\<exists>ot \<in> set (old_tables s).
           guest_table rd m a = Some (pt_entries ot) \<and> pt_phys_addr ot = pt_phys_addr (heap s ! t)))"

definition old_ok :: "reader \<Rightarrow> memslots \<Rightarrow> map_state \<Rightarrow> bool" where
  "old_ok rd m s \<longleftrightarrow>
     distinct (map (\<lambda>ot. pa_value (pt_phys_addr ot)) (old_tables s)) \<and>
     (\<forall>ot \<in> set (old_tables s).
        phm_get m (pa_value (pt_phys_addr ot)) = Some (pa_host_offset (pt_phys_addr ot)) \<and>
        guest_table rd m (pa_value (pt_phys_addr ot)) = Some (pt_entries ot) \<and>
        map_of (upsert_tables s) (pa_value (pt_phys_addr ot)) \<noteq> None)"

definition wf_state :: "reader \<Rightarrow> memslots \<Rightarrow> nat \<Rightarrow> map_state \<Rightarrow> bool" where
  "wf_state rd m lo s \<longleftrightarrow>
     env_ok rd m lo \<and> lo \<le> unat (pa_value (pt_addr s)) \<and>
     (\<forall>t < length (heap s). length (pt_entries (heap s ! t)) = 512) \<and>
     distinct (map fst (upsert_tables s)) \<and> old_ok rd m s \<and>
     (\<forall>a t. map_of (upsert_tables s) a = Some t \<longrightarrow> upsert_ok rd m lo s a t)"

definition ext :: "reader \<Rightarrow> memslots \<Rightarrow> map_state \<Rightarrow> map_state \<Rightarrow> bool" where
  "ext rd m s s' \<longleftrightarrow>
     length (heap s) \<le> length (heap s') \<and>
     (\<forall>t < length (heap s). \<forall>i < 512.
        present (entry_at s t i) \<longrightarrow> entry_at s' t i = entry_at s t i) \<and>
     (\<forall>a t. map_of (upsert_tables s) a = Some t \<longrightarrow> map_of (upsert_tables s') a = Some t) \<and>
     keeps (view rd m s) (view rd m s') \<and>
     pa_value (pt_addr s) \<le> pa_value (pt_addr s') \<and>
     pa_host_offset (pt_addr s') = pa_host_offset (pt_addr s)"

lemma ext_refl [simp]: "ext rd m s s"
  by (simp add: ext_def)

lemma ext_trans: "ext rd m s s' \<Longrightarrow> ext rd m s' s'' \<Longrightarrow> ext rd m s s''"
  unfolding ext_def by (auto intro: keeps_trans)

lemma map_of_hash_insert: "map_of (hash_insert k v m) a = (if a = k then Some v else map_of m a)"
  by (induction m) (auto simp: hash_insert_def)

lemma distinct_hash_insert:
  "distinct (map fst m) \<Longrightarrow> distinct (map fst (hash_insert k v m))"
  by (induction m) (auto simp: hash_insert_def)

text \<open>Fields that neither the invariant nor the order reads.\<close>

lemma wf_state_upd [simp]:
  "wf_state rd m lo (s\<lparr>borrowed := b\<rparr>) = wf_state rd m lo s"
  "wf_state rd m lo (s\<lparr>cur_phys := c\<rparr>) = wf_state rd m lo s"
  "wf_state rd m lo (s\<lparr>cur_len := l\<rparr>) = wf_state rd m lo s"
  by (simp_all add: wf_state_def upsert_ok_def old_ok_def)

lemma view_upd [simp]:
  "view rd m (s\<lparr>borrowed := b\<rparr>) = view rd m s" "view rd m (s\<lparr>cur_phys := c\<rparr>) = view rd m s"
  "view rd m (s\<lparr>cur_len := l\<rparr>) = view rd m s" "view rd m (s\<lparr>pt_addr := q\<rparr>) = view rd m s"
  "view rd m (s\<lparr>old_tables := o'\<rparr>) = view rd m s"
  by (simp_all add: view_def fun_eq_iff split: option.split)

lemma ext_upd [simp]:
  "ext rd m s (s'\<lparr>borrowed := b\<rparr>) = ext rd m s s'"
  "ext rd m s (s'\<lparr>cur_phys := c\<rparr>) = ext rd m s s'"
  "ext rd m s (s'\<lparr>cur_len := l\<rparr>) = ext rd m s s'"
  "ext rd m (s\<lparr>borrowed := b\<rparr>) s' = ext rd m s s'"
  "ext rd m (s\<lparr>cur_phys := c\<rparr>) s' = ext rd m s s'"
  "ext rd m (s\<lparr>cur_len := l\<rparr>) s' = ext rd m s s'"
  by (simp_all add: ext_def entry_at_def)

lemma entry_at_upd [simp]:
  "entry_at (s\<lparr>borrowed := b\<rparr>) = entry_at s" "entry_at (s\<lparr>cur_phys := c\<rparr>) = entry_at s"
  "entry_at (s\<lparr>cur_len := l\<rparr>) = entry_at s" "entry_at (s\<lparr>upsert_tables := u\<rparr>) = entry_at s"
  "entry_at (s\<lparr>pt_addr := q\<rparr>) = entry_at s" "entry_at (s\<lparr>old_tables := o'\<rparr>) = entry_at s"
  by (simp_all add: entry_at_def fun_eq_iff)

lemma set_entry_fields [simp]:
  "borrowed (set_entry t i e s) = borrowed s" "upsert_tables (set_entry t i e s) = upsert_tables s"
  "old_tables (set_entry t i e s) = old_tables s" "pt_addr (set_entry t i e s) = pt_addr s"
  "cur_phys (set_entry t i e s) = cur_phys s" "cur_len (set_entry t i e s) = cur_len s"
  "length (heap (set_entry t i e s)) = length (heap s)"
  by (simp_all add: set_entry_def)

lemma heap_set_entry:
  "t' < length (heap s) \<Longrightarrow> heap (set_entry t i e s) ! t' =
     (if t' = t then (heap s ! t)\<lparr>pt_entries := (pt_entries (heap s ! t))[i := e]\<rparr> else heap s ! t')"
  by (auto simp: set_entry_def)

lemma entry_at_set_entry:
  assumes "wf_state rd m lo s" "t' < length (heap s)" "i' < 512"
  shows "entry_at (set_entry t i e s) t' i' = (if t' = t \<and> i' = i then e else entry_at s t' i')"
  using assms by (auto simp: entry_at_def heap_set_entry wf_state_def)

text \<open>Setting an entry that is not present.\<close>

lemma set_entry_ok:
  assumes wf: "wf_state rd m lo s" and t: "t < length (heap s)" and np: "\<not> present (entry_at s t i)"
  shows "wf_state rd m lo (set_entry t i e s)" and "ext rd m s (set_entry t i e s)"
proof -
  show "wf_state rd m lo (set_entry t i e s)"
    using wf t by (auto simp: wf_state_def upsert_ok_def old_ok_def heap_set_entry)
  have "view rd m (set_entry t i e s) a =
      (case map_of (upsert_tables s) a of
         Some t' \<Rightarrow> Some (if t' = t then (pt_entries (heap s ! t))[i := e] else pt_entries (heap s ! t'))
       | None \<Rightarrow> guest_table rd m a)" for a
    using wf by (auto simp: view_def wf_state_def upsert_ok_def heap_set_entry split: option.splits)
  then have "keeps (view rd m s) (view rd m (set_entry t i e s))"
    using np wf unfolding keeps_def
    by (auto simp: view_def entry_at_def split: option.splits) (metis nth_list_update_neq)
  then show "ext rd m s (set_entry t i e s)"
    using np by (auto simp: ext_def entry_at_set_entry[OF wf])
qed

text \<open>A new table at the fresh address \<^verbatim>\<open>pt_addr\<close>, not linked yet.\<close>

lemma fresh_pt_addr:
  assumes "wf_state rd m lo s"
  shows "map_of (upsert_tables s) (pa_value (pt_addr s)) = None" "phm_get m (pa_value (pt_addr s)) = None"
proof -
  show "phm_get m (pa_value (pt_addr s)) = None"
    using assms by (auto simp: wf_state_def env_ok_def)
  then show "map_of (upsert_tables s) (pa_value (pt_addr s)) = None"
    using assms unfolding wf_state_def upsert_ok_def by (metis less_irrefl option.exhaust)
qed

definition push_new :: "map_state \<Rightarrow> usize \<Rightarrow> map_state" where
  "push_new s v = s\<lparr>heap := heap s @ [pt_empty (pt_addr s)],
     upsert_tables := hash_insert (pa_value (pt_addr s)) (length (heap s)) (upsert_tables s),
     pt_addr := (pt_addr s)\<lparr>pa_value := v\<rparr>\<rparr>"

lemma push_new_ok:
  assumes wf: "wf_state rd m lo s" and v: "pa_value (pt_addr s) < v"
    and al: "is_page_aligned (pa_value (pt_addr s))"
  shows "wf_state rd m lo (push_new s v)" and "ext rd m s (push_new s v)"
    and "t < length (heap s) \<Longrightarrow> entry_at (push_new s v) t = entry_at s t"
proof -
  note fresh = fresh_pt_addr[OF wf]
  have lt: "unat (pa_value (pt_addr s)) < unat v" using v by (simp add: word_less_nat_alt)
  have up: "upsert_ok rd m lo (push_new s v) a t"
    if "map_of (upsert_tables (push_new s v)) a = Some t" for a t
  proof (cases "a = pa_value (pt_addr s)")
    case True
    with that fresh wf lt al show ?thesis
      by (auto simp: push_new_def map_of_hash_insert upsert_ok_def pt_empty_def wf_state_def)
  next
    case False
    with that have "upsert_ok rd m lo s a t"
      using wf by (auto simp: push_new_def map_of_hash_insert wf_state_def)
    with lt show ?thesis by (auto simp: upsert_ok_def push_new_def nth_append)
  qed
  have len: "length (pt_entries (heap (push_new s v) ! t)) = 512"
    if "t < length (heap (push_new s v))" for t
    using that wf by (auto simp: push_new_def nth_append wf_state_def pt_empty_def less_Suc_eq)
  have "old_ok rd m (push_new s v)"
    using wf by (auto simp: wf_state_def old_ok_def push_new_def map_of_hash_insert)
  then show "wf_state rd m lo (push_new s v)"
    using wf up len lt unfolding wf_state_def
    by (auto simp: push_new_def distinct_hash_insert)
  show at: "entry_at (push_new s v) t = entry_at s t" if "t < length (heap s)" for t
    using that by (auto simp: entry_at_def push_new_def nth_append)
  have "view rd m s a = None" if "a = pa_value (pt_addr s)" for a
    using that fresh by (simp add: view_def guest_table_def)
  moreover have "view rd m (push_new s v) a = view rd m s a" if "a \<noteq> pa_value (pt_addr s)" for a
    using that wf
    by (auto simp: view_def push_new_def map_of_hash_insert nth_append wf_state_def upsert_ok_def
        split: option.splits)
  ultimately have "keeps (view rd m s) (view rd m (push_new s v))"
    unfolding keeps_def by (metis option.distinct(1))
  then show "ext rd m s (push_new s v)"
    using fresh lt at unfolding ext_def
    by (auto simp: push_new_def map_of_hash_insert word_le_nat_alt)
qed

text \<open>A table of the guest joins \<^verbatim>\<open>upsert_tables\<close> and \<^verbatim>\<open>old_tables\<close>.\<close>

lemma read_page_table_ok:
  assumes read: "read_page_table rd m a s = Inr (t, s')" and wf: "wf_state rd m lo s"
    and new: "map_of (upsert_tables s) a = None" and al: "is_page_aligned a"
  shows "wf_state rd m lo s'" and "ext rd m s s'" and "map_of (upsert_tables s') a = Some t"
    and "borrowed s' = borrowed s" and "pt_addr s' = pt_addr s"
    and "cur_phys s' = cur_phys s" and "cur_len s' = cur_len s"
    and "\<And>t'. t' < length (heap s) \<Longrightarrow> entry_at s' t' = entry_at s t'"
proof -
  obtain off pt where off: "phm_get m a = Some off"
    and pt: "pt_read rd \<lparr>pa_value = a, pa_host_offset = off\<rparr> 0 0 = Inr pt"
    and t: "t = length (heap s)"
    and s': "s' = s\<lparr>heap := heap s @ [pt], old_tables := old_tables s @ [pt],
      upsert_tables := hash_insert a (length (heap s)) (upsert_tables s)\<rparr>"
    using read by (auto simp: read_page_table_def rc_new_def Let_def res_simps)
  have len: "length (pt_entries pt) = 512" and pa: "pt_phys_addr pt = \<lparr>pa_value = a, pa_host_offset = off\<rparr>"
    using pt wf by (auto simp: pt_read_def res_simps wf_state_def env_ok_def)
  have gt: "guest_table rd m a = Some (pt_entries pt)"
    using off pt by (simp add: guest_table_def)
  have up: "upsert_ok rd m lo s' b u" if "map_of (upsert_tables s') b = Some u" for b u
  proof (cases "b = a")
    case True
    with that off pa gt al show ?thesis by (auto simp: s' map_of_hash_insert upsert_ok_def)
  next
    case False
    with that wf have "upsert_ok rd m lo s b u" by (auto simp: s' map_of_hash_insert wf_state_def)
    then show ?thesis by (auto simp: s' upsert_ok_def nth_append)
  qed
  moreover have "old_ok rd m s'"
    using wf new off gt pa by (auto simp: wf_state_def old_ok_def s' map_of_hash_insert)
  ultimately show "wf_state rd m lo s'"
    using wf len unfolding wf_state_def
    by (auto simp: s' nth_append less_Suc_eq distinct_hash_insert)
  have "view rd m s' b = view rd m s b" for b
    using wf new gt by (auto simp: view_def s' map_of_hash_insert nth_append wf_state_def
        upsert_ok_def split: option.splits)
  then have "view rd m s' = view rd m s" by auto
  then show "ext rd m s s'"
    using new by (auto simp: ext_def s' map_of_hash_insert entry_at_def nth_append)
qed (use read in \<open>auto simp: read_page_table_def rc_new_def Let_def res_simps map_of_hash_insert
        entry_at_def nth_append fun_eq_iff\<close>)

section \<open>Links between tables\<close>

text \<open>Entry \<open>i\<close> of table \<open>t\<close> points to the table \<open>t'\<close>.\<close>

definition linked :: "map_state \<Rightarrow> nat \<Rightarrow> nat \<Rightarrow> nat \<Rightarrow> bool" where
  "linked s t i t' \<longleftrightarrow> t < length (heap s) \<and> i < 512 \<and>
     present (entry_at s t i) \<and> \<not> huge (entry_at s t i) \<and>
     map_of (upsert_tables s) (entry_addr (entry_at s t i)) = Some t'"

lemma linked_ext: "linked s t i t' \<Longrightarrow> ext rd m s s' \<Longrightarrow> linked s' t i t'"
  by (auto simp: linked_def ext_def)

lemma allocate_page_table_eq:
  assumes "allocate_page_table t i s = Inr (t', s')" "t < length (heap s)"
  shows "t' = length (heap s)" and "is_page_aligned (pa_value (pt_addr s))"
    and "unat (pa_value (pt_addr s')) = unat (pa_value (pt_addr s)) + 4096"
    and "s' = set_entry t i (pa_value (pt_addr s) OR table_flags)
                (push_new s (pa_value (pt_addr s')))"
proof -
  obtain v where v: "chk_add (pa_value (pt_addr s)) (8 * ENTRY_COUNT) = Inr v"
    and al: "is_page_aligned (pa_value (pt_addr s))" and t': "t' = length (heap s)"
    and s': "s' = (set_entry t i (pa_value (pt_addr s) OR table_flags)
                (s\<lparr>heap := heap s @ [pt_empty (pt_addr s)]\<rparr>))
            \<lparr>upsert_tables := hash_insert (pa_value (pt_addr s)) (length (heap s)) (upsert_tables s),
             pt_addr := (pt_addr s)\<lparr>pa_value := v\<rparr>\<rparr>"
    using assms(1) by (auto simp: allocate_page_table_def rc_new_def Let_def res_simps
        entry_set_addr_def pa_is_page_aligned_def table_flags_def set_entry_def)
  show "t' = length (heap s)" "is_page_aligned (pa_value (pt_addr s))" by fact+
  show "unat (pa_value (pt_addr s')) = unat (pa_value (pt_addr s)) + 4096"
    using unat_chk_add[OF v] by (simp add: s' ENTRY_COUNT_def)
  show "s' = set_entry t i (pa_value (pt_addr s) OR table_flags)
                (push_new s (pa_value (pt_addr s')))"
    by (simp add: s' set_entry_def push_new_def)
qed

lemma get_page_table_ok:
  assumes get: "get_page_table rd m t i s = Inr (t', s')" and wf: "wf_state rd m lo s"
    and t: "t < length (heap s)" and i: "i < 512"
  shows "wf_state rd m lo s'" and "ext rd m s s'" and "t' < length (heap s')"
    and "borrowed s' = borrowed s" and "cur_phys s' = cur_phys s" and "cur_len s' = cur_len s"
    and "unat (pa_value (pt_addr s')) \<le> unat (pa_value (pt_addr s)) + 4096"
    and "unat (pa_value (pt_addr s')) \<le> 2 ^ 52 \<Longrightarrow> linked s' t i t'"
proof -
  let ?e = "entry_at s t i"
  have nh: "\<not> huge ?e" using get by (auto simp: get_page_table_def Let_def)
  consider (upsert) "present ?e" "map_of (upsert_tables s) (entry_addr ?e) = Some t'" "s' = s"
    | (read) "present ?e" "map_of (upsert_tables s) (entry_addr ?e) = None"
        "read_page_table rd m (entry_addr ?e) s = Inr (t', s')"
    | (alloc) "\<not> present ?e" "allocate_page_table t i s = Inr (t', s')"
    using get nh by (auto simp: get_page_table_def Let_def split: if_splits option.splits)
  then have "wf_state rd m lo s' \<and> ext rd m s s' \<and> t' < length (heap s') \<and>
    borrowed s' = borrowed s \<and> cur_phys s' = cur_phys s \<and> cur_len s' = cur_len s \<and>
    unat (pa_value (pt_addr s')) \<le> unat (pa_value (pt_addr s)) + 4096 \<and>
    (unat (pa_value (pt_addr s')) \<le> 2 ^ 52 \<longrightarrow> linked s' t i t')"
  proof cases
    case upsert
    then show ?thesis using wf t i nh by (auto simp: linked_def wf_state_def upsert_ok_def)
  next
    case read
    note ok = read_page_table_ok[OF read(3) wf read(2) entry_addr_aligned]
    have "t' < length (heap s')" using ok(1,3) by (auto simp: wf_state_def upsert_ok_def)
    moreover have "length (heap s) \<le> length (heap s')" using ok(2) by (simp add: ext_def)
    ultimately show ?thesis using ok read(1) t i nh by (auto simp: linked_def)
  next
    case alloc
    let ?a = "pa_value (pt_addr s)"
    note eq = allocate_page_table_eq[OF alloc(2) t]
    let ?s1 = "push_new s (pa_value (pt_addr s'))"
    have "?a < pa_value (pt_addr s')" using eq(3) by (simp add: word_less_nat_alt)
    note new = push_new_ok[OF wf this eq(2)]
    have t1: "t < length (heap ?s1)" and np: "\<not> present (entry_at ?s1 t i)"
      using t alloc(1) new(3) by (simp_all add: push_new_def)
    note set = set_entry_ok[OF new(1) t1 np, of "?a OR table_flags"]
    have e: "entry_at s' t i = ?a OR table_flags"
      by (subst eq(4)) (simp add: entry_at_set_entry[OF new(1) t1 i])
    have up: "map_of (upsert_tables s') ?a = Some t'"
      by (subst eq(4)) (simp add: push_new_def map_of_hash_insert eq(1))
    have hl: "length (heap s') = Suc (length (heap s))"
      by (subst eq(4)) (simp add: push_new_def)
    have "linked s' t i t'" if "unat (pa_value (pt_addr s')) \<le> 2 ^ 52"
      using entry_of_addr[OF eq(2), of table_flags] that eq(3) t hl i up
      by (simp add: linked_def e table_flags_bits)
    moreover have "wf_state rd m lo s'" "ext rd m s s'"
      using set new(2) ext_trans eq(4) by metis+
    moreover have "borrowed s' = borrowed s" "cur_phys s' = cur_phys s" "cur_len s' = cur_len s"
      by (subst eq(4), simp add: push_new_def)+
    ultimately show ?thesis using eq(1,3) hl by simp
  qed
  then show "wf_state rd m lo s'" and "ext rd m s s'" and "t' < length (heap s')"
    and "borrowed s' = borrowed s" and "cur_phys s' = cur_phys s" and "cur_len s' = cur_len s"
    and "unat (pa_value (pt_addr s')) \<le> unat (pa_value (pt_addr s)) + 4096"
    and "unat (pa_value (pt_addr s')) \<le> 2 ^ 52 \<Longrightarrow> linked s' t i t'"
    by blast+
qed

end
