(* ===== verification/Page_Iter.thy ===== *)
theory Page_Iter
  imports Page_Walk
begin

text \<open>
  \<^verbatim>\<open>PageTableIterator\<close> of \<^verbatim>\<open>src/page_table.rs\<close>: the lazy walk over the mapped pages of a range of virtual
  addresses. The iterator of a table holds the iterator of the child table it is in; \<open>items\<close> is
  the list of everything an iterator has still to deliver, and \<open>iter_next\<close> is proved to deliver
  exactly this list, in this order.
\<close>

record pt_value =
  pv_virt_addr :: u64
  pv_level :: u8
  pv_entry :: page_table_entry

definition pv_size :: "pt_value \<Rightarrow> u64 res" where
  "pv_size v =
     bind_res (assert_res (flags_contain (entry_flags (pv_entry v)) PRESENT \<and>
         (pv_level v = 3 \<or> flags_contain (entry_flags (pv_entry v)) HUGE_PAGE)) ''not a mapped page'')
       (\<lambda>_. bind_res (get_shift (pv_level v)) (\<lambda>s. Inr (push_bit (unat s) 1)))"

datatype pt_iter =
  PtIter (it_table: page_table) (it_range: range) (it_count: nat) (it_inner: "pt_iter option")

definition pt_iter_new :: "page_table \<Rightarrow> range \<Rightarrow> pt_iter" where
  "pt_iter_new pt r = PtIter pt r 0 None"

definition sign_extend :: "u64 \<Rightarrow> u64" where
  "sign_extend v = (if drop_bit 47 v \<noteq> 0 then v OR 0xFFFF000000000000 else v)"

text \<open>
  The part of \<^verbatim>\<open>next\<close> after the inner iterator: \<open>iter_begin\<close> computes the first and the last index
  of the range in this table, \<open>iter_scan\<close> is the loop over the entries. \<^verbatim>\<open>.ok()?\<close> turns an error
  (not a panic) into the end of the iteration.
\<close>

definition child_range :: "range \<Rightarrow> nat \<Rightarrow> nat \<Rightarrow> nat \<Rightarrow> range" where
  "child_range r start stop idx =
     (if start < idx then 0 else fst r, if idx < stop - 1 then - 1 else snd r)"

lemma get_shift_le: "get_shift l = Inr s \<Longrightarrow> unat l \<le> 3"
  by (auto simp: get_shift_def res_simps word_le_nat_alt)

lemma pt_read_level: "pt_read rd pa v l = Inr pt \<Longrightarrow> pt_level pt = l"
  by (auto simp: pt_read_def res_simps)

lemma unat_level_Suc: "unat (l :: u8) \<le> 3 \<Longrightarrow> unat (l + 1) = unat l + 1"
  by (simp add: unat_add_no_overflow)

function iter_begin :: "reader \<Rightarrow> memslots \<Rightarrow> page_table \<Rightarrow> range \<Rightarrow> nat \<Rightarrow> (pt_value option \<times> pt_iter) res"
  and iter_scan :: "reader \<Rightarrow> memslots \<Rightarrow> page_table \<Rightarrow> range \<Rightarrow> nat \<Rightarrow> nat \<Rightarrow> nat
    \<Rightarrow> (pt_value option \<times> pt_iter) res" where
  "iter_begin rd m pt r count =
     bind_res (get_index (fst r) (pt_level pt)) (\<lambda>s.
     bind_res (get_index (snd r) (pt_level pt)) (\<lambda>e.
     let start = unat s; count' = max count start; stop = unat e + 1 in
     if stop < count' then panic ''slice index starts after its end''
     else if length (pt_entries pt) < stop then panic ''range end index out of range for slice''
     else iter_scan rd m pt r start stop count'))"
| "iter_scan rd m pt r start stop count =
     (if stop \<le> count then Inr (None, PtIter pt r count None)
      else
        let entry = pt_entries pt ! count in
        bind_res (get_shift (pt_level pt)) (\<lambda>sh.
        bind_res (chk_add (pt_virt_addr pt) (push_bit (unat sh) (of_nat count))) (\<lambda>va.
        let virt_addr = sign_extend va in
        if \<not> flags_contain (entry_flags entry) PRESENT then iter_scan rd m pt r start stop (count + 1)
        else if pt_level pt = 3 \<or> flags_contain (entry_flags entry) HUGE_PAGE
        then Inr (Some \<lparr>pv_virt_addr = virt_addr, pv_level = pt_level pt, pv_entry = entry\<rparr>,
                  PtIter pt r (count + 1) None)
        else
          case bind_res (pt_entry_phys_addr entry m) (\<lambda>pa.
                 bind_res (chk_add (pt_level pt) 1) (\<lambda>l. pt_read rd pa virt_addr l)) of
            Inl (Panic p) \<Rightarrow> Inl (Panic p)
          | Inl (Err e) \<Rightarrow> Inr (None, PtIter pt r (count + 1) None)
          | Inr next_pt \<Rightarrow>
              bind_res (iter_begin rd m next_pt (child_range r start stop count) 0) (\<lambda>(item, inner).
              case item of
                Some v \<Rightarrow> Inr (Some v, PtIter pt r (count + 1) (Some inner))
              | None \<Rightarrow> iter_scan rd m pt r start stop (count + 1)))))"
  by pat_completeness auto

termination
  apply (relation "inv_image (less_than <*lex*> less_than <*lex*> less_than)
     (\<lambda>x. case x of Inl (rd, m, pt, r, count) \<Rightarrow> (4 - unat (pt_level pt), 1, 0)
        | Inr (rd, m, pt, r, start, stop, count) \<Rightarrow> (4 - unat (pt_level pt), 0::nat, stop - count))")
  subgoal by auto
  subgoal by auto
  subgoal by auto
  subgoal by (auto simp: res_simps unat_level_Suc dest!: get_shift_le pt_read_level)
  subgoal by auto
  done

declare iter_begin.simps [simp del] iter_scan.simps [simp del]

fun iter_next :: "reader \<Rightarrow> memslots \<Rightarrow> pt_iter \<Rightarrow> (pt_value option \<times> pt_iter) res" where
  "iter_next rd m (PtIter pt r count None) = iter_begin rd m pt r count"
| "iter_next rd m (PtIter pt r count (Some inner)) =
     bind_res (iter_next rd m inner) (\<lambda>(item, inner').
     case item of
       Some v \<Rightarrow> Inr (Some v, PtIter pt r count (Some inner'))
     | None \<Rightarrow> iter_begin rd m pt r count)"

section \<open>What an iterator delivers\<close>

text \<open>
  All the mapped pages of a table in a range, from an index on, in order. A panic of the walk is an
  element of the list, since the pages before it are delivered all the same.
\<close>

function leaves_begin :: "reader \<Rightarrow> memslots \<Rightarrow> page_table \<Rightarrow> range \<Rightarrow> nat \<Rightarrow> pt_value res list"
  and leaves_scan :: "reader \<Rightarrow> memslots \<Rightarrow> page_table \<Rightarrow> range \<Rightarrow> nat \<Rightarrow> nat \<Rightarrow> nat \<Rightarrow> pt_value res list"
  where
  "leaves_begin rd m pt r count =
     (case bind_res (get_index (fst r) (pt_level pt)) (\<lambda>s.
           bind_res (get_index (snd r) (pt_level pt)) (\<lambda>e.
           if unat e + 1 < max count (unat s) then panic ''slice index starts after its end''
           else if length (pt_entries pt) < unat e + 1 then panic ''range end index out of range for slice''
           else Inr (unat s, unat e + 1))) of
        Inl e \<Rightarrow> [Inl e]
      | Inr (start, stop) \<Rightarrow> leaves_scan rd m pt r start stop (max count start))"
| "leaves_scan rd m pt r start stop count =
     (if stop \<le> count then []
      else
        let entry = pt_entries pt ! count in
        case bind_res (get_shift (pt_level pt)) (\<lambda>sh.
             chk_add (pt_virt_addr pt) (push_bit (unat sh) (of_nat count))) of
          Inl e \<Rightarrow> [Inl e]
        | Inr va \<Rightarrow>
        let virt_addr = sign_extend va in
        if \<not> present entry then leaves_scan rd m pt r start stop (count + 1)
        else if pt_level pt = 3 \<or> flags_contain (entry_flags entry) HUGE_PAGE
        then Inr \<lparr>pv_virt_addr = virt_addr, pv_level = pt_level pt, pv_entry = entry\<rparr>
             # leaves_scan rd m pt r start stop (count + 1)
        else
          case bind_res (pt_entry_phys_addr entry m) (\<lambda>pa.
                 bind_res (chk_add (pt_level pt) 1) (\<lambda>l. pt_read rd pa virt_addr l)) of
            Inl (Panic p) \<Rightarrow> [Inl (Panic p)]
          | Inl (Err e) \<Rightarrow> []
          | Inr next_pt \<Rightarrow>
              leaves_begin rd m next_pt (child_range r start stop count) 0
              @ leaves_scan rd m pt r start stop (count + 1))"
  by pat_completeness auto
termination
  apply (relation "inv_image (less_than <*lex*> less_than <*lex*> less_than)
     (\<lambda>x. case x of Inl (rd, m, pt, r, count) \<Rightarrow> (4 - unat (pt_level pt), 1, 0)
        | Inr (rd, m, pt, r, start, stop, count) \<Rightarrow> (4 - unat (pt_level pt), 0::nat, stop - count))")
  subgoal by auto
  subgoal by auto
  subgoal by auto
  subgoal by auto
  subgoal by (auto simp: res_simps unat_level_Suc dest!: get_shift_le pt_read_level)
  subgoal by auto
  done

declare leaves_begin.simps [simp del] leaves_scan.simps [simp del]

fun items :: "reader \<Rightarrow> memslots \<Rightarrow> pt_iter \<Rightarrow> pt_value res list" where
  "items rd m (PtIter pt r count None) = leaves_begin rd m pt r count"
| "items rd m (PtIter pt r count (Some inner)) = items rd m inner @ leaves_begin rd m pt r count"

text \<open>A step delivers the first of the items \<open>vs\<close>, or nothing if there is none.\<close>

definition delivers ::
  "reader \<Rightarrow> memslots \<Rightarrow> pt_value res list \<Rightarrow> (pt_value option \<times> pt_iter) res \<Rightarrow> bool" where
  "delivers rd m vs res \<longleftrightarrow>
     (case vs of
        [] \<Rightarrow> \<exists>it. res = Inr (None, it)
      | Inl e # vs' \<Rightarrow> res = Inl e
      | Inr v # vs' \<Rightarrow> \<exists>it. res = Inr (Some v, it) \<and> items rd m it = vs')"

lemma delivers_simps [simp]:
  "delivers rd m [] (Inr (None, it))"
  "delivers rd m (Inl e # vs) (Inl e)"
  "delivers rd m (Inr v # vs) (Inr (Some v, it)) \<longleftrightarrow> items rd m it = vs"
  by (simp_all add: delivers_def)

lemma delivers_child:
  assumes "delivers rd m vs res" "leaves_begin rd m pt r c = ws" and "vs = [] \<Longrightarrow> delivers rd m ws rest"
  shows "delivers rd m (vs @ ws) (bind_res res (\<lambda>(item, inner).
     case item of Some v \<Rightarrow> Inr (Some v, PtIter pt r c (Some inner)) | None \<Rightarrow> rest))"
proof (cases vs)
  case Nil
  then obtain it where "res = Inr (None, it)" using assms(1) by (auto simp: delivers_def)
  then show ?thesis using assms(3) Nil by simp
next
  case (Cons v vs')
  then show ?thesis using assms by (cases v) (auto simp: delivers_def)
qed

lemma iter_delivers:
  shows "delivers rd m (leaves_begin rd m pt r count) (iter_begin rd m pt r count)"
    and "\<lbrakk>start \<le> count; \<forall>c \<ge> count. c \<le> stop \<longrightarrow> leaves_begin rd m pt r c = leaves_scan rd m pt r start stop c\<rbrakk>
      \<Longrightarrow> delivers rd m (leaves_scan rd m pt r start stop count) (iter_scan rd m pt r start stop count)"
proof (induction rd m pt r count and rd m pt r start stop count rule: iter_begin_iter_scan.induct)
  case (1 rd m pt r count)
  show ?case
  proof (cases "\<exists>s e. get_index (fst r) (pt_level pt) = Inr s \<and> get_index (snd r) (pt_level pt) = Inr e \<and>
      \<not> unat e + 1 < max count (unat s) \<and> \<not> length (pt_entries pt) < unat e + 1")
    case True
    then obtain s e where se: "get_index (fst r) (pt_level pt) = Inr s" "get_index (snd r) (pt_level pt) = Inr e"
      "\<not> unat e + 1 < max count (unat s)" "\<not> length (pt_entries pt) < unat e + 1" by blast
    have eq: "leaves_begin rd m pt r c = leaves_scan rd m pt r (unat s) (unat e + 1) c"
      if "max count (unat s) \<le> c" "c \<le> unat e + 1" for c
      using se that by (simp add: leaves_begin.simps max_absorb1)
    have "leaves_begin rd m pt r count = leaves_scan rd m pt r (unat s) (unat e + 1) (max count (unat s))"
      using se by (simp add: leaves_begin.simps)
    then show ?thesis
      using "1.IH"[OF se(1,2) refl refl refl se(3,4)] se eq by (simp add: iter_begin.simps Let_def)
  next
    case False
    then show ?thesis
      by (cases "get_index (fst r) (pt_level pt)"; cases "get_index (snd r) (pt_level pt)")
        (auto simp: iter_begin.simps leaves_begin.simps Let_def panic_def)
  qed
next
  case (2 rd m pt r start stop count)
  show ?case
  proof (cases "stop \<le> count")
    case True
    then show ?thesis by (simp add: iter_scan.simps leaves_scan.simps)
  next
    case False
    let ?e = "pt_entries pt ! count"
    let ?va = "bind_res (get_shift (pt_level pt)) (\<lambda>sh. chk_add (pt_virt_addr pt) (push_bit (unat sh) (of_nat count)))"
    have nxt: "\<forall>c \<ge> count + 1. c \<le> stop \<longrightarrow> leaves_begin rd m pt r c = leaves_scan rd m pt r start stop c"
      "start \<le> count + 1" and here: "leaves_begin rd m pt r (count + 1) = leaves_scan rd m pt r start stop (count + 1)"
      using "2.prems" False by auto
    note step = iter_scan.simps[of rd m pt r start stop count] leaves_scan.simps[of rd m pt r start stop count]
    show ?thesis
    proof (cases ?va)
      case (Inl e)
      then show ?thesis
        using False by (cases "get_shift (pt_level pt)") (auto simp: step Let_def)
    next
      case (Inr va)
      then obtain sh where sh: "get_shift (pt_level pt) = Inr sh"
        and va: "chk_add (pt_virt_addr pt) (push_bit (unat sh) (of_nat count)) = Inr va"
        by (auto simp: bind_res_Inr)
      let ?rd = "bind_res (pt_entry_phys_addr ?e m) (\<lambda>pa.
                 bind_res (chk_add (pt_level pt) 1) (\<lambda>l. pt_read rd pa (sign_extend va) l))"
      consider (np) "\<not> present ?e" | (leaf) "present ?e" "pt_level pt = 3 \<or> flags_contain (entry_flags ?e) HUGE_PAGE"
        | (tab) "present ?e" "\<not> (pt_level pt = 3 \<or> flags_contain (entry_flags ?e) HUGE_PAGE)" by blast
      then show ?thesis
      proof cases
        case np
        then show ?thesis
          using "2.IH"(1)[OF False refl sh va refl np nxt(2,1)] sh va False by (simp add: step Let_def)
      next
        case leaf
        then show ?thesis using sh va False here by (simp add: step Let_def)
      next
        case tab
        show ?thesis
        proof (cases ?rd)
          case (Inl e)
          then show ?thesis using sh va False tab by (cases e) (simp_all add: step Let_def)
        next
          case (Inr npt)
          note del = "2.IH"(2)[OF False refl sh va refl _ tab(2) Inr]
          have "delivers rd m (leaves_scan rd m pt r start stop (count + 1)) (iter_scan rd m pt r start stop (count + 1))"
            if nil: "leaves_begin rd m npt (child_range r start stop count) 0 = []"
          proof -
            obtain it where "iter_begin rd m npt (child_range r start stop count) 0 = Inr (None, it)"
              using del tab(1) unfolding nil by (auto simp: delivers_def)
            from "2.IH"(3)[OF False refl sh va refl _ tab(2) Inr this refl refl nxt(2,1)] tab(1)
            show ?thesis by simp
          qed
          then show ?thesis
            using delivers_child[OF _ here] del tab sh va False Inr by (simp add: step Let_def)
        qed
      qed
    qed
  qed
qed

lemma iter_next_delivers: "delivers rd m (items rd m it) (iter_next rd m it)"
proof (induction rd m it rule: iter_next.induct)
  case (2 rd m pt r count inner)
  from delivers_child[OF this refl iter_delivers(1)] show ?case by simp
qed (simp add: iter_delivers(1))

section \<open>Properties\<close>

text \<open>
  C15: The lazy iterator is equivalent to a plain recursive walk: \<^verbatim>\<open>next\<close> returns the first page the
  walk finds in the rest of the iterator's range and leaves an iterator for exactly the others,
  returns \<^verbatim>\<open>None\<close> when the walk finds nothing, and panics when that is how the walk starts.
\<close>

theorem iter_next_items:
  "case items rd m it of
     [] \<Rightarrow> \<exists>it'. iter_next rd m it = Inr (None, it')
   | Inl e # vs \<Rightarrow> iter_next rd m it = Inl e
   | Inr v # vs \<Rightarrow> \<exists>it'. iter_next rd m it = Inr (Some v, it') \<and> items rd m it' = vs"
  using iter_next_delivers[of rd m it] by (simp add: delivers_def)

text \<open>A table whose first two entries map pages, at level 3.\<close>

definition iter_ex_table :: page_table where
  "iter_ex_table = \<lparr>pt_entries = [0x5001, 0x6003, 0], pt_virt_addr = 0x200000,
     pt_phys_addr = \<lparr>pa_value = 0, pa_host_offset = 0\<rparr>, pt_level = 3\<rparr>"

theorem iter_next_items_witness:
  "\<exists>it'. iter_next (\<lambda>h. Inr []) [] (pt_iter_new iter_ex_table (0x200000, 0x201000)) =
      Inr (Some \<lparr>pv_virt_addr = 0x200000, pv_level = 3, pv_entry = 0x5001\<rparr>, it') \<and>
    items (\<lambda>h. Inr []) [] it' = [Inr \<lparr>pv_virt_addr = 0x201000, pv_level = 3, pv_entry = 0x6003\<rparr>]"
proof -
  have "items (\<lambda>h. Inr []) [] (pt_iter_new iter_ex_table (0x200000, 0x201000)) =
      [Inr \<lparr>pv_virt_addr = 0x200000, pv_level = 3, pv_entry = 0x5001\<rparr>,
       Inr \<lparr>pv_virt_addr = 0x201000, pv_level = 3, pv_entry = 0x6003\<rparr>]"
    by code_simp
  with iter_next_items[of "\<lambda>h. Inr []" "[]" "pt_iter_new iter_ex_table (0x200000, 0x201000)"]
  show ?thesis by simp
qed

end
