(* ===== verification/Page_Map.thy ===== *)
theory Page_Map
  imports Page_Walk
begin

text \<open>
  The loops of \<^verbatim>\<open>map_memory_single\<close> and \<^verbatim>\<open>map_memory\<close>: the invariant through all of them, the pages
  they map, the number of tables they allocate, and the properties of the whole.
\<close>

section \<open>The innermost loop\<close>

text \<open>\<open>d\<close> pages have been mapped between two states; \<open>b\<close> tells whether the length is used up.\<close>

definition advanced :: "map_state \<Rightarrow> map_state \<Rightarrow> nat \<Rightarrow> bool \<Rightarrow> bool" where
  "advanced s s' d b \<longleftrightarrow>
     pa_value (cur_phys s') = pa_value (cur_phys s) + of_nat d * PAGE_SIZE \<and>
     unat (cur_len s') + 4096 * d = unat (cur_len s) \<and> (b \<longrightarrow> 0 < d) \<and>
     (cur_len s \<noteq> 0 \<longrightarrow> (b \<longleftrightarrow> cur_len s' = 0))"

definition leaf :: "prot_flags \<Rightarrow> usize \<Rightarrow> nat \<Rightarrow> page_table_entry" where
  "leaf prot a k = (a + of_nat k * PAGE_SIZE) OR page_table_flags prot"

lemma advanced_trans:
  "\<lbrakk>advanced s s1 d1 False; advanced s1 s2 d2 b\<rbrakk> \<Longrightarrow> advanced s s2 (d1 + d2) b"
  by (auto simp: advanced_def algebra_simps)

lemma leaf_add: "leaf prot (a + of_nat d * PAGE_SIZE) k = leaf prot a (d + k)"
  by (simp add: leaf_def algebra_simps)

lemma level3_loop_ok:
  assumes "level3_loop prot t is s = Inr (b, s')" "wf_state rd m lo s" "t < length (heap s)"
    and "distinct is" "\<forall>i \<in> set is. i < 512"
  shows "wf_state rd m lo s' \<and> ext rd m s s' \<and> borrowed s' = borrowed s \<and> pt_addr s' = pt_addr s \<and>
    (\<exists>d \<le> length is. advanced s s' d b \<and> (\<not> b \<longrightarrow> d = length is) \<and>
      (\<forall>k < d. present (leaf prot (pa_value (cur_phys s)) k) \<and>
         entry_at s' t (is ! k) = leaf prot (pa_value (cur_phys s)) k))"
  using assms
proof (induction "is" arbitrary: s)
  case Nil
  then show ?case by (auto simp: advanced_def)
next
  case (Cons i "is")
  let ?a = "pa_value (cur_phys s)"
  let ?e = "?a OR page_table_flags prot"
  let ?s1 = "(set_entry t i ?e s)\<lparr>cur_phys := (cur_phys s)\<lparr>pa_value := ?a + PAGE_SIZE\<rparr>,
    cur_len := cur_len s - PAGE_SIZE\<rparr>"
  have np: "\<not> present (entry_at s t i)" and al: "is_page_aligned ?a"
    and le: "PAGE_SIZE \<le> cur_len s"
    and res: "(if cur_len s - PAGE_SIZE = 0 then Inr (True, ?s1) else level3_loop prot t is ?s1) = Inr (b, s')"
    using Cons.prems(1)
    by (auto simp: res_simps entry_set_addr_def pa_is_page_aligned_def Let_def split: if_splits)
  note set = set_entry_ok[OF Cons.prems(2,3) np, of ?e]
  have s1: "wf_state rd m lo ?s1" "ext rd m s ?s1" "t < length (heap ?s1)"
    using set Cons.prems(3) by simp_all
  have adv: "advanced s ?s1 1 (cur_len ?s1 = 0)"
    using le by (auto simp: advanced_def unat_sub word_le_nat_alt)
  have pr: "present ?e"
    by (rule entry_of_addr(2)[OF al page_table_flags_bits(2)])
  have e1: "entry_at ?s1 t i = ?e"
    using Cons.prems by (simp add: entry_at_set_entry[OF Cons.prems(2,3)])
  show ?case
  proof (cases "cur_len s - PAGE_SIZE = 0")
    case True
    then have "b" "s' = ?s1" using res by auto
    with s1 adv True pr e1 show ?thesis
      by (intro conjI exI[of _ 1]) (simp_all add: leaf_def)
  next
    case False
    then have rest: "level3_loop prot t is ?s1 = Inr (b, s')" using res by simp
    from Cons.IH[OF rest s1(1,3)] Cons.prems obtain d where
      IH: "wf_state rd m lo s'" "ext rd m ?s1 s'" "borrowed s' = borrowed s" "pt_addr s' = pt_addr s"
        "d \<le> length is" "advanced ?s1 s' d b" "\<not> b \<longrightarrow> d = length is"
        "\<forall>k < d. present (leaf prot (?a + PAGE_SIZE) k) \<and>
           entry_at s' t (is ! k) = leaf prot (?a + PAGE_SIZE) k"
      by auto
    have "advanced s s' (1 + d) b"
      using advanced_trans[of s ?s1 1 s' d b] adv False IH(6) by simp
    moreover have "entry_at s' t i = ?e"
      using IH(2) e1 pr s1(3) Cons.prems(5) unfolding ext_def by (metis list.set_intros(1))
    moreover have "present (leaf prot ?a k) \<and> entry_at s' t ((i # is) ! k) = leaf prot ?a k"
      if "k < Suc d" for k
      using that IH(8) leaf_add[of prot ?a 1] pr \<open>entry_at s' t i = ?e\<close>
      by (cases k) (simp_all add: leaf_def)
    ultimately show ?thesis
      using IH ext_trans[OF s1(2) IH(2)] by (intro conjI exI[of _ "Suc d"]) simp_all
  qed
qed

section \<open>The outer loops\<close>

text \<open>A loop over a table keeps the invariant, every present entry and the borrows.\<close>

definition good_loop ::
  "reader \<Rightarrow> memslots \<Rightarrow> nat \<Rightarrow> (nat \<Rightarrow> nat \<Rightarrow> map_state \<Rightarrow> (bool \<times> map_state) res) \<Rightarrow> bool" where
  "good_loop rd m lo f \<longleftrightarrow> (\<forall>t start s b s'.
     f t start s = Inr (b, s') \<and> wf_state rd m lo s \<and> t < length (heap s) \<longrightarrow>
     wf_state rd m lo s' \<and> ext rd m s s' \<and> borrowed s' = borrowed s)"

lemma good_loopD:
  assumes "good_loop rd m lo f" "f t start s = Inr (b, s')" "wf_state rd m lo s" "t < length (heap s)"
  shows "wf_state rd m lo s'" "ext rd m s s'" "borrowed s' = borrowed s"
  using assms by (auto simp: good_loop_def)

lemma ext_length: "ext rd m s s' \<Longrightarrow> t < length (heap s) \<Longrightarrow> t < length (heap s')"
  by (simp add: ext_def)

text \<open>One iteration of an outer loop.\<close>

lemma upper_loop_Cons:
  assumes "upper_loop rd m virt level f t start (i # is) s = Inr (b, s')"
    and "wf_state rd m lo s" "t < length (heap s)" "start + i < 512" "good_loop rd m lo f"
  obtains start' t' s1 brk s3 where
    "get_start_idx virt i level = Inr start'"
    "get_page_table rd m t (start + i) s = Inr (t', s1)"
    "f t' start' (s1\<lparr>borrowed := t' # borrowed s\<rparr>) = Inr (brk, s3)"
    "wf_state rd m lo s1" "t' < length (heap s1)" "ext rd m s s1"
    "cur_phys s1 = cur_phys s" "cur_len s1 = cur_len s"
    "wf_state rd m lo s3" "ext rd m s1 s3" "ext rd m s s3"
    "(if brk then Inr (True, s3\<lparr>borrowed := borrowed s\<rparr>)
      else upper_loop rd m virt level f t start is (s3\<lparr>borrowed := borrowed s\<rparr>)) = Inr (b, s')"
proof -
  obtain start' t' s1 brk s3 where
    st: "get_start_idx virt i level = Inr start'" and
    get: "get_page_table rd m t (start + i) s = Inr (t', s1)" and
    f: "f t' start' (s1\<lparr>borrowed := t' # borrowed s1\<rparr>) = Inr (brk, s3)" and
    rest: "(if brk then Inr (True, release t' s3)
      else upper_loop rd m virt level f t start is (release t' s3)) = Inr (b, s')"
    using assms(1) by (auto simp: res_simps Let_def borrow_mut_def split: prod.splits if_splits)
  note g = get_page_table_ok[OF get assms(2,3,4)]
  note h = good_loopD[OF assms(5) f]
  have s3: "wf_state rd m lo s3" "ext rd m s1 s3" "borrowed s3 = t' # borrowed s"
    using h g by simp_all
  then have rel: "release t' s3 = s3\<lparr>borrowed := borrowed s\<rparr>"
    by (simp add: release_def)
  show thesis
    using that[OF st get f[unfolded g(4)] g(1,3,2,5,6) s3(1,2) ext_trans[OF g(2) s3(2)] rest[unfolded rel]] .
qed

lemma upper_loop_good:
  assumes "upper_loop rd m virt level f t start is s = Inr (b, s')"
    and "wf_state rd m lo s" "t < length (heap s)" "\<forall>i \<in> set is. start + i < 512"
    and "good_loop rd m lo f"
  shows "wf_state rd m lo s' \<and> ext rd m s s' \<and> borrowed s' = borrowed s"
  using assms(1-4)
proof (induction "is" arbitrary: s)
  case (Cons i "is")
  have i: "start + i < 512" using Cons.prems(4) by simp
  obtain s3 brk where s3: "wf_state rd m lo s3" "ext rd m s s3"
      and rest: "(if brk then Inr (True, s3\<lparr>borrowed := borrowed s\<rparr>)
        else upper_loop rd m virt level f t start is (s3\<lparr>borrowed := borrowed s\<rparr>)) = Inr (b, s')"
    by (rule upper_loop_Cons[OF Cons.prems(1-3) i assms(5)])
  let ?s4 = "s3\<lparr>borrowed := borrowed s\<rparr>"
  have s4: "wf_state rd m lo ?s4" "ext rd m s ?s4" "t < length (heap ?s4)"
    using s3 ext_length[OF s3(2) Cons.prems(3)] by simp_all
  show ?case
  proof (cases brk)
    case True
    with rest s4 show ?thesis by auto
  next
    case False
    with rest have "upper_loop rd m virt level f t start is ?s4 = Inr (b, s')" by simp
    from Cons.IH[OF this s4(1,3)] Cons.prems(4) s4(2) show ?thesis by (auto intro: ext_trans)
  qed
qed simp

lemma good_level3: "good_loop rd m lo (level3 prot)"
  unfolding good_loop_def level3_def
proof (intro allI impI)
  fix t start s b s'
  assume "level3_loop prot t [start..<512] s = Inr (b, s') \<and> wf_state rd m lo s \<and> t < length (heap s)"
  then show "wf_state rd m lo s' \<and> ext rd m s s' \<and> borrowed s' = borrowed s"
    using level3_loop_ok[of prot t "[start..<512]" s b s' rd m lo] by auto
qed

lemma good_upper:
  "good_loop rd m lo f \<Longrightarrow> good_loop rd m lo (\<lambda>t start. upper_loop rd m virt level f t start [0..<512 - start])"
  unfolding good_loop_def[of _ _ _ "\<lambda>t start. upper_loop rd m virt level f t start [0..<512 - start]"]
  by (intro allI impI, elim conjE, rule upper_loop_good) auto

lemma good_level2: "good_loop rd m lo (level2 rd m virt prot)"
  using good_upper[OF good_level3] by (simp add: level2_def[abs_def])

lemma good_level1: "good_loop rd m lo (level1 rd m virt prot)"
  using good_upper[OF good_level2] by (simp add: level1_def[abs_def])

section \<open>Mapping within one page directory\<close>

text \<open>
  The pages below the level-2 table \<open>t\<close> are numbered 0 to 512 * 512 - 1: page \<open>q\<close> is mapped by
  entry \<open>q mod 512\<close> of the table that entry \<open>q div 512\<close> points to.
\<close>

definition mapped :: "map_state \<Rightarrow> nat \<Rightarrow> nat \<Rightarrow> page_table_entry \<Rightarrow> bool" where
  "mapped s t q e \<longleftrightarrow> present e \<and>
     (\<exists>t3 < length (heap s). linked s t (q div 512) t3 \<and> entry_at s t3 (q mod 512) = e)"

lemma mapped_ext:
  assumes "mapped s t q e" "ext rd m s s'"
  shows "mapped s' t q e"
proof -
  obtain t3 where t3: "t3 < length (heap s)" "linked s t (q div 512) t3"
    "entry_at s t3 (q mod 512) = e" "present e"
    using assms(1) by (auto simp: mapped_def)
  have "entry_at s' t3 (q mod 512) = e"
    using assms(2) t3(1,3,4) by (simp add: ext_def)
  then show ?thesis
    using t3 linked_ext[OF t3(2) assms(2)] ext_length[OF assms(2) t3(1)] by (auto simp: mapped_def)
qed

lemma mapped_upd [simp]: "mapped (s\<lparr>borrowed := b\<rparr>) t q e = mapped s t q e"
  by (simp add: mapped_def linked_def)

lemma advanced_upd [simp]:
  "advanced (s\<lparr>borrowed := b\<rparr>) s' d c = advanced s s' d c"
  "advanced s (s'\<lparr>borrowed := b\<rparr>) d c = advanced s s' d c"
  by (simp_all add: advanced_def)

definition start_idx :: "usize \<Rightarrow> nat \<Rightarrow> nat" where
  "start_idx virt i = (if i = 0 then virt_index virt 3 else 0)"

lemma start_idx_less: "start_idx virt i < 512"
  by (simp add: start_idx_def virt_index_def)

lemma get_start_idx_3: "get_start_idx virt i 3 = Inr st \<Longrightarrow> st = start_idx virt i"
  using get_index_levels(4)[of virt]
  by (auto simp: get_start_idx_def start_idx_def virt_index_def res_simps split: if_splits)

lemma ext_pt_addr: "ext rd m s s' \<Longrightarrow> unat (pa_value (pt_addr s)) \<le> unat (pa_value (pt_addr s'))"
  by (simp add: ext_def word_le_nat_alt)

text \<open>One table of the level-2 loop: consecutive pages from page \<open>q\<close>.\<close>

lemma level3_mapped:
  assumes "level3 prot t3 st s = Inr (b, s')" "wf_state rd m lo s" "t3 < length (heap s)"
    and "linked s t i t3" "st < 512"
  shows "pt_addr s' = pt_addr s \<and>
    (\<exists>d \<le> 512 - st. advanced s s' d b \<and> (\<not> b \<longrightarrow> d = 512 - st) \<and>
      (\<forall>k < d. mapped s' t (i * 512 + st + k) (leaf prot (pa_value (cur_phys s)) k)))"
proof -
  have "distinct [st..<512]" "\<forall>i \<in> set [st..<512]. i < 512" by auto
  from level3_loop_ok[OF assms(1)[unfolded level3_def] assms(2,3) this]
  obtain d where d: "ext rd m s s'" "pt_addr s' = pt_addr s" "d \<le> 512 - st" "advanced s s' d b"
    "\<not> b \<longrightarrow> d = 512 - st"
    "\<forall>k < d. present (leaf prot (pa_value (cur_phys s)) k) \<and>
       entry_at s' t3 ([st..<512] ! k) = leaf prot (pa_value (cur_phys s)) k"
    unfolding length_upt by blast
  have "mapped s' t (i * 512 + st + k) (leaf prot (pa_value (cur_phys s)) k)" if "k < d" for k
  proof -
    have k: "st + k < 512" using that d(3) by simp
    then have "(i * 512 + st + k) div 512 = i" "(i * 512 + st + k) mod 512 = st + k"
      "[st..<512] ! k = st + k"
      by (simp_all add: add.assoc)
    then show ?thesis
      using d(6)[rule_format, OF that] linked_ext[OF assms(4) d(1)] ext_length[OF d(1) assms(3)]
      unfolding mapped_def by (intro conjI exI[of _ t3]) simp_all
  qed
  with d show ?thesis by blast
qed

text \<open>One iteration of the level-2 loop, on entry \<open>start + i\<close>.\<close>

lemma level2_step:
  assumes up: "upper_loop rd m virt 3 (level3 prot) t start (i # js) s = Inr (b, s')"
    and wf: "wf_state rd m lo s" and t: "t < length (heap s)" and si: "start + i < 512"
    and js: "\<forall>j \<in> set js. start + j < 512" and pt: "unat (pa_value (pt_addr s')) \<le> 2 ^ 52"
  defines "q \<equiv> (start + i) * 512 + start_idx virt i"
  obtains brk s4 d where
    "wf_state rd m lo s4" "t < length (heap s4)" "ext rd m s4 s'"
    "unat (pa_value (pt_addr s4)) \<le> unat (pa_value (pt_addr s)) + 4096"
    "advanced s s4 d brk" "\<not> brk \<longrightarrow> d = 512 - start_idx virt i"
    "\<forall>k < d. mapped s4 t (q + k) (leaf prot (pa_value (cur_phys s)) k)"
    "(if brk then Inr (True, s4) else upper_loop rd m virt 3 (level3 prot) t start js s4) = Inr (b, s')"
proof -
  obtain st t3 s1 brk s3 where
    st: "get_start_idx virt i 3 = Inr st" and
    get: "get_page_table rd m t (start + i) s = Inr (t3, s1)" and
    l3: "level3 prot t3 st (s1\<lparr>borrowed := t3 # borrowed s\<rparr>) = Inr (brk, s3)" and
    s1: "wf_state rd m lo s1" "t3 < length (heap s1)" "ext rd m s s1"
      "cur_phys s1 = cur_phys s" "cur_len s1 = cur_len s" and
    s3: "wf_state rd m lo s3" "ext rd m s1 s3" "ext rd m s s3" and
    rest: "(if brk then Inr (True, s3\<lparr>borrowed := borrowed s\<rparr>)
      else upper_loop rd m virt 3 (level3 prot) t start js (s3\<lparr>borrowed := borrowed s\<rparr>)) = Inr (b, s')"
    by (rule upper_loop_Cons[OF up wf t si good_level3])
  let ?s4 = "s3\<lparr>borrowed := borrowed s\<rparr>"
  have s4: "wf_state rd m lo ?s4" "t < length (heap ?s4)"
    using s3 ext_length[OF s3(3) t] by simp_all
  have ex4: "ext rd m ?s4 s'"
    using rest upper_loop_good[of rd m virt 3 "level3 prot" t start js ?s4 b s' lo] s4 js good_level3
    by (auto split: if_splits)
  have pt1: "unat (pa_value (pt_addr s1)) \<le> 2 ^ 52"
    using ext_pt_addr[OF s3(2)] ext_pt_addr[OF ex4] pt by simp
  have stq: "st = start_idx virt i" by (rule get_start_idx_3[OF st])
  have lk: "linked (s1\<lparr>borrowed := t3 # borrowed s\<rparr>) t (start + i) t3"
    using get_page_table_ok(8)[OF get wf t si pt1] by (simp add: linked_def)
  have st512: "st < 512" by (simp add: stq start_idx_less)
  have adv: "advanced s1 s3 d c = advanced s s3 d c" for d c
    using s1(4,5) by (simp add: advanced_def)
  have "wf_state rd m lo (s1\<lparr>borrowed := t3 # borrowed s\<rparr>)"
    "t3 < length (heap (s1\<lparr>borrowed := t3 # borrowed s\<rparr>))" using s1 by simp_all
  from level3_mapped[OF l3 this lk st512] obtain d1 where
    d1: "advanced s s3 d1 brk" "\<not> brk \<longrightarrow> d1 = 512 - st" "pt_addr s3 = pt_addr s1"
      "\<forall>k < d1. mapped s3 t (q + k) (leaf prot (pa_value (cur_phys s)) k)"
    by (auto simp: stq adv q_def s1(4))
  have ptb: "unat (pa_value (pt_addr s3)) \<le> unat (pa_value (pt_addr s)) + 4096"
    using get_page_table_ok(7)[OF get wf t si] d1(3) by simp
  show thesis
    by (rule that[OF s4 ex4 _ _ _ _ rest]) (use d1 ptb stq in auto)
qed

text \<open>
  The level-2 loop from its \<open>i\<close>-th entry on: it maps \<open>d\<close> consecutive pages from page \<open>q\<close>, up to
  the end of the page directory unless the length is used up before, and allocates at most one
  table for each entry of the directory it passes.
\<close>

lemma level2_loop_mapped:
  assumes "upper_loop rd m virt 3 (level3 prot) t start [i..<512 - start] s = Inr (b, s')"
    and "wf_state rd m lo s" "t < length (heap s)" "start < 512" "i \<le> 512 - start"
    and "unat (pa_value (pt_addr s')) \<le> 2 ^ 52"
  defines "q \<equiv> (start + i) * 512 + start_idx virt i"
  shows "\<exists>d. advanced s s' d b \<and> (\<not> b \<longrightarrow> q + d = 512 * 512) \<and>
    (\<forall>k < d. mapped s' t (q + k) (leaf prot (pa_value (cur_phys s)) k)) \<and>
    unat (pa_value (pt_addr s')) \<le>
      unat (pa_value (pt_addr s)) + 4096 * ((q + d + 511) div 512 - (start + i))"
  using assms(1-6) unfolding q_def
proof (induction "[i..<512 - start]" arbitrary: i s)
  case Nil
  then have "i = 512 - start" "i \<noteq> 0"
    using upt_eq_Nil_conv[of i "512 - start"] by auto
  with Nil show ?case by (intro exI[of _ 0]) (auto simp: advanced_def start_idx_def)
next
  case (Cons j js)
  let ?q = "(start + i) * 512 + start_idx virt i"
  have i: "i < 512 - start" "j = i" "js = [Suc i..<512 - start]"
    using Cons.hyps(2)[symmetric] unfolding upt_eq_Cons_conv by auto
  have up: "upper_loop rd m virt 3 (level3 prot) t start (i # js) s = Inr (b, s')"
    using Cons.prems(1) Cons.hyps(2) i by simp
  have si: "start + i < 512" and js: "\<forall>j \<in> set js. start + j < 512" using i by auto
  obtain brk s4 d1 where
    s4: "wf_state rd m lo s4" "t < length (heap s4)" "ext rd m s4 s'"
      "unat (pa_value (pt_addr s4)) \<le> unat (pa_value (pt_addr s)) + 4096" and
    d1: "advanced s s4 d1 brk" "\<not> brk \<longrightarrow> d1 = 512 - start_idx virt i"
      "\<forall>k < d1. mapped s4 t (?q + k) (leaf prot (pa_value (cur_phys s)) k)" and
    rest: "(if brk then Inr (True, s4) else upper_loop rd m virt 3 (level3 prot) t start js s4)
      = Inr (b, s')"
    by (rule level2_step[OF up Cons.prems(2,3) si js Cons.prems(6)])
  show ?case
  proof (cases brk)
    case True
    then have "0 < d1" using d1(1) by (simp add: advanced_def)
    then have "1 \<le> (?q + d1 + 511) div 512 - (start + i)"
      by (simp add: div_add_self1 le_diff_conv2 algebra_simps)
    then show ?thesis
      using True rest d1 s4(4) by (intro exI[of _ d1]) auto
  next
    case False
    have q': "(start + Suc i) * 512 + start_idx virt (Suc i) = ?q + d1"
      using d1(2) False start_idx_less[of virt i] by (simp add: start_idx_def)
    have rest': "upper_loop rd m virt 3 (level3 prot) t start [Suc i..<512 - start] s4 = Inr (b, s')"
      using rest False i by simp
    from Cons.hyps(1)[OF i(3) rest' s4(1,2) Cons.prems(4) _ Cons.prems(6)] i(1) obtain d2 where
      d2: "advanced s4 s' d2 b" "\<not> b \<longrightarrow> ?q + d1 + d2 = 512 * 512"
        "\<forall>k < d2. mapped s' t (?q + d1 + k) (leaf prot (pa_value (cur_phys s4)) k)"
        "unat (pa_value (pt_addr s')) \<le> unat (pa_value (pt_addr s4)) +
           4096 * ((?q + d1 + d2 + 511) div 512 - (start + Suc i))"
      unfolding q' by auto
    have pa: "pa_value (cur_phys s4) = pa_value (cur_phys s) + of_nat d1 * PAGE_SIZE"
      using d1(1) by (simp add: advanced_def)
    have mp: "mapped s' t (?q + k) (leaf prot (pa_value (cur_phys s)) k)" if "k < d1 + d2" for k
    proof (cases "k < d1")
      case True
      then show ?thesis using d1(3) mapped_ext[OF _ s4(3)] by simp
    next
      case nk: False
      then have k: "k - d1 < d2" "d1 + (k - d1) = k" using that by auto
      then show ?thesis using d2(3)[rule_format, OF k(1)] by (simp add: pa leaf_add add.assoc)
    qed
    have "start + Suc i \<le> (?q + d1 + d2 + 511) div 512"
      using q' by (simp only: less_eq_div_iff_mult_less_eq zero_less_numeral)
    then have "unat (pa_value (pt_addr s')) \<le> unat (pa_value (pt_addr s)) +
           4096 * ((?q + (d1 + d2) + 511) div 512 - (start + i))"
      using d2(4) s4(4) by (simp add: add.assoc Suc_diff_le)
    then show ?thesis
      using d2(2) mp advanced_trans[of s s4 d1 s' d2 b] d1(1) d2(1) False
      by (intro exI[of _ "d1 + d2"]) (simp add: add.assoc)
  qed
qed

text \<open>The indices of the pages of a region within one GiB.\<close>

definition page_in_gib :: "usize \<Rightarrow> nat" where
  "page_in_gib v = unat v mod 2 ^ 30 div 4096"

lemma mod_mult_div: "0 < (a::nat) \<Longrightarrow> x mod (a * b) div a = x div a mod b"
  by (simp add: mod_mult2_eq)

lemma virt_index_gib:
  "virt_index v 2 = page_in_gib v div 512" "virt_index v 3 = page_in_gib v mod 512"
proof -
  have q: "page_in_gib v = unat v div 4096 mod (512 * 512)"
    using mod_mult_div[of 4096 "unat v" "512 * 512"] by (simp add: page_in_gib_def)
  show "virt_index v 3 = page_in_gib v mod 512"
    by (simp add: q virt_index_def mod_mod_cancel)
  have "page_in_gib v div 512 = unat v div 4096 div 512 mod 512"
    unfolding q by (rule mod_mult_div) simp
  also have "\<dots> = unat v div 2097152 mod 512"
    using div_mult2_eq[of "unat v" 4096 512] by simp
  finally show "virt_index v 2 = page_in_gib v div 512"
    by (simp add: virt_index_def)
qed

text \<open>
  A mapping that fits below one level-2 table is mapped there completely, by at most
  \<open>(p + 1022) div 512\<close> new page tables for \<open>p\<close> pages.
\<close>

lemma level2_fits:
  assumes l2: "level2 rd m virt prot t (virt_index virt 2) s = Inr (b, s')"
    and wf: "wf_state rd m lo s" and t: "t < length (heap s)"
    and pt: "unat (pa_value (pt_addr s')) \<le> 2 ^ 52"
    and len: "unat (cur_len s) = 4096 * p" "0 < p"
    and fits: "page_in_gib virt + p \<le> 512 * 512"
  shows "b" and "\<forall>k < p. mapped s' t (page_in_gib virt + k)
      (leaf prot (pa_value (cur_phys s)) k)"
    and "unat (pa_value (pt_addr s')) \<le> unat (pa_value (pt_addr s)) + 4096 * ((p + 1022) div 512)"
proof -
  let ?i = "virt_index virt 2" and ?st = "virt_index virt 3"
  have lt: "?i < 512" "?st < 512" by (simp_all add: virt_index_def)
  have q: "?i * 512 + ?st = page_in_gib virt" by (simp add: virt_index_gib)
  have nz: "cur_len s \<noteq> 0" using len by auto
  from level2_loop_mapped[OF l2[unfolded level2_def] wf t lt(1) _ pt] obtain d where
    d: "advanced s s' d b" "\<not> b \<longrightarrow> ?i * 512 + ?st + d = 512 * 512"
      "\<forall>k < d. mapped s' t (?i * 512 + ?st + k) (leaf prot (pa_value (cur_phys s)) k)"
      "unat (pa_value (pt_addr s')) \<le>
         unat (pa_value (pt_addr s)) + 4096 * ((?i * 512 + ?st + d + 511) div 512 - ?i)"
    by (auto simp: start_idx_def)
  have le: "unat (cur_len s') + 4096 * d = 4096 * p" and bl: "b \<longleftrightarrow> cur_len s' = 0"
    using d(1) len nz by (auto simp: advanced_def)
  show b
  proof (rule ccontr)
    assume "\<not> b"
    then have "p \<le> d" using d(2) fits q by simp
    then have "unat (cur_len s') = 0" using le by simp
    with bl \<open>\<not> b\<close> show False by (simp add: unat_eq_0)
  qed
  then have "d = p" using bl le by simp
  then show "\<forall>k < p. mapped s' t (page_in_gib virt + k) (leaf prot (pa_value (cur_phys s)) k)"
    using d(3) unfolding q by simp
  have "(?i * 512 + ?st + d + 511) div 512 - ?i = (?st + d + 511) div 512"
    by (simp add: add.assoc)
  also have "\<dots> \<le> (p + 1022) div 512"
    using lt(2) \<open>d = p\<close> by (intro div_le_mono) simp
  finally show "unat (pa_value (pt_addr s')) \<le> unat (pa_value (pt_addr s)) + 4096 * ((p + 1022) div 512)"
    using d(4) by simp
qed

text \<open>An outer loop whose first iteration breaks.\<close>

lemma upper_loop_first:
  assumes up: "upper_loop rd m virt level f t start [0..<512 - start] s = Inr (b, s')"
    and wf: "wf_state rd m lo s" and t: "t < length (heap s)" and st: "start < 512"
    and f: "good_loop rd m lo f"
    and idx: "get_start_idx virt 0 level = Inr start'"
    and brk: "\<And>t' s1 brk s3. \<lbrakk>f t' start' s1 = Inr (brk, s3); wf_state rd m lo s1; t' < length (heap s1);
        cur_len s1 = cur_len s; ext rd m s3 s'\<rbrakk> \<Longrightarrow> brk"
    and pt: "unat (pa_value (pt_addr s')) \<le> 2 ^ 52"
  obtains t' s1 s3 where "b" "f t' start' s1 = Inr (True, s3)"
    "wf_state rd m lo s1" "t' < length (heap s1)"
    "cur_phys s1 = cur_phys s" "cur_len s1 = cur_len s"
    "ext rd m s s1" "linked s' t start t'" "wf_state rd m lo s'" "ext rd m s3 s'"
    "pt_addr s' = pt_addr s3"
    "unat (pa_value (pt_addr s1)) \<le> unat (pa_value (pt_addr s)) + 4096"
proof -
  have up': "upper_loop rd m virt level f t start (0 # [Suc 0..<512 - start]) s = Inr (b, s')"
    using up st by (simp add: upt_rec[of 0])
  have st0: "start + 0 < 512" using st by simp
  obtain start'' t' s1 br s3 where
    idx': "get_start_idx virt 0 level = Inr start''" and
    get: "get_page_table rd m t (start + 0) s = Inr (t', s1)" and
    fs: "f t' start'' (s1\<lparr>borrowed := t' # borrowed s\<rparr>) = Inr (br, s3)" and
    s1: "wf_state rd m lo s1" "t' < length (heap s1)" "ext rd m s s1"
    "cur_phys s1 = cur_phys s" "cur_len s1 = cur_len s" and
    s3: "wf_state rd m lo s3" "ext rd m s1 s3" "ext rd m s s3" and
    rest: "(if br then Inr (True, s3\<lparr>borrowed := borrowed s\<rparr>)
      else upper_loop rd m virt level f t start [Suc 0..<512 - start] (s3\<lparr>borrowed := borrowed s\<rparr>))
      = Inr (b, s')"
    by (rule upper_loop_Cons[OF up' wf t st0 f])
  let ?s1 = "s1\<lparr>borrowed := t' # borrowed s\<rparr>"
  have fs': "f t' start' ?s1 = Inr (br, s3)" using fs idx idx' by simp
  have "\<forall>i \<in> set [Suc 0..<512 - start]. start + i < 512" by auto
  then have "ext rd m (s3\<lparr>borrowed := borrowed s\<rparr>) s'"
    using rest upper_loop_good[of rd m virt level f t start "[Suc 0..<512 - start]"
        "s3\<lparr>borrowed := borrowed s\<rparr>" b s' lo] s3 ext_length[OF s3(3) t] f
    by (auto split: if_splits)
  then have ex: "ext rd m s3 s'" by simp
  have br: br by (rule brk[OF fs' _ _ _ ex]) (use s1 in auto)
  then have s': "s' = s3\<lparr>borrowed := borrowed s\<rparr>" "b" using rest by auto
  have "linked s1 t (start + 0) t'"
    by (rule get_page_table_ok(8)[OF get wf t st0]) (use ext_pt_addr[OF s3(2)] pt s' in simp)
  then have "linked s' t start t'" using s3(2) ex by (auto intro: linked_ext)
  then show thesis
    using that[of t' ?s1 s3] fs' br s1 s3 ex s' get_page_table_ok(7)[OF get wf t st0] by simp
qed

section \<open>One mapping\<close>

lemma map_memory_single_good:
  assumes "map_memory_single rd m pml4 mm s = Inr s'" "wf_state rd m lo s" "pml4 < length (heap s)"
  shows "wf_state rd m lo s' \<and> ext rd m s s' \<and> borrowed s' = borrowed s"
proof -
  obtain start0 :: u64 and b where
    "upper_loop rd m (mm_virt_start mm) 1 (level1 rd m (mm_virt_start mm) (mm_prot mm)) pml4
       (unat start0) [0..<512 - unat start0]
       (s\<lparr>cur_phys := mm_phys_start mm, cur_len := mm_len mm\<rparr>) = Inr (b, s')"
    using assms(1) by (auto simp: map_memory_single_def Let_def res_simps)
  moreover have "\<forall>i \<in> set [0..<512 - unat start0]. unat start0 + i < 512" by auto
  ultimately show ?thesis
    using upper_loop_good[OF _ _ _ _ good_level1, of rd m _ 1 _ _ pml4 _ _ _ b s' lo] assms(2,3) by fastforce
qed

lemma walk_linked:
  assumes "map_of (upsert_tables s) a = Some t" "linked s t i t'" "is \<noteq> []"
  shows "walk (view rd m s) a (i # is) = walk (view rd m s) (entry_addr (entry_at s t i)) is"
  using assms by (simp add: view_def linked_def entry_at_def)

lemma walk_mapped:
  assumes "map_of (upsert_tables s) a = Some t0" "linked s t0 i0 t1" "linked s t1 i1 t2"
    and "mapped s t2 q e"
  shows "walk (view rd m s) a [i0, i1, q div 512, q mod 512] = Some (0, e)"
proof -
  obtain t3 where t3: "linked s t2 (q div 512) t3" "entry_at s t3 (q mod 512) = e" "present e"
    using assms(4) by (auto simp: mapped_def)
  have "walk (view rd m s) a [i0, i1, q div 512, q mod 512]
      = walk (view rd m s) (entry_addr (entry_at s t2 (q div 512))) [q mod 512]"
    using assms t3(1) walk_linked linked_def by (smt (verit) list.distinct(1))
  also have "\<dots> = Some (0, e)"
    using t3 by (simp add: linked_def view_def entry_at_def)
  finally show ?thesis .
qed

lemma virt_page:
  assumes "unat v mod 2 ^ 30 + 4096 * p \<le> 2 ^ 30" "k < p"
  shows "virt_index (v + of_nat k * PAGE_SIZE) 0 = virt_index v 0"
    and "virt_index (v + of_nat k * PAGE_SIZE) 1 = virt_index v 1"
    and "page_in_gib (v + of_nat k * PAGE_SIZE) = page_in_gib v + k"
proof -
  let ?w = "v + of_nat k * PAGE_SIZE"
  define G :: nat where "G = 2 ^ 30"
  have G: "0 < G" "(2::nat) ^ 64 = G * 2 ^ 34" by (simp_all add: G_def)
  define g where "g = unat v div G"
  define r where "r = unat v mod G"
  have v: "unat v = g * G + r" by (simp add: g_def r_def)
  have r: "r + 4096 * k < G" using assms by (simp add: r_def G_def)
  have "unat v < G * 2 ^ 34" using unsigned_less[of v, where ?'a = nat] by (simp add: G_def)
  then have "g < 2 ^ 34" unfolding g_def by (intro less_mult_imp_div_less) (simp add: mult.commute)
  then have "Suc g * G \<le> 2 ^ 34 * G" by (intro mult_le_mono1) simp
  then have no: "g * G + (r + 4096 * k) < 2 ^ 64" using r G(2) by simp
  have k: "k < 2 ^ 30" using r by (simp add: G_def)
  have "unat (of_nat k * PAGE_SIZE :: usize) = k * 4096"
    using k by (subst unat_mult_no_overflow) (simp_all add: unat_of_nat)
  then have w: "unat ?w = g * G + (r + 4096 * k)"
    using no by (subst unat_add_no_overflow) (simp_all add: v)
  have wd: "unat ?w div G = g" "unat ?w mod G = r + 4096 * k"
    using r G by (simp_all add: w)
  then show "page_in_gib ?w = page_in_gib v + k"
    by (simp add: page_in_gib_def r_def G_def)
  have e: "(2::nat) ^ 39 = G * 512" "(2::nat) ^ 30 = G" by (simp_all add: G_def)
  have i0: "virt_index x 0 = unat x div G div 512 mod 512" and i1: "virt_index x 1 = unat x div G mod 512" for x
    using div_mult2_eq[of "unat x" G 512] by (simp_all add: virt_index_def G_def)
  show "virt_index ?w 0 = virt_index v 0" "virt_index ?w 1 = virt_index v 1"
    by (simp_all only: i0 i1 wd(1) g_def)
qed

lemma get_start_idx_0:
  "get_start_idx v 0 1 = Inr (virt_index v 1)" "get_start_idx v 0 2 = Inr (virt_index v 2)"
  using get_index_levels(2,3)[of v] by (auto simp: get_start_idx_def virt_index_def)

lemma virt_index_less: "virt_index v l < 512"
  by (simp add: virt_index_def)

lemma level1_fits:
  assumes l1: "level1 rd m virt prot t (virt_index virt 1) s = Inr (b, s')"
    and wf: "wf_state rd m lo s" and t: "t < length (heap s)"
    and pt: "unat (pa_value (pt_addr s')) \<le> 2 ^ 52"
    and len: "unat (cur_len s) = 4096 * p" "0 < p"
    and fits: "page_in_gib virt + p \<le> 512 * 512"
  shows "b" and "\<exists>t2. linked s' t (virt_index virt 1) t2 \<and>
      (\<forall>k < p. mapped s' t2 (page_in_gib virt + k) (leaf prot (pa_value (cur_phys s)) k))"
    and "unat (pa_value (pt_addr s')) \<le>
      unat (pa_value (pt_addr s)) + 4096 * (1 + (p + 1022) div 512)"
proof -
  have brk: "brk" if "level2 rd m virt prot t' (virt_index virt 2) s1 = Inr (brk, s3)"
    "wf_state rd m lo s1" "t' < length (heap s1)" "cur_len s1 = cur_len s" "ext rd m s3 s'"
    for t' s1 brk s3
    by (rule level2_fits(1)[OF that(1-3) _ _ len(2) fits])
      (use that ext_pt_addr[OF that(5)] pt len in auto)
  obtain t2 s1 s3 where b: "b" and l2: "level2 rd m virt prot t2 (virt_index virt 2) s1 = Inr (True, s3)"
    and s1: "wf_state rd m lo s1" "t2 < length (heap s1)" "cur_phys s1 = cur_phys s"
      "cur_len s1 = cur_len s"
    and lk: "linked s' t (virt_index virt 1) t2" and ex: "ext rd m s3 s'"
    and pts: "pt_addr s' = pt_addr s3"
      "unat (pa_value (pt_addr s1)) \<le> unat (pa_value (pt_addr s)) + 4096"
    by (rule upper_loop_first[OF l1[unfolded level1_def] wf t virt_index_less good_level2
          get_start_idx_0(2) brk pt])
  have pt3: "unat (pa_value (pt_addr s3)) \<le> 2 ^ 52" using pt pts(1) by simp
  have len1: "unat (cur_len s1) = 4096 * p" using len s1(4) by simp
  note fit = level2_fits[OF l2 s1(1,2) pt3 len1 len(2) fits]
  show b by fact
  show "\<exists>t2. linked s' t (virt_index virt 1) t2 \<and>
      (\<forall>k < p. mapped s' t2 (page_in_gib virt + k) (leaf prot (pa_value (cur_phys s)) k))"
    using lk fit(2) mapped_ext[OF _ ex] s1(3) by auto
  show "unat (pa_value (pt_addr s')) \<le> unat (pa_value (pt_addr s)) + 4096 * (1 + (p + 1022) div 512)"
    using fit(3) pts by simp
qed

text \<open>Every page of a mapping within one GiB translates as asked.\<close>

lemma map_memory_single_walk:
  assumes single: "map_memory_single rd m pml4 mm s = Inr s'"
    and wf: "wf_state rd m lo s" and root: "map_of (upsert_tables s) a = Some pml4"
    and pt: "unat (pa_value (pt_addr s')) \<le> 2 ^ 52"
    and len: "unat (mm_len mm) = 4096 * p" "0 < p"
    and fits: "unat (mm_virt_start mm) mod 2 ^ 30 + unat (mm_len mm) \<le> 2 ^ 30"
  shows "\<forall>k < p. walk (view rd m s') a (virt_indices (mm_virt_start mm + of_nat k * PAGE_SIZE))
      = Some (0, leaf (mm_prot mm) (pa_value (mm_phys_start mm)) k)"
    and "unat (pa_value (pt_addr s')) \<le> unat (pa_value (pt_addr s)) + 4096 * (2 + (p + 1022) div 512)"
proof -
  let ?v = "mm_virt_start mm"
  let ?s0 = "s\<lparr>cur_phys := mm_phys_start mm, cur_len := mm_len mm\<rparr>"
  have wf0: "wf_state rd m lo ?s0" using wf by simp
  have pml4: "pml4 < length (heap ?s0)"
    using wf root by (auto simp: wf_state_def upsert_ok_def)
  have len0: "unat (cur_len ?s0) = 4096 * p" using len by simp
  obtain b where
    up0: "upper_loop rd m ?v 1 (level1 rd m ?v (mm_prot mm)) pml4 (virt_index ?v 0)
       [0..<512 - virt_index ?v 0] ?s0 = Inr (b, s')"
    using single get_index_levels(1)[of ?v]
    by (auto simp: map_memory_single_def Let_def res_simps virt_index_def)
  have fits': "page_in_gib ?v + p \<le> 512 * 512"
    using fits len(1) by (simp add: page_in_gib_def)
  have brk: "brk" if "level1 rd m ?v (mm_prot mm) t' (virt_index ?v 1) s1 = Inr (brk, s3)"
    "wf_state rd m lo s1" "t' < length (heap s1)" "cur_len s1 = cur_len ?s0" "ext rd m s3 s'"
    for t' s1 brk s3
    by (rule level1_fits(1)[OF that(1-3) _ _ len(2) fits'])
      (use that ext_pt_addr[OF that(5)] pt len in auto)
  obtain t1 s1 s3 where l1: "level1 rd m ?v (mm_prot mm) t1 (virt_index ?v 1) s1 = Inr (True, s3)"
    and s1: "wf_state rd m lo s1" "t1 < length (heap s1)" "cur_phys s1 = cur_phys ?s0"
      "cur_len s1 = cur_len ?s0" "ext rd m ?s0 s1"
    and lk: "linked s' pml4 (virt_index ?v 0) t1" and ex: "ext rd m s3 s'"
    and pts: "pt_addr s' = pt_addr s3"
      "unat (pa_value (pt_addr s1)) \<le> unat (pa_value (pt_addr ?s0)) + 4096"
    by (rule upper_loop_first[OF up0 wf0 pml4 virt_index_less good_level1
          get_start_idx_0(1) brk pt])
  have pt3: "unat (pa_value (pt_addr s3)) \<le> 2 ^ 52" using pt pts(1) by simp
  have len1: "unat (cur_len s1) = 4096 * p" using len0 s1(4) by simp
  note fit = level1_fits[OF l1 s1(1,2) pt3 len1 len(2) fits']
  show "unat (pa_value (pt_addr s')) \<le> unat (pa_value (pt_addr s)) + 4096 * (2 + (p + 1022) div 512)"
    using fit(3) pts by simp
  have root': "map_of (upsert_tables s') a = Some pml4"
    using map_memory_single_good[OF single wf] pml4 root by (auto simp: ext_def)
  show "\<forall>k < p. walk (view rd m s') a (virt_indices (?v + of_nat k * PAGE_SIZE))
      = Some (0, leaf (mm_prot mm) (pa_value (mm_phys_start mm)) k)"
  proof (intro allI impI)
    fix k assume k: "k < p"
    obtain t2 where t2: "linked s' t1 (virt_index ?v 1) t2"
      "mapped s' t2 (page_in_gib ?v + k) (leaf (mm_prot mm) (pa_value (mm_phys_start mm)) k)"
    proof -
      obtain t2 where "linked s3 t1 (virt_index ?v 1) t2"
        "mapped s3 t2 (page_in_gib ?v + k) (leaf (mm_prot mm) (pa_value (mm_phys_start mm)) k)"
        using fit(2) k s1(3) by auto
      then show thesis by (rule that[OF linked_ext[OF _ ex] mapped_ext[OF _ ex]])
    qed
    have "virt_indices (?v + of_nat k * PAGE_SIZE)
        = [virt_index ?v 0, virt_index ?v 1, (page_in_gib ?v + k) div 512, (page_in_gib ?v + k) mod 512]"
      using virt_page[of ?v p k] fits len(1) k
      by (simp add: virt_indices_def virt_index_gib)
    then show "walk (view rd m s') a (virt_indices (?v + of_nat k * PAGE_SIZE))
      = Some (0, leaf (mm_prot mm) (pa_value (mm_phys_start mm)) k)"
      using walk_mapped[OF root' lk t2] by simp
  qed
qed

end
