(* ===== verification/Page_Commit.thy ===== *)
theory Page_Commit
  imports Page_Map "HOL-Library.Multiset"
begin

text \<open>
  The whole of \<^verbatim>\<open>map_memory\<close>: a list of mappings, the write to the hypervisor, and the restoration
  of the guest's tables when a \<^verbatim>\<open>VirtMem\<close> is dropped.
\<close>

section \<open>A list of mappings\<close>

lemma wf_upsert_less: "wf_state rd m lo s \<Longrightarrow> map_of (upsert_tables s) a = Some t \<Longrightarrow> t < length (heap s)"
  by (auto simp: wf_state_def upsert_ok_def)

lemma ext_upsert:
  "ext rd m s s' \<Longrightarrow> map_of (upsert_tables s) a = Some t \<Longrightarrow> map_of (upsert_tables s') a = Some t"
  by (simp add: ext_def)

lemma ext_keeps: "ext rd m s s' \<Longrightarrow> keeps (view rd m s) (view rd m s')"
  by (simp add: ext_def)

lemma release_good [simp]:
  "wf_state rd m lo (release t s) = wf_state rd m lo s" "ext rd m s0 (release t s) = ext rd m s0 s"
  "ext rd m (release t s) s0 = ext rd m s s0" "upsert_tables (release t s) = upsert_tables s"
  by (simp_all add: release_def)

lemma map_memory_loop_good:
  assumes "map_memory_loop rd m pml4 mms s = Inr s'" "wf_state rd m lo s"
    and "map_of (upsert_tables s) a = Some pml4"
  shows "wf_state rd m lo s' \<and> ext rd m s s'"
  using assms
proof (induction mms arbitrary: s)
  case (Cons mm mms)
  then obtain s1 where s1: "map_memory_single rd m pml4 mm (s\<lparr>borrowed := pml4 # borrowed s\<rparr>) = Inr s1"
    and rest: "map_memory_loop rd m pml4 mms (release pml4 s1) = Inr s'"
    by (auto simp: res_simps borrow_mut_def split: if_splits)
  have "wf_state rd m lo s1 \<and> ext rd m s s1"
    using map_memory_single_good[OF s1, of lo] wf_upsert_less[OF Cons.prems(2,3)] Cons.prems(2) by simp
  then show ?case
    using Cons.IH[OF rest] Cons.prems(3) ext_trans[of rd m s s1 s'] ext_upsert[of rd m s s1] by simp
qed simp

text \<open>Every mapping of the list that fits one GiB translates as asked in the final state.\<close>

lemma map_memory_loop_walk:
  assumes "map_memory_loop rd m pml4 mms s = Inr s'" "wf_state rd m lo s"
    and "map_of (upsert_tables s) a = Some pml4" "unat (pa_value (pt_addr s')) \<le> 2 ^ 52"
    and "mm \<in> set mms" "unat (mm_len mm) = 4096 * p" "k < p"
    and "unat (mm_virt_start mm) mod 2 ^ 30 + unat (mm_len mm) \<le> 2 ^ 30"
  shows "walk (view rd m s') a (virt_indices (mm_virt_start mm + of_nat k * PAGE_SIZE))
      = Some (0, leaf (mm_prot mm) (pa_value (mm_phys_start mm)) k)"
  using assms(1-5)
proof (induction mms arbitrary: s)
  case (Cons x mms)
  let ?s0 = "s\<lparr>borrowed := pml4 # borrowed s\<rparr>"
  from Cons.prems obtain s1 where s1: "map_memory_single rd m pml4 x ?s0 = Inr s1"
    and rest: "map_memory_loop rd m pml4 mms (release pml4 s1) = Inr s'"
    by (auto simp: res_simps borrow_mut_def split: if_splits)
  have g1: "wf_state rd m lo s1" "ext rd m s s1"
    using map_memory_single_good[OF s1, of lo] wf_upsert_less[OF Cons.prems(2,3)] Cons.prems(2)
    by simp_all
  have root1: "map_of (upsert_tables s1) a = Some pml4"
    by (rule ext_upsert[OF g1(2) Cons.prems(3)])
  have g: "ext rd m s1 s'"
    using map_memory_loop_good[OF rest, of lo a] g1 root1 by simp
  show ?case
  proof (cases "mm = x")
    case True
    have "unat (pa_value (pt_addr s1)) \<le> 2 ^ 52" using ext_pt_addr[OF g] Cons.prems(4) by simp
    then have "walk (view rd m s1) a (virt_indices (mm_virt_start mm + of_nat k * PAGE_SIZE))
        = Some (0, leaf (mm_prot mm) (pa_value (mm_phys_start mm)) k)"
      using map_memory_single_walk(1)[OF s1[folded True], of lo a p] Cons.prems(2,3) assms(6-8) by simp
    then show ?thesis
      by (rule walk_keeps[OF ext_keeps[OF g] _ virt_indices_less])
  next
    case False
    then show ?thesis using Cons.IH[OF rest] Cons.prems g1 root1 by simp
  qed
qed simp

section \<open>From the first table to the last\<close>

lemma read_page_table_pt_addr:
  "read_page_table rd m a s = Inr (t, s') \<Longrightarrow>
   read_page_table rd m a (s\<lparr>pt_addr := pa\<rparr>) = Inr (t, s'\<lparr>pt_addr := pa\<rparr>)"
  by (auto simp: read_page_table_def rc_new_def Let_def res_simps)

lemma map_memory_tables_loop:
  assumes "map_memory_tables rd m a mappings = Inr s" "env_ok rd m lo" "is_page_aligned a"
    and "lo = unat (pa_value (mm_phys_start (last mappings))) + unat (mm_len (last mappings))"
  obtains pml4 s0 where "map_memory_loop rd m pml4 mappings s0 = Inr s"
    "wf_state rd m lo s0" "map_of (upsert_tables s0) a = Some pml4"
    "keeps (guest_table rd m) (view rd m s0)" "check_mappings None mappings = Inr ()"
    "unat (pa_value (pt_addr s0)) = lo"
    "pa_host_offset (pt_addr s0) = pa_host_offset (mm_phys_start (last mappings))"
proof -
  obtain pml4 s1 pa where rd: "read_page_table rd m a init_state = Inr (pml4, s1)"
    and chk: "check_mappings None mappings = Inr ()"
    and pa: "pa_add (mm_phys_start (last mappings)) (mm_len (last mappings)) = Inr pa"
    and loop: "map_memory_loop rd m pml4 mappings (s1\<lparr>pt_addr := pa\<rparr>) = Inr s"
    using assms(1) by (auto simp: map_memory_tables_def res_simps split: if_splits)
  let ?i = "init_state\<lparr>pt_addr := pa\<rparr>"
  have lo: "unat (pa_value pa) = lo"
    "pa_host_offset pa = pa_host_offset (mm_phys_start (last mappings))"
    using assms(4) pa by (auto simp: pa_add_def bind_res_Inr dest: unat_chk_add)
  have "wf_state rd m lo ?i"
    using assms(2) lo by (simp add: wf_state_def init_state_def old_ok_def)
  note ok = read_page_table_ok[OF read_page_table_pt_addr[OF rd, of pa] this _ assms(3)]
  have "view rd m ?i = guest_table rd m" by (simp add: view_def fun_eq_iff init_state_def)
  then show thesis
    using that[OF loop] ok(1,3) ext_keeps[OF ok(2)] chk lo by (simp add: init_state_def)
qed

section \<open>Writing and restoring\<close>

text \<open>
  What \<^verbatim>\<open>process_vm_writev\<close> promises when it reports that it has written everything: each page named
  holds the data given for it, and the other pages are as they were.
\<close>

definition writev_ok :: "('m \<Rightarrow> reader) \<Rightarrow> 'm writer \<Rightarrow> bool" where
  "writev_ok rd wr \<longleftrightarrow> (\<forall>iov mem mem' n.
     wr iov mem = (mem', Inr n) \<and> n = of_nat (length iov) * PAGE_SIZE \<and> distinct (map fst iov) \<and>
     (\<forall>x \<in> set iov. is_page_aligned (fst x) \<and> length (snd x) = 512) \<longrightarrow>
     (\<forall>h. is_page_aligned h \<longrightarrow>
        rd mem' h = (case map_of iov h of Some es \<Rightarrow> Inr es | None \<Rightarrow> rd mem h)))"

text \<open>
  The pages that may hold tables: those of the guest, and the new ones from \<open>lo\<close> on, which are
  mapped at the offset \<open>off\<close>. Their places in the hypervisor are aligned and distinct.
\<close>

definition table_page :: "memslots \<Rightarrow> nat \<Rightarrow> isize \<Rightarrow> phys_addr \<Rightarrow> bool" where
  "table_page m lo off x \<longleftrightarrow> is_page_aligned (pa_value x) \<and>
     (phm_get m (pa_value x) = Some (pa_host_offset x) \<or> lo \<le> unat (pa_value x) \<and> pa_host_offset x = off)"

definition host_pages_ok :: "memslots \<Rightarrow> nat \<Rightarrow> isize \<Rightarrow> bool" where
  "host_pages_ok m lo off \<longleftrightarrow> (\<forall>x y h.
     table_page m lo off x \<and> host_addr x = Inr h \<longrightarrow>
     is_page_aligned h \<and> (table_page m lo off y \<and> host_addr y = Inr h \<longrightarrow> x = y))"

lemma host_pages_okD:
  assumes "host_pages_ok m lo off" "table_page m lo off x" "host_addr x = Inr h"
  shows "is_page_aligned h" and "table_page m lo off y \<Longrightarrow> host_addr y = Inr h \<Longrightarrow> x = y"
  using assms unfolding host_pages_ok_def by blast+

lemma commit_page_tables_ok:
  assumes commit: "commit_page_tables wr ts mem = (mem', Inr u)" and wr: "writev_ok rd wr"
    and pages: "\<forall>t \<in> set ts. table_page m lo off (pt_phys_addr t) \<and> length (pt_entries t) = 512"
    and dist: "distinct (map pt_phys_addr ts)" and host: "host_pages_ok m lo off"
    and x: "table_page m lo off x" "host_addr x = Inr h"
  shows "(\<forall>t \<in> set ts. pt_phys_addr t = x \<longrightarrow> rd mem' h = Inr (pt_entries t)) \<and>
         (x \<notin> pt_phys_addr ` set ts \<longrightarrow> rd mem' h = rd mem h)"
proof -
  define hs :: "page_table \<Rightarrow> usize" where "hs t = (case host_addr (pt_phys_addr t) of Inr h \<Rightarrow> h | Inl _ \<Rightarrow> 0)" for t
  obtain iov n where iov: "list_all2 (\<lambda>t y. bind_res (host_addr (pt_phys_addr t)) (\<lambda>h. Inr (h, pt_entries t)) = Inr y) ts iov"
    and w: "wr iov mem = (mem', Inr n)" and n: "n = of_nat (length iov) * PAGE_SIZE"
    using commit by (auto simp: commit_page_tables_def Let_def res_simps split: sum.splits prod.splits if_splits)
  have hsd: "\<forall>t \<in> set ts. host_addr (pt_phys_addr t) = Inr (hs t)" and eq: "iov = map (\<lambda>t. (hs t, pt_entries t)) ts"
    using iov by (induction rule: list_all2_induct) (auto simp: hs_def bind_res_Inr)
  have inj: "hs t = h \<longleftrightarrow> pt_phys_addr t = x" if "t \<in> set ts" for t
    using that hsd pages host_pages_okD(2)[OF host x] x(2) by (metis sum.inject(2))
  have "inj_on hs (set ts) \<and> distinct ts"
    using hsd pages host_pages_okD(2)[OF host] dist
    by (simp add: distinct_map inj_on_def)
  then have "distinct (map fst iov)" by (simp add: eq distinct_map comp_def)
  moreover have "\<forall>x \<in> set iov. is_page_aligned (fst x) \<and> length (snd x) = 512"
    using hsd pages host_pages_okD(1)[OF host] unfolding eq by auto
  moreover have "is_page_aligned h" using host_pages_okD(1)[OF host x] .
  ultimately have r: "rd mem' h = (case map_of iov h of Some es \<Rightarrow> Inr es | None \<Rightarrow> rd mem h)"
    using wr w n unfolding writev_ok_def by blast
  have "map_of iov h = Some (pt_entries t)" if "t \<in> set ts" "pt_phys_addr t = x" for t
    using that inj \<open>distinct (map fst iov)\<close> by (intro map_of_is_SomeI) (auto simp: eq)
  moreover have "map_of iov h = None" if "x \<notin> pt_phys_addr ` set ts"
    using that inj by (auto simp: map_of_eq_None_iff eq) (metis imageI)
  ultimately show ?thesis using r by simp
qed

text \<open>The tables that are written, and those that are written back.\<close>

lemma upsert_pages:
  assumes wf: "wf_state rd m lo s" and off: "pa_host_offset (pt_addr s) = off"
  defines "ts \<equiv> map (\<lambda>(k, t). heap s ! t) (upsert_tables s)"
  shows "\<forall>t \<in> set ts. table_page m lo off (pt_phys_addr t) \<and> length (pt_entries t) = 512"
    and "distinct (map pt_phys_addr ts)"
proof -
  have up: "upsert_ok rd m lo s k t" if "(k, t) \<in> set (upsert_tables s)" for k t
    using that wf by (simp add: wf_state_def)
  show "\<forall>t \<in> set ts. table_page m lo off (pt_phys_addr t) \<and> length (pt_entries t) = 512"
    using up wf off by (fastforce simp: ts_def upsert_ok_def table_page_def wf_state_def)
  have "map pa_value (map pt_phys_addr ts) = map fst (upsert_tables s)"
    using up by (auto simp: ts_def upsert_ok_def)
  then have "distinct (map pa_value (map pt_phys_addr ts))"
    using wf by (simp add: wf_state_def del: map_map)
  then show "distinct (map pt_phys_addr ts)" using distinct_map by blast
qed

lemma old_pages:
  assumes wf: "wf_state rd m lo s"
  shows "\<forall>t \<in> set (old_tables s). table_page m lo off (pt_phys_addr t) \<and> length (pt_entries t) = 512"
    and "distinct (map pt_phys_addr (old_tables s))"
proof -
  have old: "old_ok rd m s" and env: "env_ok rd m lo" using wf by (auto simp: wf_state_def)
  have len: "length es = 512" if "guest_table rd m a = Some es" for a es
    using that env
    by (auto simp: guest_table_def pt_read_def env_ok_def res_simps split: option.splits sum.splits)
  have "is_page_aligned (pa_value (pt_phys_addr t))" if "t \<in> set (old_tables s)" for t
    using that old wf unfolding old_ok_def wf_state_def upsert_ok_def by (metis option.exhaust)
  with old len show "\<forall>t \<in> set (old_tables s). table_page m lo off (pt_phys_addr t) \<and> length (pt_entries t) = 512"
    by (auto simp: old_ok_def table_page_def)
  have "distinct (map pa_value (map pt_phys_addr (old_tables s)))"
    using old by (simp add: old_ok_def comp_def)
  then show "distinct (map pt_phys_addr (old_tables s))" using distinct_map by blast
qed

lemma guest_table_read:
  "guest_table rd m (pa_value x) = Some es \<Longrightarrow> phm_get m (pa_value x) = Some (pa_host_offset x) \<Longrightarrow>
   host_addr x = Inr h \<Longrightarrow> rd h = Inr es"
  by (cases x) (auto simp: guest_table_def pt_read_def res_simps split: sum.splits)

lemma guest_table_cong:
  assumes "\<And>off h. \<lbrakk>phm_get m b = Some off; host_addr \<lparr>pa_value = b, pa_host_offset = off\<rparr> = Inr h\<rbrakk>
    \<Longrightarrow> rd h = rd' h"
  shows "guest_table rd m b = guest_table rd' m b"
proof (cases "phm_get m b")
  case (Some off)
  then show ?thesis
    using assms[OF Some]
    by (cases "host_addr \<lparr>pa_value = b, pa_host_offset = off\<rparr>") (simp_all add: guest_table_def pt_read_def)
qed (simp add: guest_table_def)

text \<open>Writing the new tables and then the old ones leaves every table of the guest as it was.\<close>

lemma write_and_restore:
  assumes wf: "wf_state (rd mem) m lo s" and off: "pa_host_offset (pt_addr s) = off"
    and ts: "mset ts = mset (map (\<lambda>(k, t). heap s ! t) (upsert_tables s))"
    and c1: "commit_page_tables wr ts mem = (mem1, Inr u)"
    and c2: "commit_page_tables wr (old_tables s) mem1 = (mem2, Inr u')"
    and wr: "writev_ok rd wr" and host: "host_pages_ok m lo off"
    and x: "is_page_aligned (pa_value x)" "phm_get m (pa_value x) = Some (pa_host_offset x)"
      "host_addr x = Inr h"
  shows "rd mem2 h = rd mem h"
proof -
  have tx: "table_page m lo off x" using x by (simp add: table_page_def)
  have set_ts: "set ts = set (map (\<lambda>(k, t). heap s ! t) (upsert_tables s))"
    using ts by (rule mset_eq_setD)
  have "mset (map pt_phys_addr ts) = mset (map pt_phys_addr (map (\<lambda>(k, t). heap s ! t) (upsert_tables s)))"
    using ts by (simp only: mset_map)
  then have dts: "distinct (map pt_phys_addr ts)"
    using upsert_pages(2)[OF wf off] mset_eq_imp_distinct_iff by blast
  note w1 = commit_page_tables_ok[OF c1 wr _ dts host tx x(3), unfolded set_ts, OF upsert_pages(1)[OF wf off]]
  note w2 = commit_page_tables_ok[OF c2 wr old_pages(1)[OF wf] old_pages(2)[OF wf] host tx x(3)]
  show ?thesis
  proof (cases "x \<in> pt_phys_addr ` set (old_tables s)")
    case True
    then obtain ot where ot: "ot \<in> set (old_tables s)" "pt_phys_addr ot = x" by auto
    then have "guest_table (rd mem) m (pa_value x) = Some (pt_entries ot)"
      using wf by (auto simp: wf_state_def old_ok_def)
    from guest_table_read[OF this x(2,3)] w2 ot show ?thesis by simp
  next
    case False
    have "x \<notin> pt_phys_addr ` set (map (\<lambda>(k, t). heap s ! t) (upsert_tables s))"
    proof
      assume "x \<in> pt_phys_addr ` set (map (\<lambda>(k, t). heap s ! t) (upsert_tables s))"
      then obtain k t where kt: "(k, t) \<in> set (upsert_tables s)" "x = pt_phys_addr (heap s ! t)" by auto
      then have "upsert_ok (rd mem) m lo s k t" using wf by (simp add: wf_state_def)
      then show False using x(2) kt False by (auto simp: upsert_ok_def intro: rev_image_eqI)
    qed
    with w1 w2 False show ?thesis by simp
  qed
qed

section \<open>The space for page tables\<close>

interpretation tbl: pow2 ENTRY_COUNT 9
  by unfold_locales (simp_all add: ENTRY_COUNT_def)

lemma table_align_Inr:
  assumes "table_align v = Inr r"
  shows "unat (r div ENTRY_COUNT) = (unat v + 511) div 512"
proof -
  have x: "unat v + 511 < 2 ^ 64" "r = (v + (ENTRY_COUNT - 1)) AND NOT (ENTRY_COUNT - 1)"
    using assms by (auto simp: table_align_def res_simps ENTRY_COUNT_def)
  have "unat (v + (ENTRY_COUNT - 1)) = unat v + 511"
    using x(1) by (simp add: ENTRY_COUNT_def unat_add_no_overflow)
  then show ?thesis
    using tbl.align_down[of "v + (ENTRY_COUNT - 1)"] tbl.unat_n by (simp add: x(2) unat_div)
qed

lemma estimate_loop_ge:
  assumes "estimate_loop n t tot = Inr r" "0 < unat t"
  shows "unat tot + n \<le> unat r"
  using assms
proof (induction n arbitrary: t tot)
  case (Suc n)
  then obtain u tot' where u: "table_align t = Inr u" "chk_add tot (u div ENTRY_COUNT) = Inr tot'"
      "estimate_loop n (u div ENTRY_COUNT) tot' = Inr r"
    by (auto simp: Let_def res_simps)
  have "0 < unat (u div ENTRY_COUNT)"
    using table_align_Inr[OF u(1)] Suc.prems(2) by (simp add: div_greater_zero_iff)
  then show ?case using Suc.IH[OF u(3)] unat_chk_add[OF u(2)] by simp
qed simp

lemma estimate_ge:
  assumes "estimate_page_table_size sz = Inr e" "unat sz = 4096 * p" "0 < p"
  shows "4096 * (2 + (p + 1022) div 512) \<le> unat e"
proof -
  have lc: "LEVEL_COUNT = Suc 3" by (simp add: LEVEL_COUNT_def)
  obtain s tot b where s: "page_align sz = Inr s"
    and loop: "estimate_loop (Suc 3) (s div PAGE_SIZE) 0 = Inr tot"
    and b: "chk_mul tot 8 = Inr b" "chk_mul b ENTRY_COUNT = Inr e"
    using assms(1) lc by (auto simp only: estimate_page_table_size_def res_simps)
  have "unat s = 4096 * p"
    using s assms(2) by (simp add: page_align_Inr)
  then have pages: "unat (s div PAGE_SIZE) = p" by (simp add: unat_div)
  obtain u tot' where u: "table_align (s div PAGE_SIZE) = Inr u" "chk_add 0 (u div ENTRY_COUNT) = Inr tot'"
      "estimate_loop 3 (u div ENTRY_COUNT) tot' = Inr tot"
    using loop by (auto simp only: estimate_loop.simps Let_def res_simps)
  have c: "unat (u div ENTRY_COUNT) = (p + 511) div 512"
    using table_align_Inr[OF u(1)] pages by simp
  then have "(p + 511) div 512 + 3 \<le> unat tot"
    using estimate_loop_ge[OF u(3)] unat_chk_add[OF u(2)] assms(3) by (simp add: div_greater_zero_iff)
  moreover have "(p + 1022) div 512 \<le> (p + 511) div 512 + 1"
    using div_le_mono[of "p + 1022" "p + 511 + 512" 512] by simp
  moreover have "unat e = unat tot * 8 * 512"
    using unat_chk_mul[OF b(1)] unat_chk_mul[OF b(2)] by (simp add: ENTRY_COUNT_def)
  ultimately show ?thesis by simp
qed

section \<open>Properties\<close>

lemma check_mappings_aligned:
  "check_mappings prev mms = Inr () \<Longrightarrow> mm \<in> set mms \<Longrightarrow> is_page_aligned (mm_len mm)"
  by (induction mms arbitrary: prev) (auto simp: bind_res_Inr split: if_splits option.splits)

text \<open>
  C1: Once \<^verbatim>\<open>map_memory\<close> has collected its tables, the processor's walk through them finds every
  page of every mapping that lies within one GiB of virtual memory: page \<open>k\<close> of the mapping
  translates to page \<open>k\<close> of the physical memory given for it, with the flags for its
  protection. The space after the last mapping, where the new tables go, must not be backed by
  a memslot of the map, and the new tables must lie below 4 PiB.
\<close>

theorem map_memory_translates:
  assumes "map_memory_tables rd m a mappings = Inr s"
    and "env_ok rd m (unat (pa_value (mm_phys_start (last mappings))) + unat (mm_len (last mappings)))"
    and "is_page_aligned a" and "unat (pa_value (pt_addr s)) \<le> 2 ^ 52"
    and "mm \<in> set mappings" and "4096 * k < unat (mm_len mm)"
    and "unat (mm_virt_start mm) mod 2 ^ 30 + unat (mm_len mm) \<le> 2 ^ 30"
  shows "walk (view rd m s) a (virt_indices (mm_virt_start mm + of_nat k * PAGE_SIZE))
      = Some (0, (pa_value (mm_phys_start mm) + of_nat k * PAGE_SIZE) OR page_table_flags (mm_prot mm))"
proof -
  obtain pml4 s0 where loop: "map_memory_loop rd m pml4 mappings s0 = Inr s"
    and wf: "wf_state rd m
      (unat (pa_value (mm_phys_start (last mappings))) + unat (mm_len (last mappings))) s0"
    and root: "map_of (upsert_tables s0) a = Some pml4" and chk: "check_mappings None mappings = Inr ()"
    by (rule map_memory_tables_loop[OF assms(1-3) refl])
  obtain p where p: "unat (mm_len mm) = 4096 * p"
    using check_mappings_aligned[OF chk assms(5)] by (auto simp: is_page_aligned_iff)
  show ?thesis
    using map_memory_loop_walk[OF loop wf root assms(4,5) p _ assms(7)] assms(6) p
    by (simp add: leaf_def)
qed

text \<open>
  C2: Mapping memory never disturbs the guest: whatever virtual address the guest's page table
  translated before, by a page or by a huge page, still translates to the same entry.
\<close>

theorem map_memory_preserves:
  assumes "map_memory_tables rd m a mappings = Inr s"
    and "env_ok rd m (unat (pa_value (mm_phys_start (last mappings))) + unat (mm_len (last mappings)))"
    and "is_page_aligned a"
    and "walk (guest_table rd m) a (virt_indices v) = Some r"
  shows "walk (view rd m s) a (virt_indices v) = Some r"
proof -
  obtain pml4 s0 where loop: "map_memory_loop rd m pml4 mappings s0 = Inr s"
    and wf: "wf_state rd m
      (unat (pa_value (mm_phys_start (last mappings))) + unat (mm_len (last mappings))) s0"
    and root: "map_of (upsert_tables s0) a = Some pml4" and keep: "keeps (guest_table rd m) (view rd m s0)"
    by (rule map_memory_tables_loop[OF assms(1-3) refl])
  have "keeps (guest_table rd m) (view rd m s)"
    using map_memory_loop_good[OF loop wf root] keep ext_keeps keeps_trans by blast
  then show ?thesis by (rule walk_keeps[OF _ assms(4) virt_indices_less])
qed

text \<open>
  C4: Dropping the \<^verbatim>\<open>VirtMem\<close> undoes \<^verbatim>\<open>map_memory\<close>: if both writes are complete, every page table of
  the guest reads as it did before, whatever the order in which the tables were written.
\<close>

theorem virt_mem_drop_restores:
  assumes "map_memory rd wr ord m a mappings mem = (mem1, Inr vm)"
    and "commit_page_tables wr (vm_old_tables vm) mem1 = (mem2, Inr ())"
    and "env_ok (rd mem) m (unat (pa_value (mm_phys_start (last mappings))) + unat (mm_len (last mappings)))"
    and "is_page_aligned a" and "writev_ok rd wr" and "\<forall>ts. mset (ord ts) = mset ts"
    and "host_pages_ok m (unat (pa_value (mm_phys_start (last mappings))) + unat (mm_len (last mappings)))
           (pa_host_offset (mm_phys_start (last mappings)))"
    and "is_page_aligned b"
  shows "guest_table (rd (virt_mem_drop wr vm mem1)) m b = guest_table (rd mem) m b"
proof -
  obtain s u where s: "map_memory_tables (rd mem) m a mappings = Inr s"
    and c1: "commit_page_tables wr (ord (map (\<lambda>(k, t). heap s ! t) (upsert_tables s))) mem = (mem1, Inr u)"
    and old: "vm_old_tables vm = old_tables s"
    using assms(1) by (auto simp: map_memory_def res_simps split: sum.splits prod.splits)
  obtain pml4 s0 where loop: "map_memory_loop (rd mem) m pml4 mappings s0 = Inr s"
    and wf: "wf_state (rd mem) m
      (unat (pa_value (mm_phys_start (last mappings))) + unat (mm_len (last mappings))) s0"
    and root: "map_of (upsert_tables s0) a = Some pml4"
    and off: "pa_host_offset (pt_addr s0) = pa_host_offset (mm_phys_start (last mappings))"
    by (rule map_memory_tables_loop[OF s assms(3,4) refl])
  note good = map_memory_loop_good[OF loop wf root]
  have "pa_host_offset (pt_addr s) = pa_host_offset (mm_phys_start (last mappings))"
    using good off by (simp add: ext_def)
  note restore = write_and_restore[OF conjunct1[OF good] this assms(6)[rule_format] c1
      assms(2)[unfolded old] assms(5,7)]
  have "rd mem2 h = rd mem h" if "phm_get m b = Some o'"
    "host_addr \<lparr>pa_value = b, pa_host_offset = o'\<rparr> = Inr h" for o' h
    using restore[of "\<lparr>pa_value = b, pa_host_offset = o'\<rparr>" h] assms(8) that by simp
  then show ?thesis
    using assms(2) by (intro guest_table_cong) (simp add: virt_mem_drop_def)
qed

text \<open>
  C7: The estimate is enough: the page tables allocated for a mapping within one GiB need no
  more space than \<^verbatim>\<open>estimate_page_table_size\<close> reserves for its length.
\<close>

theorem estimate_suffices:
  assumes "map_memory_tables rd m a [mm] = Inr s"
    and "env_ok rd m (unat (pa_value (mm_phys_start mm)) + unat (mm_len mm))"
    and "is_page_aligned a" and "unat (pa_value (pt_addr s)) \<le> 2 ^ 52" and "0 < mm_len mm"
    and "unat (mm_virt_start mm) mod 2 ^ 30 + unat (mm_len mm) \<le> 2 ^ 30"
    and "estimate_page_table_size (mm_len mm) = Inr e"
  shows "unat (pa_value (pt_addr s)) \<le>
    unat (pa_value (mm_phys_start mm)) + unat (mm_len mm) + unat e"
proof -
  let ?lo = "unat (pa_value (mm_phys_start mm)) + unat (mm_len mm)"
  have lo: "?lo = unat (pa_value (mm_phys_start (last [mm]))) + unat (mm_len (last [mm]))" by simp
  obtain pml4 s0 where loop: "map_memory_loop rd m pml4 [mm] s0 = Inr s"
    and wf: "wf_state rd m ?lo s0" and root: "map_of (upsert_tables s0) a = Some pml4"
    and chk: "check_mappings None [mm] = Inr ()" and pt: "unat (pa_value (pt_addr s0)) = ?lo"
    by (rule map_memory_tables_loop[OF assms(1-3) lo])
  obtain p where p: "unat (mm_len mm) = 4096 * p"
    using check_mappings_aligned[OF chk, of mm] by (auto simp: is_page_aligned_iff)
  then have p0: "0 < p" using assms(5) by (simp add: word_less_nat_alt)
  obtain s1 where s1: "map_memory_single rd m pml4 mm (s0\<lparr>borrowed := pml4 # borrowed s0\<rparr>) = Inr s1"
    and s: "s = release pml4 s1"
    using loop by (auto simp: res_simps borrow_mut_def split: if_splits)
  have "unat (pa_value (pt_addr s1)) \<le> ?lo + 4096 * (2 + (p + 1022) div 512)"
    using map_memory_single_walk(2)[OF s1, of ?lo a p] wf root assms(4,6) p p0 pt s
    by (simp add: release_def)
  then show ?thesis
    using estimate_ge[OF assms(7) p p0] s by (simp add: release_def)
qed

end
