(* ===== verification/Guest_Mem.thy ===== *)
theory Guest_Mem
  imports Page_Iter Page_Commit Proc_Maps Cpu
begin

text \<open>
  \<^verbatim>\<open>src/guest_mem.rs\<close>: the guest's memory as vmsh sees it. \<^verbatim>\<open>GuestMem::new\<close> builds the map of
  physical addresses from the memslots and finds the top page table; \<^verbatim>\<open>find_kernel_sections\<close>
  collects the sections of the kernel from the page tables.
\<close>

record guest_mem =
  gm_maps :: memslots
  gm_regs :: regs
  gm_pml4 :: phys_addr

definition PHYS_ADDR_MASK :: u64 where "PHYS_ADDR_MASK = 0xFFFFFFFFFF000"

definition X86_CR4_PCIDE :: u64 where "X86_CR4_PCIDE = 0x00020000"

record kvm_sregs =
  sr_cr3 :: u64
  sr_cr4 :: u64

definition get_page_table_addr :: "kvm_sregs \<Rightarrow> usize" where
  "get_page_table_addr s =
     (if sr_cr4 s AND X86_CR4_PCIDE \<noteq> 0 then sr_cr3 s AND PHYS_ADDR_MASK else sr_cr3 s)"

definition mm_contains :: "mapped_memory \<Rightarrow> usize \<Rightarrow> bool res" where
  "mm_contains mm addr =
     (if mm_virt_start mm < addr
      then bind_res (chk_add (mm_virt_start mm) (mm_len mm)) (\<lambda>e. Inr (addr < e))
      else Inr False)"

definition prot_flags_of :: "page_table_flags \<Rightarrow> prot_flags" where
  "prot_flags_of ptflags =
     (let f = PROT_READ;
          f = (if flags_contain ptflags WRITABLE then f OR PROT_WRITE else f);
          f = (if \<not> flags_contain ptflags NO_EXECUTE then f OR PROT_EXEC else f)
      in f)"

definition mapped_memory_of :: "pt_value \<Rightarrow> isize \<Rightarrow> mapped_memory res" where
  "mapped_memory_of e off =
     bind_res (huge_page_size (pv_level e)) (\<lambda>len.
     Inr \<lparr>mm_phys_start = \<lparr>pa_value = entry_addr (pv_entry e), pa_host_offset = off\<rparr>,
          mm_virt_start = pv_virt_addr e, mm_len = len, mm_prot = prot_flags_of (entry_flags (pv_entry e))\<rparr>)"

text \<open>The slots given to \<^verbatim>\<open>PhysHostMap::new\<close>, with inclusive ends.\<close>

definition slot_of_mapping :: "mapping \<Rightarrow> (range \<times> isize) res" where
  "slot_of_mapping m =
     bind_res (phys_end m) (\<lambda>pe.
     bind_res (chk_sub pe 1) (\<lambda>e.
     bind_res (phys_to_host_offset m) (\<lambda>off. Inr ((mp_phys_addr m, e), off))))"

text \<open>The arguments are the answers of the hypervisor to the queries for maps and registers.\<close>

definition host_map_of :: "mapping list \<Rightarrow> memslots res" where
  "host_map_of mappings =
     bind_res (map_res slot_of_mapping (sort_key mp_phys_addr mappings)) phys_host_map_new"

definition guest_mem_of :: "memslots \<Rightarrow> regs \<Rightarrow> kvm_sregs \<Rightarrow> guest_mem res" where
  "guest_mem_of maps regs sregs =
     (let pt_addr = get_page_table_addr sregs in
      bind_res (require_with (phm_get maps pt_addr) ''cannot find page table memory'') (\<lambda>off.
      Inr \<lparr>gm_maps = maps, gm_regs = regs, gm_pml4 = \<lparr>pa_value = pt_addr, pa_host_offset = off\<rparr>\<rparr>))"

definition guest_mem_new :: "mapping list res \<Rightarrow> regs res \<Rightarrow> kvm_sregs res \<Rightarrow> guest_mem res" where
  "guest_mem_new hv_maps hv_regs hv_sregs =
     bind_res (try_with hv_maps ''cannot vm memory allocations'') (\<lambda>mappings.
     bind_res (host_map_of mappings) (\<lambda>maps.
     bind_res (try_with hv_regs ''failed to get vcpu registers'') (\<lambda>regs.
     bind_res (try_with hv_sregs ''failed to get vcpu special registers'') (\<lambda>sregs.
     guest_mem_of maps regs sregs))))"

definition last_memslot_range :: "guest_mem \<Rightarrow> range option" where
  "last_memslot_range gm = last_range (gm_maps gm)"

definition gm_map_memory ::
  "('m \<Rightarrow> reader) \<Rightarrow> 'm writer \<Rightarrow> (page_table list \<Rightarrow> page_table list) \<Rightarrow> guest_mem
    \<Rightarrow> mapped_memory list \<Rightarrow> 'm \<Rightarrow> 'm \<times> virt_mem res" where
  "gm_map_memory rd wr ord gm mms mem =
     map_memory rd wr ord (gm_maps gm) (pa_value (gm_pml4 gm)) mms mem"

section \<open>Kernel sections\<close>

text \<open>
  The two loops of \<^verbatim>\<open>find_kernel_sections\<close> draw from one iterator, so they are functions on the list
  of what it delivers, of which they take no more than the loops do. The sections are kept with the last one first.
\<close>

definition range_len :: "range \<Rightarrow> usize" where
  "range_len r = (if fst r < snd r then snd r - fst r else 0)"

fun first_section ::
  "memslots \<Rightarrow> range \<Rightarrow> pt_value res list \<Rightarrow> (mapped_memory list \<times> range \<times> pt_value res list) res" where
  "first_section m rng [] = Inr ([], (0, 0), [])"
| "first_section m rng (x # xs) =
     bind_res (try_with x ''cannot read page table'') (\<lambda>v.
     if fst rng < pv_virt_addr v then
       bind_res (require_with (phm_get m (entry_addr (pv_entry v)))
         ''no memslot of physical address of page table'') (\<lambda>off.
       bind_res (mapped_memory_of v off) (\<lambda>mm. Inr ([mm], (fst rng, pv_virt_addr v), xs)))
     else first_section m rng xs)"

fun extend_sections ::
  "memslots \<Rightarrow> range \<Rightarrow> mapped_memory list \<Rightarrow> range \<Rightarrow> pt_value res list
    \<Rightarrow> (mapped_memory list \<times> range) res"
  where
  "extend_sections m rng sections gap [] = Inr (sections, gap)"
| "extend_sections m rng sections gap (x # xs) =
     bind_res (try_with x ''cannot read page table'') (\<lambda>v.
     if snd rng \<le> pv_virt_addr v then Inr (sections, gap)
     else case sections of
       [] \<Rightarrow> bail ''no sections found''
     | l # ls \<Rightarrow>
         bind_res (chk_add (mm_virt_start l) (mm_len l)) (\<lambda>e.
         bind_res (chk_sub (pv_virt_addr v) e) (\<lambda>d.
         let gap' = (if range_len gap < d then (fst rng, pv_virt_addr v) else gap) in
         if mm_prot l = prot_flags_of (entry_flags (pv_entry v)) then
           bind_res (huge_page_size (pv_level v)) (\<lambda>h.
           bind_res (chk_add (mm_len l) h) (\<lambda>len.
           extend_sections m rng (l\<lparr>mm_len := len\<rparr> # ls) gap' xs))
         else
           bind_res (require_with (phm_get m (entry_addr (pv_entry v)))
             ''no memslot of physical address of page table'') (\<lambda>off.
           bind_res (mapped_memory_of v off) (\<lambda>mm. extend_sections m rng (mm # l # ls) gap' xs)))))"

definition find_kernel_sections ::
  "reader \<Rightarrow> guest_mem \<Rightarrow> range \<Rightarrow> (mapped_memory list \<times> range) res" where
  "find_kernel_sections rd gm rng =
     (if is_userspace (gm_regs gm)
      then bail ''program stopped in userspace. Linux kernel might be not mapped in thise mode''
      else
        bind_res (try_with (pt_read rd (gm_pml4 gm) 0 0) ''cannot read pml4 page table'') (\<lambda>pml4.
        bind_res (first_section (gm_maps gm) rng (items rd (gm_maps gm) (pt_iter_new pml4 rng)))
          (\<lambda>(sections, gap, rest).
        if sections = [] then bail ''no linux kernel found in page table''
        else
          bind_res (extend_sections (gm_maps gm) rng sections gap rest) (\<lambda>(secs, gap').
          Inr (rev secs, gap')))))"

section \<open>Properties\<close>

text \<open>\<^verbatim>\<open>MappedMemory::contains\<close> excludes the first address of the memory.\<close>

lemma mm_contains_start: "mm_contains mm (mm_virt_start mm) = Inr False"
  by (simp add: mm_contains_def)

lemma huge_page_size_ok: "huge_page_size l = Inr h \<Longrightarrow> unat l \<le> 3"
  by (auto simp: huge_page_size_def res_simps word_le_nat_alt)

text \<open>
  Consecutive pages from \<open>a\<close> to \<open>b\<close>, and sections that fill the addresses from \<open>a\<close> to \<open>b\<close>, the
  last one first.
\<close>

fun contiguous :: "usize \<Rightarrow> pt_value list \<Rightarrow> usize \<Rightarrow> bool" where
  "contiguous a [] b \<longleftrightarrow> a = b"
| "contiguous a (v # vs) b \<longleftrightarrow>
     pv_virt_addr v = a \<and>
     (case huge_page_size (pv_level v) of Inl e \<Rightarrow> False | Inr h \<Rightarrow> contiguous (a + h) vs b)"

fun tiled :: "usize \<Rightarrow> usize \<Rightarrow> mapped_memory list \<Rightarrow> bool" where
  "tiled a b [] \<longleftrightarrow> a = b"
| "tiled a b (l # ls) \<longleftrightarrow> mm_virt_start l + mm_len l = b \<and> tiled a (mm_virt_start l) ls"

lemma extend_sections_tiled:
  assumes "extend_sections m rng secs gap (map Inr vs) = Inr (secs', gap')"
    and "contiguous b vs c" "tiled a b secs" "\<forall>v \<in> set vs. pv_virt_addr v < snd rng"
  shows "gap' = gap \<and> tiled a c secs'"
  using assms
proof (induction vs arbitrary: b secs gap)
  case (Cons v vs)
  have nr: "\<not> snd rng \<le> pv_virt_addr v" using Cons.prems(4) by (simp add: not_le)
  then obtain l ls where secs: "secs = l # ls" using Cons.prems(1) by (cases secs) auto
  obtain h where h: "huge_page_size (pv_level v) = Inr h" "pv_virt_addr v = b" "contiguous (b + h) vs c"
    using Cons.prems(2) by (auto split: sum.splits)
  obtain e d where e: "chk_add (mm_virt_start l) (mm_len l) = Inr e" and d: "chk_sub (pv_virt_addr v) e = Inr d"
    using Cons.prems(1) nr by (auto simp: secs res_simps)
  have "e = b" using chk_add_eq_wrap[OF e] Cons.prems(3) by (simp add: secs)
  then have "d = 0" using d h(2) by (auto simp: chk_sub_Inr)
  then have gap: "\<not> range_len gap < d" by simp
  have vs: "\<forall>v \<in> set vs. pv_virt_addr v < snd rng" using Cons.prems(4) by simp
  show ?case
  proof (cases "mm_prot l = prot_flags_of (entry_flags (pv_entry v))")
    case True
    then obtain len where len: "chk_add (mm_len l) h = Inr len"
      and r: "extend_sections m rng (l\<lparr>mm_len := len\<rparr> # ls) gap (map Inr vs) = Inr (secs', gap')"
      using Cons.prems(1) nr e d gap h(1) by (auto simp: secs bind_res_Inr try_with_Inr Let_def)
    have "tiled a (b + h) (l\<lparr>mm_len := len\<rparr> # ls)"
      using chk_add_eq_wrap[OF len] Cons.prems(3) by (auto simp: secs)
    then show ?thesis using Cons.IH[OF r h(3) _ vs] by simp
  next
    case False
    then obtain off mm where mm: "mapped_memory_of v off = Inr mm"
      and r: "extend_sections m rng (mm # l # ls) gap (map Inr vs) = Inr (secs', gap')"
      using Cons.prems(1) nr e d gap by (auto simp: secs bind_res_Inr try_with_Inr Let_def)
    have "tiled a (b + h) (mm # l # ls)"
      using mm h(1,2) Cons.prems(3) by (auto simp: secs mapped_memory_of_def)
    then show ?thesis using Cons.IH[OF r h(3) _ vs] by simp
  qed
qed auto

lemma first_section_skip:
  assumes "\<forall>u \<in> set us. \<not> fst rng < pv_virt_addr u"
  shows "first_section m rng (map Inr us @ xs) = first_section m rng xs"
  using assms by (induction us) auto

text \<open>
  C26: If the pages the walk finds after the start of the search range are virtually contiguous and
  below its end, the sections returned fill exactly the addresses from the first page to the
  end of the last one, and the gap returned is the space before the first page.
\<close>

theorem kernel_sections_tile:
  assumes "find_kernel_sections rd gm rng = Inr (secs, gap)"
    and "pt_read rd (gm_pml4 gm) 0 0 = Inr pml4"
    and "items rd (gm_maps gm) (pt_iter_new pml4 rng) = map Inr (us @ v # vs)"
    and "\<forall>u \<in> set us. \<not> fst rng < pv_virt_addr u" and "fst rng < pv_virt_addr v"
    and "contiguous (pv_virt_addr v) (v # vs) c" and "\<forall>w \<in> set vs. pv_virt_addr w < snd rng"
  shows "gap = (fst rng, pv_virt_addr v) \<and> tiled (pv_virt_addr v) c (rev secs)"
proof -
  have skip: "first_section (gm_maps gm) rng (map Inr (us @ v # vs)) =
      first_section (gm_maps gm) rng (Inr v # map Inr vs)"
    using first_section_skip[OF assms(4)] by simp
  obtain mm off secs' where mm: "mapped_memory_of v off = Inr mm"
    and ext: "extend_sections (gm_maps gm) rng [mm] (fst rng, pv_virt_addr v) (map Inr vs) = Inr (secs', gap)"
    and secs: "secs = rev secs'"
    using assms(1-3,5) skip
    by (auto simp del: map_append simp: find_kernel_sections_def res_simps split: if_splits prod.splits)
  obtain h where h: "huge_page_size (pv_level v) = Inr h" "contiguous (pv_virt_addr v + h) vs c"
    using assms(6) by (auto split: sum.splits)
  have "tiled (pv_virt_addr v) (pv_virt_addr v + h) [mm]"
    using mm h(1) by (auto simp: mapped_memory_of_def)
  from extend_sections_tiled[OF ext h(2) this assms(7)] show ?thesis by (simp add: secs)
qed

section \<open>Reading guest memory\<close>

lemma slot_of_mapping_Inr:
  assumes "slot_of_mapping m = Inr s" "mp_start m < mp_end m"
  shows "fst (fst s) = mp_phys_addr m" and "compute_host_offset (mp_start m) (mp_phys_addr m) = Inr (snd s)"
    and "unat (snd (fst s)) + 1 = unat (mp_phys_addr m) + (unat (mp_end m) - unat (mp_start m))"
proof -
  obtain z pe e where z: "chk_sub (mp_end m) (mp_start m) = Inr z" and pe: "chk_add (mp_phys_addr m) z = Inr pe"
    and e: "chk_sub pe 1 = Inr e" and off: "compute_host_offset (mp_start m) (mp_phys_addr m) = Inr (snd s)"
    and s: "fst s = (mp_phys_addr m, e)"
    using assms(1)
    by (auto simp: slot_of_mapping_def phys_end_def mp_size_def phys_to_host_offset_def bind_res_Inr)
  show "fst (fst s) = mp_phys_addr m" "compute_host_offset (mp_start m) (mp_phys_addr m) = Inr (snd s)"
    using s off by auto
  have "0 < unat z" using unat_chk_sub[OF z] assms(2) by (simp add: word_less_nat_alt)
  then show "unat (snd (fst s)) + 1 = unat (mp_phys_addr m) + (unat (mp_end m) - unat (mp_start m))"
    using unat_chk_sub[OF e] unat_chk_add[OF pe] unat_chk_sub[OF z] s by simp
qed

text \<open>The map of \<^verbatim>\<open>GuestMem::new\<close> is well-formed and answers from the mappings.\<close>

lemma guest_mem_new_maps:
  assumes "guest_mem_new (Inr mappings) hv_regs hv_sregs = Inr gm"
    and "\<forall>m \<in> set mappings. mp_start m < mp_end m"
  shows "wf_slots (gm_maps gm)" and "m \<in> set mappings \<Longrightarrow> \<exists>x. slot_of_mapping m = Inr x \<and>
    (backs x p \<longrightarrow> phm_get (gm_maps gm) p = Some (snd x))"
proof -
  let ?sorted = "sort_key mp_phys_addr mappings"
  obtain slots where sl: "list_all2 (\<lambda>m s. slot_of_mapping m = Inr s) ?sorted slots"
    and new: "phys_host_map_new slots = Inr (gm_maps gm)"
    using assms(1) by (auto simp: guest_mem_new_def host_map_of_def guest_mem_of_def Let_def bind_res_Inr map_res_Inr_iff)
  have nth: "length slots = length ?sorted" "slot_of_mapping (?sorted ! i) = Inr (slots ! i)"
    "mp_start (?sorted ! i) < mp_end (?sorted ! i)" if "i < length ?sorted" for i
    using sl that assms(2) nth_mem[OF that] by (auto simp: list_all2_conv_all_nth)
  have len: "length slots = length ?sorted" using sl by (rule list_all2_lengthD[symmetric])
  have "fst (fst x) \<le> snd (fst x)" if "x \<in> set slots" for x
  proof -
    obtain i where "i < length ?sorted" "x = slots ! i" using \<open>x \<in> set slots\<close> len by (auto simp: in_set_conv_nth)
    then show ?thesis
      using slot_of_mapping_Inr[OF nth(2,3), of i] nth(3)[of i]
      by (simp add: word_le_nat_alt word_less_nat_alt)
  qed
  moreover have "map (\<lambda>x. fst (fst x)) slots = map mp_phys_addr ?sorted"
    using len slot_of_mapping_Inr(1)[OF nth(2,3)] by (intro nth_equalityI) auto
  then have "sorted (map (\<lambda>x. fst (fst x)) slots)" by simp
  then have "sorted_wrt (\<lambda>x y. fst (fst x) \<le> fst (fst y)) slots" by (simp add: sorted_map)
  ultimately have ok: "wf_slots (gm_maps gm)"
      "(\<exists>x \<in> set (gm_maps gm). snd x = v \<and> backs x p) \<longleftrightarrow> (\<exists>x \<in> set slots. snd x = v \<and> backs x p)" for v p
    using phys_host_map_new_ok[OF new] by blast+
  show "wf_slots (gm_maps gm)" by (rule ok(1))
  assume "m \<in> set mappings"
  then obtain i where i: "i < length ?sorted" "m = ?sorted ! i" by (metis in_set_conv_nth set_sort)
  have "phm_get (gm_maps gm) p = Some (snd (slots ! i))" if bk: "backs (slots ! i) p"
  proof -
    have "slots ! i \<in> set slots" using i(1) len by simp
    then obtain x where "x \<in> set (gm_maps gm)" "snd x = snd (slots ! i)" "backs x p"
      using ok(2)[of "snd (slots ! i)" p] bk by blast
    then show ?thesis by (metis phm_get_Some_iff[OF ok(1)] prod.collapse)
  qed
  then show "\<exists>x. slot_of_mapping m = Inr x \<and> (backs x p \<longrightarrow> phm_get (gm_maps gm) p = Some (snd x))"
    using nth(2)[OF i(1)] i(2) by auto
qed

text \<open>
  C8: Every physical address of a memslot is found where the hypervisor maps it: for an address
  inside the mapping \<open>mp\<close>, the map built by \<^verbatim>\<open>GuestMem::new\<close> has an offset that leads to the
  corresponding byte of the mapping.
\<close>

theorem guest_mem_finds_address:
  assumes "guest_mem_new (Inr mappings) hv_regs hv_sregs = Inr gm" and "mp \<in> set mappings"
    and "\<forall>m \<in> set mappings. mp_start m < mp_end m"
    and "unat p = unat (mp_phys_addr mp) + d" and "d < unat (mp_end mp) - unat (mp_start mp)"
    and "offset_fits (mp_start mp) (mp_phys_addr mp)"
  shows "\<exists>off a. phm_get (gm_maps gm) p = Some off \<and>
    host_addr \<lparr>pa_value = p, pa_host_offset = off\<rparr> = Inr a \<and> unat a = unat (mp_start mp) + d"
proof -
  obtain x where x: "slot_of_mapping mp = Inr x" "backs x p \<longrightarrow> phm_get (gm_maps gm) p = Some (snd x)"
    using guest_mem_new_maps(2)[OF assms(1,3,2)] by blast
  have lt: "mp_start mp < mp_end mp" using assms(2,3) by simp
  note slot = slot_of_mapping_Inr[OF x(1) lt]
  have "backs x p"
    using slot(1,3) assms(4,5) by (simp add: backs_def word_le_nat_alt)
  moreover have "snd x = mp_start mp - mp_phys_addr mp"
    using slot(2) compute_host_offset_ok[OF assms(6)] by simp
  moreover have nov: "unat (mp_start mp) + d < 2 ^ 64"
    using assms(5) unsigned_less[of "mp_end mp", where ?'a = nat] by simp
  moreover have "unat (mp_start mp + (p - mp_phys_addr mp)) = unat (mp_start mp) + d"
  proof -
    have "unat (p - mp_phys_addr mp) = d" using assms(4) by (simp add: unat_sub word_le_nat_alt)
    then show ?thesis using nov by (simp add: unat_add_no_overflow)
  qed
  ultimately show ?thesis
    using x(2) host_addr_offset[OF assms(6) nov assms(4)] by auto
qed

lemma and_7_cases:
  assumes "(p :: u32) AND 7 = p"
  shows "p \<in> {0, 1, 2, 3, 4, 5, 6, 7}"
proof -
  have "unat p < 8" using unat_and_mask[of p 3] assms by (simp add: mask_eq_exp_minus_1)
  then have "unat p \<in> {0, 1, 2, 3, 4, 5, 6, 7}" by auto
  then show ?thesis by (simp add: word_unat_eq_iff)
qed

text \<open>
  Protections survive the round trip through a page table entry: what \<^verbatim>\<open>map_memory\<close> encodes into
  an entry for the protection \<open>p\<close> is decoded by \<^verbatim>\<open>prot_flags\<close> as \<open>p\<close> with reading allowed.
\<close>

theorem prot_roundtrip:
  assumes "p AND 7 = p" "a AND PHYS_ADDR_MASK = a"
  shows "prot_flags_of (entry_flags (a OR page_table_flags p)) = p OR PROT_READ"
proof -
  have "a AND PageTableFlags_all = a AND (PHYS_ADDR_MASK AND PageTableFlags_all)"
    using assms(2) by (metis and.assoc)
  then have a: "a AND PageTableFlags_all = 0" by (simp add: PHYS_ADDR_MASK_def PageTableFlags_all_def)
  have f: "page_table_flags p AND PageTableFlags_all = page_table_flags p"
    by (simp add: page_table_flags_def PageTableFlags_all_def PRESENT_def ACCESSED_def WRITABLE_def NO_EXECUTE_def)
  have "entry_flags (a OR page_table_flags p) = page_table_flags p"
    by (simp add: entry_flags_def bit.conj_disj_distrib2 a f)
  moreover have "p \<in> {0, 1, 2, 3, 4, 5, 6, 7}" using and_7_cases[OF assms(1)] .
  ultimately show ?thesis
    by (auto simp: prot_flags_of_def page_table_flags_def flags_contain_def prot_contains_def
        PROT_READ_def PROT_WRITE_def PROT_EXEC_def PRESENT_def ACCESSED_def WRITABLE_def NO_EXECUTE_def)
qed

theorem prot_roundtrip_witness:
  "prot_flags_of (entry_flags (0x12345000 OR page_table_flags (PROT_WRITE OR PROT_EXEC))) = PROT_WRITE OR PROT_EXEC OR PROT_READ"
  using prot_roundtrip[of "PROT_WRITE OR PROT_EXEC" "0x12345000"]
  by (simp add: PROT_WRITE_def PROT_EXEC_def PROT_READ_def PHYS_ADDR_MASK_def)

section \<open>An example\<close>

text \<open>
  A guest with 16 MiB of memory, mapped by the hypervisor at 0x10000, whose page table at 0x1000
  maps two pages of 2 MiB at 0x200000, one writable and one executable.
\<close>

definition guest_ex_mapping :: mapping where
  "guest_ex_mapping = \<lparr>mp_start = 0x10000, mp_end = 0x1010000, mp_prot_flags = 3, mp_map_flags = MAP_PRIVATE,
     mp_offset = 0, mp_major_dev = 0, mp_minor_dev = 0, mp_inode = 0, mp_pathname = [], mp_phys_addr = 0\<rparr>"

definition guest_ex_regs :: regs where
  "guest_ex_regs = regs_from_kvm \<lparr>k_rax = 0, k_rbx = 0, k_rcx = 0, k_rdx = 0, k_rsi = 0, k_rdi = 0,
     k_rsp = 0, k_rbp = 0, k_r8 = 0, k_r9 = 0, k_r10 = 0, k_r11 = 0, k_r12 = 0, k_r13 = 0, k_r14 = 0,
     k_r15 = 0, k_rip = 0, k_rflags = 0\<rparr>"

definition guest_ex :: "guest_mem res" where
  "guest_ex = guest_mem_new (Inr [guest_ex_mapping]) (Inr guest_ex_regs) (Inr \<lparr>sr_cr3 = 0x1000, sr_cr4 = 0\<rparr>)"

definition guest_ex_rd :: reader where
  "guest_ex_rd h =
     Inr (if h = 0x11000 then (replicate 512 0)[0 := 0x2003]
          else if h = 0x12000 then (replicate 512 0)[0 := 0x3003]
          else if h = 0x13000 then (replicate 512 0)[1 := 0x8000000000200083, 2 := 0x400081]
          else replicate 512 0)"

definition guest_ex_pages :: "pt_value list" where
  "guest_ex_pages = [\<lparr>pv_virt_addr = 0x200000, pv_level = 2, pv_entry = 0x8000000000200083\<rparr>,
     \<lparr>pv_virt_addr = 0x400000, pv_level = 2, pv_entry = 0x400081\<rparr>]"

lemma guest_ex_run: "(case guest_ex of Inr gm \<Rightarrow> gm_pml4 gm = \<lparr>pa_value = 0x1000, pa_host_offset = 0x10000\<rparr>
    \<and> gm_maps gm = [((0, 0xFFFFFF), 0x10000)] | Inl e \<Rightarrow> False)"
  by code_simp

lemmas guest_ex_ok = run_okD[OF guest_ex_run]

lemma guest_ex_items:
  "(case pt_read guest_ex_rd \<lparr>pa_value = 0x1000, pa_host_offset = 0x10000\<rparr> 0 0 of
      Inr pml4 \<Rightarrow> items guest_ex_rd [((0, 0xFFFFFF), 0x10000)] (pt_iter_new pml4 (0x1000, 0x7FFFFF)) = map Inr guest_ex_pages
    | Inl e \<Rightarrow> False)"
  by code_simp

lemma guest_ex_sections:
  "(case find_kernel_sections guest_ex_rd (projr guest_ex) (0x1000, 0x7FFFFF) of
      Inr r \<Rightarrow> map mm_virt_start (fst r) = [0x200000, 0x400000] | Inl e \<Rightarrow> False)"
  by code_simp

theorem guest_mem_finds_address_witness:
  "\<exists>off a. phm_get (gm_maps (projr guest_ex)) 0x2345 = Some off \<and>
    host_addr \<lparr>pa_value = 0x2345, pa_host_offset = off\<rparr> = Inr a \<and> unat a = 0x12345"
  using guest_mem_finds_address[OF guest_ex_ok(1)[unfolded guest_ex_def], of guest_ex_mapping "0x2345" "0x2345"]
  by (simp add: guest_ex_mapping_def guest_ex_def offset_fits_def)

theorem kernel_sections_tile_witness:
  "\<exists>secs gap. find_kernel_sections guest_ex_rd (projr guest_ex) (0x1000, 0x7FFFFF) = Inr (secs, gap) \<and>
    gap = (0x1000, 0x200000) \<and> tiled 0x200000 0x600000 (rev secs)"
proof -
  obtain secs gap where s: "find_kernel_sections guest_ex_rd (projr guest_ex) (0x1000, 0x7FFFFF) = Inr (secs, gap)"
    using run_okD(1)[OF guest_ex_sections] by (metis surj_pair)
  obtain pml4 where p: "pt_read guest_ex_rd (gm_pml4 (projr guest_ex)) 0 0 = Inr pml4"
      "items guest_ex_rd (gm_maps (projr guest_ex)) (pt_iter_new pml4 (0x1000, 0x7FFFFF)) =
        map Inr ([] @ hd guest_ex_pages # tl guest_ex_pages)"
    using guest_ex_items guest_ex_ok(2) by (auto simp: guest_ex_pages_def split: sum.splits)
  have c: "contiguous 0x200000 guest_ex_pages 0x600000" by code_simp
  show ?thesis
    using kernel_sections_tile[OF s p, of "0x600000"] s c by (simp add: guest_ex_pages_def del: contiguous.simps)
qed

end
