(* ===== verification/Ioctls.thy ===== *)
theory Ioctls
  imports Vmsh_Prelude
begin

text \<open>
  \<^verbatim>\<open>src/kvm/ioctls.rs\<close>: the numbers of the KVM requests. The sizes of the structures of the KVM
  interface are arguments.
\<close>

definition IOC_NRBITS :: u32 where "IOC_NRBITS = 8"
definition IOC_TYPEBITS :: u32 where "IOC_TYPEBITS = 8"
definition IOC_SIZEBITS :: u32 where "IOC_SIZEBITS = 14"
definition IOC_DIRBITS :: u32 where "IOC_DIRBITS = 2"
definition IOC_NRMASK :: u32 where "IOC_NRMASK = 255"
definition IOC_TYPEMASK :: u32 where "IOC_TYPEMASK = 255"
definition IOC_SIZEMASK :: u32 where "IOC_SIZEMASK = 16383"
definition IOC_DIRMASK :: u32 where "IOC_DIRMASK = 3"
definition IOC_NRSHIFT :: nat where "IOC_NRSHIFT = 0"
definition IOC_TYPESHIFT :: nat where "IOC_TYPESHIFT = 8"
definition IOC_SIZESHIFT :: nat where "IOC_SIZESHIFT = 16"
definition IOC_DIRSHIFT :: nat where "IOC_DIRSHIFT = 30"
definition IOC_NONE :: u32 where "IOC_NONE = 0"
definition IOC_WRITE :: u32 where "IOC_WRITE = 1"
definition IOC_READ :: u32 where "IOC_READ = 2"

definition ioctl_expr :: "u32 \<Rightarrow> u32 \<Rightarrow> u32 \<Rightarrow> u32 \<Rightarrow> u64" where
  "ioctl_expr dir ty nr sz =
     ucast (push_bit IOC_DIRSHIFT dir OR push_bit IOC_TYPESHIFT ty OR push_bit IOC_NRSHIFT nr
       OR push_bit IOC_SIZESHIFT sz)"

definition ioctl_io_nr :: "u32 \<Rightarrow> u32 \<Rightarrow> u64" where
  "ioctl_io_nr ty nr = ioctl_expr IOC_NONE ty nr 0"

definition ioctl_iow_nr :: "u32 \<Rightarrow> u32 \<Rightarrow> usize \<Rightarrow> u64" where
  "ioctl_iow_nr ty nr sz = ioctl_expr IOC_WRITE ty nr (ucast sz)"

definition ioctl_ior_nr :: "u32 \<Rightarrow> u32 \<Rightarrow> usize \<Rightarrow> u64" where
  "ioctl_ior_nr ty nr sz = ioctl_expr IOC_READ ty nr (ucast sz)"

definition ioctl_iowr_nr :: "u32 \<Rightarrow> u32 \<Rightarrow> usize \<Rightarrow> u64" where
  "ioctl_iowr_nr ty nr sz = ioctl_expr (IOC_READ OR IOC_WRITE) ty nr (ucast sz)"

definition KVMIO :: u32 where "KVMIO = 0xAE"

definition KVM_CHECK_EXTENSION :: u64 where "KVM_CHECK_EXTENSION = ioctl_io_nr KVMIO 0x03"
definition KVM_IOEVENTFD :: "usize \<Rightarrow> u64" where "KVM_IOEVENTFD sz = ioctl_iow_nr KVMIO 0x79 sz"
definition KVM_IRQFD :: "usize \<Rightarrow> u64" where "KVM_IRQFD sz = ioctl_iow_nr KVMIO 0x76 sz"
definition KVM_SET_USER_MEMORY_REGION :: "usize \<Rightarrow> u64" where
  "KVM_SET_USER_MEMORY_REGION sz = ioctl_iow_nr KVMIO 0x46 sz"
definition KVM_SET_IOREGION :: "usize \<Rightarrow> u64" where "KVM_SET_IOREGION sz = ioctl_iow_nr KVMIO 0x49 sz"
definition KVM_RUN :: u64 where "KVM_RUN = ioctl_io_nr KVMIO 0x80"
definition KVM_GET_REGS :: "usize \<Rightarrow> u64" where "KVM_GET_REGS sz = ioctl_ior_nr KVMIO 0x81 sz"
definition KVM_SET_REGS :: "usize \<Rightarrow> u64" where "KVM_SET_REGS sz = ioctl_iow_nr KVMIO 0x82 sz"
definition KVM_GET_SREGS :: "usize \<Rightarrow> u64" where "KVM_GET_SREGS sz = ioctl_ior_nr KVMIO 0x83 sz"
definition KVM_GET_FPU :: "usize \<Rightarrow> u64" where "KVM_GET_FPU sz = ioctl_ior_nr KVMIO 0x8c sz"
definition KVM_SET_FPU :: "usize \<Rightarrow> u64" where "KVM_SET_FPU sz = ioctl_iow_nr KVMIO 0x8d sz"
definition KVM_GET_MSRS :: "usize \<Rightarrow> u64" where "KVM_GET_MSRS sz = ioctl_iowr_nr KVMIO 0x88 sz"
definition KVM_GET_CPUID2 :: "usize \<Rightarrow> u64" where "KVM_GET_CPUID2 sz = ioctl_iowr_nr KVMIO 0x91 sz"
definition KVM_GET_IRQCHIP :: "usize \<Rightarrow> u64" where "KVM_GET_IRQCHIP sz = ioctl_iowr_nr KVMIO 0x62 sz"

definition KVM_MAX_CPUID_ENTRIES :: nat where "KVM_MAX_CPUID_ENTRIES = 256"

section \<open>Properties\<close>

lemma KVM_RUN_value: "KVM_RUN = 0xae80"
  by (simp add: KVM_RUN_def ioctl_io_nr_def ioctl_expr_def KVMIO_def IOC_NONE_def IOC_NRSHIFT_def IOC_TYPESHIFT_def)

lemma and_mask_bit: "(x :: u32) AND mask k = x \<Longrightarrow> bit x i \<Longrightarrow> i < k"
  by (metis bit_and_iff bit_mask_iff)

text \<open>
  The parts of a request number can be read back from it with the masks and shifts of the kernel
  interface, so numbers with different direction, type, number or size are different.
\<close>

theorem ioctl_expr_fields:
  assumes "dir AND IOC_DIRMASK = dir" "ty AND IOC_TYPEMASK = ty" "nr AND IOC_NRMASK = nr" "sz AND IOC_SIZEMASK = sz"
  defines "n \<equiv> ioctl_expr dir ty nr sz"
  shows "ucast (drop_bit IOC_DIRSHIFT n) AND IOC_DIRMASK = dir \<and> ucast (drop_bit IOC_TYPESHIFT n) AND IOC_TYPEMASK = ty \<and>
    ucast (drop_bit IOC_NRSHIFT n) AND IOC_NRMASK = nr \<and> ucast (drop_bit IOC_SIZESHIFT n) AND IOC_SIZEMASK = sz"
proof -
  have m: "IOC_DIRMASK = mask 2" "IOC_TYPEMASK = mask 8" "IOC_NRMASK = mask 8" "IOC_SIZEMASK = mask 14"
    by (simp_all add: IOC_DIRMASK_def IOC_TYPEMASK_def IOC_NRMASK_def IOC_SIZEMASK_def mask_eq_exp_minus_1)
  note b = and_mask_bit[OF assms(1)[unfolded m]] and_mask_bit[OF assms(2)[unfolded m]]
    and_mask_bit[OF assms(3)[unfolded m]] and_mask_bit[OF assms(4)[unfolded m]]
  note defs = n_def ioctl_expr_def m IOC_DIRSHIFT_def IOC_TYPESHIFT_def IOC_NRSHIFT_def IOC_SIZESHIFT_def
  have "ucast (drop_bit IOC_DIRSHIFT n) AND IOC_DIRMASK = dir"
    unfolding defs by (rule bit_word_eqI) (auto simp: bit_simps dest: b)
  moreover have "ucast (drop_bit IOC_TYPESHIFT n) AND IOC_TYPEMASK = ty"
    unfolding defs by (rule bit_word_eqI) (auto simp: bit_simps dest: b)
  moreover have "ucast (drop_bit IOC_NRSHIFT n) AND IOC_NRMASK = nr"
    unfolding defs by (rule bit_word_eqI) (auto simp: bit_simps dest: b)
  moreover have "ucast (drop_bit IOC_SIZESHIFT n) AND IOC_SIZEMASK = sz"
    unfolding defs by (rule bit_word_eqI) (auto simp: bit_simps dest: b)
  ultimately show ?thesis by blast
qed

theorem ioctl_expr_fields_witness:
  "ucast (drop_bit IOC_TYPESHIFT (ioctl_expr IOC_WRITE KVMIO 0x46 32)) AND IOC_TYPEMASK = KVMIO"
  using ioctl_expr_fields[of IOC_WRITE KVMIO "0x46" 32]
  by (simp add: IOC_WRITE_def KVMIO_def IOC_DIRMASK_def IOC_TYPEMASK_def IOC_NRMASK_def IOC_SIZEMASK_def)

end
