(* ===== verification/Tracer_Wrap.thy ===== *)
theory Tracer_Wrap
  imports Tracer_Inject Guest_Mem Ioctls
begin

text \<open>
  \<^verbatim>\<open>src/tracer/wrap_syscall.rs\<close>: catching the \<^verbatim>\<open>ioctl(KVM_RUN)\<close> of the hypervisor and answering the MMIO
  requests of the guest. Log output is left out.
\<close>

section \<open>MMIO requests\<close>

text \<open>
  \<^verbatim>\<open>kvm_run\<close> and its MMIO member are structures of the KVM interface; \<open>kvm_abi\<close> stands for the bindings:
  the size of \<^verbatim>\<open>kvm_run\<close>, its decoding from memory, and the offsets of the two fields that are written.
\<close>

record mmio_raw =
  mr_phys_addr :: u64
  mr_data :: bytes
  mr_len :: u32
  mr_is_write :: u8

record kvm_run =
  kr_exit_reason :: u32
  kr_mmio :: mmio_raw

record kvm_abi =
  ka_run_size :: nat
  ka_decode_run :: "bytes \<Rightarrow> kvm_run"
  ka_mmio_data :: u64
  ka_mmio_is_write :: u64

definition KVM_EXIT_MMIO :: u32 where "KVM_EXIT_MMIO = 6"

definition MMIO_RW_DATA_MAX :: nat where "MMIO_RW_DATA_MAX = 8"

record mmio_rw =
  mw_addr :: u64
  mw_is_write :: bool
  mw_data :: bytes
  mw_len :: nat
  mw_pid :: pid
  mw_vcpu_map :: mapping

definition mmio_new :: "mmio_raw \<Rightarrow> pid \<Rightarrow> mapping \<Rightarrow> mmio_rw" where
  "mmio_new raw p vcpu_map =
     \<lparr>mw_addr = mr_phys_addr raw, mw_is_write = (mr_is_write raw \<noteq> 0), mw_data = mr_data raw,
      mw_len = unat (mr_len raw), mw_pid = p, mw_vcpu_map = vcpu_map\<rparr>"

definition mmio_from :: "kvm_run \<Rightarrow> pid \<Rightarrow> mapping \<Rightarrow> mmio_rw option" where
  "mmio_from run p vcpu_map =
     (if kr_exit_reason run = KVM_EXIT_MMIO then Some (mmio_new (kr_mmio run) p vcpu_map) else None)"

definition mmio_data :: "mmio_rw \<Rightarrow> bytes res" where
  "mmio_data m = slice_range (mw_data m) 0 (mw_len m)"

definition process_read :: "'w os \<Rightarrow> pid \<Rightarrow> u64 \<Rightarrow> nat \<Rightarrow> ('w, bytes) io" where
  "process_read os p addr n = os_vm_read os p addr n"

definition process_write :: "'w os \<Rightarrow> pid \<Rightarrow> u64 \<Rightarrow> bytes \<Rightarrow> ('w, unit) io" where
  "process_write os p addr bs = os_vm_write os p addr bs"

definition answer_read :: "'w os \<Rightarrow> kvm_abi \<Rightarrow> bytes \<Rightarrow> ('w \<times> mmio_rw, unit) io" where
  "answer_read os abi data =
     bind_io get_st (\<lambda>(_, m).
     if mw_is_write m then lift_res (bail ''cannot answer a mmio write with a read value'')
     else if length data \<noteq> mw_len m then lift_res (bail ''cannot answer mmio read'')
     else
       bind_io (lift_res (mmio_data m)) (\<lambda>_.
       bind_io (upd_snd (\<lambda>m. m\<lparr>mw_data := data @ drop (mw_len m) (mw_data m)\<rparr>)) (\<lambda>_.
       bind_io get_st (\<lambda>(_, m).
       let kvm_run_ptr = mp_start (mw_vcpu_map m) in
       bind_io (on_fst (process_write os (mw_pid m) (kvm_run_ptr + ka_mmio_data abi) (mw_data m))) (\<lambda>_.
       on_fst (process_write os (mw_pid m) (kvm_run_ptr + ka_mmio_is_write abi) [1]))))))"

section \<open>Threads\<close>

record wthread =
  wt_ptthread :: pt_thread
  wt_is_running :: bool
  wt_in_syscall :: bool

definition wthread_new :: "pt_thread \<Rightarrow> wthread" where
  "wthread_new t = \<lparr>wt_ptthread = t, wt_is_running = False, wt_in_syscall = False\<rparr>"

definition toggle_in_syscall :: "wthread \<Rightarrow> wthread" where
  "toggle_in_syscall t = t\<lparr>wt_in_syscall := \<not> wt_in_syscall t\<rparr>"

abbreviation wt_tid :: "wthread \<Rightarrow> pid" where
  "wt_tid t \<equiv> tid (wt_ptthread t)"

fun is_interrupted :: "pid \<Rightarrow> wait_status \<Rightarrow> bool" where
  "is_interrupted t (PtraceSyscall p) \<longleftrightarrow> p = t"
| "is_interrupted t (PtraceEvent p sig _) \<longleftrightarrow> (sig = SIGTRAP \<or> sig = SIGSTOP) \<and> p = t"
| "is_interrupted t _ \<longleftrightarrow> False"

partial_function (option) wait_interrupted :: "'w os \<Rightarrow> pid \<Rightarrow> 'w \<Rightarrow> ('w \<times> unit res) option" where
  "wait_interrupted os t w =
     bind_io (try_io (os_waitpid os t WAIT_NONE) ''failed to waitpid on thread'') (\<lambda>status w'.
     if is_interrupted t status then Some (w', Inr ()) else wait_interrupted os t w') w"

definition wt_prepare_detach :: "'w os \<Rightarrow> wthread \<Rightarrow> ('w, unit) io" where
  "wt_prepare_detach os t =
     (if \<not> wt_is_running t then ret ()
      else bind_io (th_interrupt os (wt_ptthread t)) (\<lambda>_. wait_interrupted os (wt_tid t)))"

section \<open>The wrapper\<close>

record wrapper =
  wr_process_idx :: nat
  wr_threads :: "wthread list"
  wr_process_group :: pid
  wr_owner :: "thread_id option"
  wr_vcpus :: "vcpu list"

definition get_process_group :: "'w os \<Rightarrow> pid \<Rightarrow> ('w, pid) io" where
  "get_process_group os p =
     bind_io (try_io (os_getpgid os p) ''getppid failed'') (\<lambda>process_group.
     bind_io (os_getpgrp os) (\<lambda>own.
     if own = process_group
     then lift_res (bail ''vmsh and hypervisor are in same process group. Are they sharing a terminal? This is not supported at the moment.'')
     else ret process_group))"

definition wr_attach :: "'w os \<Rightarrow> thread_id \<Rightarrow> pid \<Rightarrow> vcpu list \<Rightarrow> ('w, wrapper) io" where
  "wr_attach os me p vcpus =
     bind_io (try_io (attach_all_threads os p) ''cannot attach KvmRunWrapper to all threads via ptrace'')
       (\<lambda>(threads, process_idx).
     bind_io (on_err (get_process_group os p) (drop_threads os threads)) (\<lambda>process_group.
     ret \<lparr>wr_process_idx = process_idx, wr_threads = map wthread_new threads, wr_process_group = process_group,
          wr_owner = Some me, wr_vcpus = vcpus\<rparr>))"

definition wr_prepare_detach :: "'w os \<Rightarrow> wrapper \<Rightarrow> ('w, unit) io" where
  "wr_prepare_detach os k =
     for_io (wr_threads k) (\<lambda>t. try_io (wt_prepare_detach os t) ''cannot prepare thread for detaching'')"

definition wr_drop :: "'w os \<Rightarrow> wrapper \<Rightarrow> ('w, unit) io" where
  "wr_drop os k =
     bind_io (ignore_io (wr_prepare_detach os k)) (\<lambda>_. drop_threads os (map wt_ptthread (wr_threads k)))"

definition wr_into_tracer :: "'w os \<Rightarrow> wrapper \<Rightarrow> ('w, tracer) io" where
  "wr_into_tracer os k =
     bind_io (on_err (wr_prepare_detach os k) (wr_drop os k)) (\<lambda>_.
     ret \<lparr>tr_process_idx = wr_process_idx k, tr_owner = wr_owner k,
          tr_threads = map wt_ptthread (wr_threads k), tr_vcpus = wr_vcpus k\<rparr>)"

definition wr_from_tracer :: "'w os \<Rightarrow> tracer \<Rightarrow> ('w, wrapper) io" where
  "wr_from_tracer os t =
     on_err
       (bind_io (lift_res (tr_main_thread t)) (\<lambda>main.
        bind_io (get_process_group os (tid main)) (\<lambda>process_group.
        ret \<lparr>wr_process_idx = tr_process_idx t, wr_threads = map wthread_new (tr_threads t),
             wr_process_group = process_group, wr_owner = tr_owner t, wr_vcpus = tr_vcpus t\<rparr>)))
       (drop_threads os (tr_threads t))"

definition wr_cont :: "'w os \<Rightarrow> wrapper \<Rightarrow> ('w, unit) io" where
  "wr_cont os k = for_io (wr_threads k) (\<lambda>t. th_cont os (wt_ptthread t) None)"

definition upd_thread :: "nat \<Rightarrow> (wthread \<Rightarrow> wthread) \<Rightarrow> wrapper \<Rightarrow> wrapper" where
  "upd_thread i f k = k\<lparr>wr_threads := (wr_threads k)[i := f (wr_threads k ! i)]\<rparr>"

definition stop_on_syscall :: "'w os \<Rightarrow> ('w \<times> wrapper, unit) io" where
  "stop_on_syscall os =
     bind_io get_st (\<lambda>(_, k0).
     for_io [0..<length (wr_threads k0)] (\<lambda>i.
       bind_io get_st (\<lambda>(_, k).
       if wt_is_running (wr_threads k ! i) then ret ()
       else
         bind_io (on_fst (try_io (th_syscall os (wt_ptthread (wr_threads k ! i))) ''ptrace.thread.syscall() failed'')) (\<lambda>_.
         upd_snd (upd_thread i (\<lambda>t. t\<lparr>wt_is_running := True\<rparr>))))))"

definition thread_position :: "pid \<Rightarrow> wrapper \<Rightarrow> nat option" where
  "thread_position p k = position (\<lambda>t. wt_tid t = p) (wr_threads k)"

partial_function (option) wr_waitpid ::
  "'w os \<Rightarrow> 'w \<times> wrapper \<Rightarrow> (('w \<times> wrapper) \<times> wait_status res) option" where
  "wr_waitpid os s =
     bind_io (on_fst (try_io (os_waitpid os (- wr_process_group (snd s)) WALL) ''cannot wait for ioctl syscall''))
       (\<lambda>status s'.
     case Option.bind (status_pid status) (\<lambda>p. thread_position p (snd s')) of
       Some i \<Rightarrow> Some ((fst s', upd_thread i (\<lambda>t. t\<lparr>wt_is_running := False\<rparr>) (snd s')), Inr status)
     | None \<Rightarrow> wr_waitpid os s') s"

definition drop_thread :: "'w os \<Rightarrow> pid \<Rightarrow> ('w \<times> wrapper, unit) io" where
  "drop_thread os p =
     bind_io get_st (\<lambda>(_, k).
     case thread_position p k of
       None \<Rightarrow> lift_res (panic ''BUG! must not drop threads which are not present'')
     | Some i \<Rightarrow>
         bind_io (upd_snd (\<lambda>k. k\<lparr>wr_threads := take i (wr_threads k) @ drop (Suc i) (wr_threads k)\<rparr>)) (\<lambda>_.
         bind_io (on_fst (thread_drop os (wt_ptthread (wr_threads k ! i)))) (\<lambda>_.
         upd_snd (\<lambda>k. if i < wr_process_idx k then k\<lparr>wr_process_idx := wr_process_idx k - 1\<rparr> else k))))"

definition vcpu_map :: "vcpu \<Rightarrow> mapping res" where
  "vcpu_map v =
     require_with (vc_map v) ''vcpu_map must be initialized before use (programming error)''"

text \<open>The part of \<^verbatim>\<open>stopped\<close> after reading the registers of the thread at index \<open>i\<close>.\<close>

definition ioctl_stopped :: "'w os \<Rightarrow> kvm_abi \<Rightarrow> pid \<Rightarrow> nat \<Rightarrow> regs \<Rightarrow> ('w \<times> wrapper, mmio_rw option) io" where
  "ioctl_stopped os abi p i regs =
     (let params = get_syscall_params regs; ioctl_fd = params ! 1; ioctl_request = params ! 2 in
      if params ! 0 \<noteq> 16 then ret None
      else
        bind_io (upd_snd (upd_thread i toggle_in_syscall)) (\<lambda>_.
        bind_io get_st (\<lambda>(_, k).
        if ioctl_request \<noteq> KVM_RUN then ret None
        else if wt_in_syscall (wr_threads k ! i) then ret None
        else if syscall_ret regs \<noteq> 0 then ret None
        else
          case find (\<lambda>v. vc_fd_num v = ucast ioctl_fd) (wr_vcpus k) of
            None \<Rightarrow> ret None
          | Some v \<Rightarrow>
              bind_io (lift_res (vcpu_map v)) (\<lambda>m.
              bind_io (on_fst (process_read os p (mp_start m) (ka_run_size abi))) (\<lambda>bs.
              ret (mmio_from (ka_decode_run abi bs) (wt_tid (wr_threads k ! i)) m))))))"

definition stopped :: "'w os \<Rightarrow> kvm_abi \<Rightarrow> pid \<Rightarrow> ('w \<times> wrapper, mmio_rw option) io" where
  "stopped os abi p =
     bind_io get_st (\<lambda>(_, k).
     case thread_position p k of
       None \<Rightarrow> lift_res (bail ''received stop for unkown process'')
     | Some i \<Rightarrow>
         bind_io (on_fst (try_io (th_getregs os (wt_ptthread (wr_threads k ! i))) ''cannot syscall results'')) (\<lambda>regs.
         ioctl_stopped os abi p i regs))"

definition process_status :: "'w os \<Rightarrow> kvm_abi \<Rightarrow> wait_status \<Rightarrow> ('w \<times> wrapper, mmio_rw option) io" where
  "process_status os abi status =
     (case status of
        PtraceSyscall p \<Rightarrow> stopped os abi p
      | Exited t _ \<Rightarrow> bind_io (drop_thread os t) (\<lambda>_. ret None)
      | _ \<Rightarrow> ret None)"

definition wait_for_ioctl :: "'w os \<Rightarrow> kvm_abi \<Rightarrow> thread_id \<Rightarrow> ('w \<times> wrapper, mmio_rw option) io" where
  "wait_for_ioctl os abi me =
     bind_io get_st (\<lambda>(_, k).
     bind_io (lift_res (check_owner (wr_owner k) me)) (\<lambda>_.
     bind_io (stop_on_syscall os) (\<lambda>_.
     bind_io (try_io (wr_waitpid os) ''cannot waitpid'') (\<lambda>status.
     try_io (process_status os abi status) ''cannot process status''))))"

section \<open>The threads of a wrapper\<close>

abbreviation wr_tids :: "wrapper \<Rightarrow> pid list" where
  "wr_tids k \<equiv> map wt_tid (wr_threads k)"

text \<open>The same wrapper up to the states of its threads.\<close>

definition same_threads :: "wrapper \<Rightarrow> wrapper \<Rightarrow> bool" where
  "same_threads k k' \<longleftrightarrow>
     wr_tids k' = wr_tids k \<and> wr_process_idx k' = wr_process_idx k \<and> wr_owner k' = wr_owner k \<and>
     wr_process_group k' = wr_process_group k \<and> wr_vcpus k' = wr_vcpus k"

lemma same_threads_order [simp]:
  "reflp same_threads" "transp same_threads"
  "reflp (\<lambda>s s'. same_threads (snd s) (snd s'))" "transp (\<lambda>s s'. same_threads (snd s) (snd s'))"
  by (auto simp: same_threads_def reflp_def transp_def)

lemma same_threads_upd: "(\<And>t. wt_tid (f t) = wt_tid t) \<Longrightarrow> same_threads k (upd_thread i f k)"
  by (cases "i < length (wr_threads k)")
    (auto simp: same_threads_def upd_thread_def map_update list_update_same_conv list_update_beyond)

lemma stop_on_syscall_frame: "frames (\<lambda>s s'. same_threads (snd s) (snd s')) (stop_on_syscall os)"
  unfolding stop_on_syscall_def
  by (auto intro!: frame_intros same_threads_upd split: prod.split)

lemma wr_waitpid_frame: "frames (\<lambda>s s'. same_threads (snd s) (snd s')) (wr_waitpid os)"
proof -
  have "same_threads (snd s) (snd (fst y))" if "wr_waitpid os s = Some y" for s y
    using that
  proof (induction rule: wr_waitpid.raw_induct[rotated, consumes 1, case_names step])
    case (step f os s y)
    obtain s2 r where y: "y = (s2, r)" by fastforce
    from step(2)[unfolded y] show ?case
    proof (rule bind_io_SomeE)
      fix e assume "on_fst (try_io (os_waitpid os (- wr_process_group (snd s)) WALL) ''cannot wait for ioctl syscall'') s = Some (s2, Inl e)"
      then show ?thesis by (auto simp: y io_simps intro: reflpD)
    next
      fix s1 status
      assume s1: "on_fst (try_io (os_waitpid os (- wr_process_group (snd s)) WALL) ''cannot wait for ioctl syscall'') s = Some (s1, Inr status)"
        and rest: "(case Option.bind (status_pid status) (\<lambda>p. thread_position p (snd s1)) of
            None \<Rightarrow> f os s1 | Some i \<Rightarrow> Some ((fst s1, upd_thread i (wt_is_running_update (\<lambda>_. False)) (snd s1)), Inr status)) = Some (s2, r)"
      have "snd s1 = snd s" using s1 by (simp add: io_simps)
      then show ?thesis
        using rest step(1)[of os s1 y] same_threads_upd[of "wt_is_running_update (\<lambda>_. False)" "snd s"]
        by (auto simp: y split: option.splits)
    qed
  qed
  then show ?thesis by (auto simp: frames_def)
qed

lemma stopped_frame: "frames (\<lambda>s s'. same_threads (snd s) (snd s')) (stopped os abi p)"
  unfolding stopped_def ioctl_stopped_def
  by (auto intro!: frame_intros same_threads_upd simp: toggle_in_syscall_def Let_def split: prod.split option.split)

text \<open>Removing a thread: the others keep their order, and the index follows the thread it points to.\<close>

definition thread_removed :: "pid \<Rightarrow> wrapper \<Rightarrow> wrapper \<Rightarrow> bool" where
  "thread_removed p k k' \<longleftrightarrow>
     (\<exists>i < length (wr_threads k). wr_tids k ! i = p \<and> wr_tids k' = take i (wr_tids k) @ drop (Suc i) (wr_tids k) \<and>
        wr_process_idx k' = (if i < wr_process_idx k then wr_process_idx k - 1 else wr_process_idx k)) \<and>
     wr_owner k' = wr_owner k \<and> wr_process_group k' = wr_process_group k \<and> wr_vcpus k' = wr_vcpus k"

lemma drop_thread_removes:
  assumes "drop_thread os p (w, k) = Some ((w', k'), Inr ())"
  shows "thread_removed p k k'"
proof (cases "thread_position p k")
  case None
  then show ?thesis using assms by (simp add: drop_thread_def bind_io_def get_st_def lift_res_def)
next
  case (Some i)
  let ?k = "k\<lparr>wr_threads := take i (wr_threads k) @ drop (Suc i) (wr_threads k)\<rparr>"
  have k': "k' = (if i < wr_process_idx k then ?k\<lparr>wr_process_idx := wr_process_idx k - 1\<rparr> else ?k)"
    using assms by (clarsimp simp: drop_thread_def Some bind_io_Inr upd_snd_Some on_fst_Some)
  have "i < length (wr_threads k)" "wr_tids k ! i = p"
    using Some by (auto simp: thread_position_def position_Some_iff)
  then show ?thesis unfolding thread_removed_def k' by (intro conjI exI[of _ i]) (simp_all add: take_map drop_map)
qed

text \<open>The main thread \<open>p\<close>, if it is still traced, is where the index says.\<close>

definition main_at_idx :: "pid \<Rightarrow> wrapper \<Rightarrow> bool" where
  "main_at_idx p k \<longleftrightarrow>
     distinct (wr_tids k) \<and>
     (p \<in> set (wr_tids k) \<longrightarrow> wr_process_idx k < length (wr_tids k) \<and> wr_tids k ! wr_process_idx k = p)"

lemma main_at_idx_same: "\<lbrakk>same_threads k k'; main_at_idx p k\<rbrakk> \<Longrightarrow> main_at_idx p k'"
  unfolding same_threads_def main_at_idx_def by metis

lemma remove_nth:
  assumes "distinct xs" "i < length xs" "n < length xs" "n \<noteq> i"
  defines "ys \<equiv> take i xs @ drop (Suc i) xs"
  shows "distinct ys" and "xs ! i \<notin> set ys" and "(if i < n then n - 1 else n) < length ys"
    and "ys ! (if i < n then n - 1 else n) = xs ! n"
proof -
  have "distinct (take i xs @ xs ! i # drop (Suc i) xs)"
    using assms(1,2) by (simp add: id_take_nth_drop[symmetric])
  then show "distinct ys" "xs ! i \<notin> set ys" by (auto simp: ys_def)
  show "(if i < n then n - 1 else n) < length ys" "ys ! (if i < n then n - 1 else n) = xs ! n"
    using assms(2-4) by (auto simp: ys_def nth_append)
qed

lemma main_at_idx_removed:
  assumes "thread_removed q k k'" "main_at_idx p k"
  shows "main_at_idx p k'"
proof -
  define xs where "xs = wr_tids k"
  define n where "n = wr_process_idx k"
  obtain i where i: "i < length xs" "xs ! i = q" and t: "wr_tids k' = take i xs @ drop (Suc i) xs"
    and x: "wr_process_idx k' = (if i < n then n - 1 else n)"
    using assms(1) by (auto simp: thread_removed_def xs_def n_def)
  have d: "distinct xs" and m: "p \<in> set xs \<longrightarrow> n < length xs \<and> xs ! n = p"
    using assms(2) unfolding main_at_idx_def xs_def n_def by blast+
  have "distinct (take i xs @ xs ! i # drop (Suc i) xs)"
    using d i(1) by (simp add: id_take_nth_drop[symmetric])
  then have d': "distinct (wr_tids k')" "q \<notin> set (wr_tids k')" unfolding t using i(2) by auto
  have "wr_process_idx k' < length (wr_tids k') \<and> wr_tids k' ! wr_process_idx k' = p" if p: "p \<in> set (wr_tids k')"
  proof -
    have "p \<in> set xs" using p unfolding t by (auto dest: in_set_takeD in_set_dropD)
    then have n: "n < length xs" "xs ! n = p" using m by auto
    have "n \<noteq> i" using n(2) i(2) d'(2) p by auto
    then show ?thesis using remove_nth(3,4)[OF d i(1) n(1)] n(2) unfolding t x by simp
  qed
  then show ?thesis using d' unfolding main_at_idx_def by blast
qed

lemma drop_thread_Inl:
  assumes "drop_thread os p s = Some (s', Inl e)" shows "panics (Inl e)"
proof -
  have ign: "ignore_io m w = Some (w', Inl e) \<Longrightarrow> panics (Inl e)" for m :: "('a, unit) io" and w w'
    by (auto simp: ignore_io_def attempt_def ret_def bind_io_def split: option.splits sum.splits error.splits)
  show ?thesis
  proof (cases "thread_position p (snd s)")
    case None
    then show ?thesis using assms by (auto simp: drop_thread_def lift_res_def panic_def split: prod.splits)
  next
    case (Some i)
    then show ?thesis
      using assms by (auto simp: drop_thread_def bind_io_Inl on_fst_Some thread_drop_def upd_snd_Some split: prod.splits dest: ign)
  qed
qed

definition threads_kept :: "'w \<times> wrapper \<Rightarrow> 'w \<times> wrapper \<Rightarrow> bool" where
  "threads_kept s s' \<longleftrightarrow> same_threads (snd s) (snd s') \<or> (\<exists>q. thread_removed q (snd s) (snd s'))"

lemma process_status_threads: "ends threads_kept (process_status os abi status)"
proof (cases status)
  case (PtraceSyscall p)
  then show ?thesis
    by (auto simp: process_status_def threads_kept_def intro!: ends_frames[OF stopped_frame])
next
  case (Exited t x)
  show ?thesis
    unfolding ends_def
  proof (intro allI impI)
    fix s s' r assume r: "process_status os abi status s = Some (s', r)" "\<not> panics r"
    then have "bind_io (drop_thread os t) (\<lambda>_. ret None) s = Some (s', r)" using Exited by (simp add: process_status_def)
    then show "threads_kept s s'"
    proof (rule bind_io_SomeE)
      fix e assume "drop_thread os t s = Some (s', Inl e)" "r = Inl e"
      then show ?thesis using drop_thread_Inl r(2) by blast
    next
      fix s1 u assume "drop_thread os t s = Some (s1, Inr u)" "ret None s1 = Some (s', r)"
      then show ?thesis
        using drop_thread_removes[of os t "fst s" "snd s" "fst s1" "snd s1"] by (auto simp: ret_def threads_kept_def)
    qed
  qed
qed (auto simp: process_status_def ret_def same_threads_def ends_def threads_kept_def)

lemma wait_for_ioctl_threads: "ends threads_kept (wait_for_ioctl os abi me)"
proof -
  have kept: "threads_kept s s'" if "same_threads (snd s) (snd s')" for s s' :: "'a \<times> wrapper"
    using that by (simp add: threads_kept_def)
  have trans: "threads_kept s s'" if "same_threads (snd s) (snd s1)" "threads_kept s1 s'" for s s1 s' :: "'a \<times> wrapper"
    using that unfolding threads_kept_def same_threads_def thread_removed_def by (metis length_map)
  note bind = ends_bind[where R = "\<lambda>s s'. same_threads (snd s) (snd s')", OF _ _ kept trans]
  show ?thesis
    unfolding wait_for_ioctl_def case_prod_unfold
    by (intro ends_get bind ends_try process_status_threads) (auto intro!: frame_intros stop_on_syscall_frame wr_waitpid_frame)
qed

text \<open>The wrappers reached by waiting for requests, in whatever state the world is at each call.\<close>

inductive wr_reachable :: "'w os \<Rightarrow> kvm_abi \<Rightarrow> wrapper \<Rightarrow> wrapper \<Rightarrow> bool" for os abi k0 where
  wr_init: "wr_reachable os abi k0 k0"
| wr_step: "\<lbrakk>wr_reachable os abi k0 k; wait_for_ioctl os abi me (w, k) = Some ((w', k'), r); \<not> panics r\<rbrakk>
    \<Longrightarrow> wr_reachable os abi k0 k'"

text \<open>
  C16: However many requests are waited for, with whatever results, and whichever threads exit on the
  way: the threads of the wrapper are some of the original ones, each of them once, and as long as
  the main thread is among them, the index of the wrapper is that of the main thread.
\<close>

theorem wrapper_main_thread:
  assumes "wr_reachable os abi k0 k" and "main_at_idx p k0"
  shows "main_at_idx p k \<and> set (wr_tids k) \<subseteq> set (wr_tids k0) \<and> wr_owner k = wr_owner k0"
  using assms
proof (induction rule: wr_reachable.induct)
  case (wr_step k me w w' k' r)
  have "threads_kept (w, k) (w', k')" using endsD[OF wait_for_ioctl_threads wr_step.hyps(2,3)] .
  then consider "same_threads k k'" | q where "thread_removed q k k'" by (auto simp: threads_kept_def)
  then show ?case
  proof cases
    case 1
    then have "set (wr_tids k') = set (wr_tids k)" "wr_owner k' = wr_owner k"
      unfolding same_threads_def by (auto simp only:)
    then show ?thesis using wr_step.IH[OF wr_step.prems] main_at_idx_same[OF 1] by simp
  next
    case 2
    then obtain i where t: "wr_tids k' = take i (wr_tids k) @ drop (Suc i) (wr_tids k)" and o: "wr_owner k' = wr_owner k"
      unfolding thread_removed_def by blast
    have "set (wr_tids k') \<subseteq> set (wr_tids k)"
      unfolding t set_append by (intro Un_least set_take_subset set_drop_subset)
    then have "set (wr_tids k') \<subseteq> set (wr_tids k0)" using wr_step.IH[OF wr_step.prems] by (meson subset_trans)
    then show ?thesis using wr_step.IH[OF wr_step.prems] main_at_idx_removed[OF 2] o by simp
  qed
qed simp

text \<open>
  C13: An MMIO request is reported only when a virtual CPU has just left \<^verbatim>\<open>ioctl(KVM_RUN)\<close> because of
  one: the stopped thread was inside a system call, its registers show a successful
  \<^verbatim>\<open>ioctl(KVM_RUN)\<close> on the descriptor of a known virtual CPU, the \<^verbatim>\<open>kvm_run\<close> structure mapped for
  this CPU has the MMIO exit reason, and the request is the one in the structure.
\<close>

theorem mmio_only_on_exit:
  assumes "stopped os abi p (w, k) = Some ((w', k'), Inr (Some m))"
  shows "\<exists>i regs v vm bs w1.
    thread_position p k = Some i \<and> wt_in_syscall (wr_threads k ! i) \<and> \<not> wt_in_syscall (wr_threads k' ! i) \<and>
    os_getregs os p w = Some (w1, Inr regs) \<and> orig_rax regs = 16 \<and> rsi regs = KVM_RUN \<and> rax regs = 0 \<and>
    v \<in> set (wr_vcpus k) \<and> vc_fd_num v = ucast (rdi regs) \<and> vc_map v = Some vm \<and>
    os_vm_read os p (mp_start vm) (ka_run_size abi) w1 = Some (w', Inr bs) \<and>
    kr_exit_reason (ka_decode_run abi bs) = KVM_EXIT_MMIO \<and> m = mmio_new (kr_mmio (ka_decode_run abi bs)) p vm"
proof -
  obtain i where i: "thread_position p k = Some i"
    using assms by (cases "thread_position p k") (auto simp: stopped_def io_simps bail_def)
  have ti: "i < length (wr_threads k)" "wt_tid (wr_threads k ! i) = p"
    using i by (auto simp: thread_position_def position_Some_iff)
  obtain w1 regs where g: "os_getregs os p w = Some (w1, Inr regs)"
    and r: "ioctl_stopped os abi p i regs (w1, k) = Some ((w', k'), Inr (Some m))"
    using assms by (auto simp: stopped_def i ti(2) bind_io_Inr on_fst_Some try_io_Inr th_getregs_def)
  let ?k = "upd_thread i toggle_in_syscall k"
  have ki: "wt_in_syscall (wr_threads ?k ! i) \<longleftrightarrow> \<not> wt_in_syscall (wr_threads k ! i)"
    "wt_tid (wr_threads ?k ! i) = p" "wr_vcpus ?k = wr_vcpus k"
    using ti by (simp_all add: upd_thread_def toggle_in_syscall_def)
  note ioctl = ioctl_stopped_def Let_def get_syscall_params_def syscall_ret_def ki
  have c: "orig_rax regs = 16" "rsi regs = KVM_RUN" "wt_in_syscall (wr_threads k ! i)" "rax regs = 0"
    using r by (auto simp: ioctl ret_def split: if_splits)
  obtain v where v: "find (\<lambda>v. vc_fd_num v = ucast (rdi regs)) (wr_vcpus k) = Some v"
    using r c by (auto simp: ioctl ret_def split: option.splits)
  obtain vm bs where "vc_map v = Some vm" "os_vm_read os p (mp_start vm) (ka_run_size abi) w1 = Some (w', Inr bs)"
      "k' = ?k" "mmio_from (ka_decode_run abi bs) p vm = Some m"
    using r c v by (auto simp: ioctl vcpu_map_def process_read_def io_simps require_with_Inr)
  then show ?thesis
    using i g c ki find_Some_mem[OF v] by (auto simp: mmio_from_def split: if_splits)
qed

lemma wrapper_tracer_same:
  assumes "wr_from_tracer os t w = Some (w1, Inr k)"
  shows "wr_into_tracer os k w2 = Some (w2, Inr t)"
proof -
  have k: "wr_threads k = map wthread_new (tr_threads t)" "wr_process_idx k = tr_process_idx t"
      "wr_owner k = tr_owner t" "wr_vcpus k = tr_vcpus t"
    using assms by (auto simp: wr_from_tracer_def io_simps)
  have "for_io (map wthread_new ts) (\<lambda>t. try_io (wt_prepare_detach os t) msg) w2 = Some (w2, Inr ())" for ts msg
    by (induction ts) (simp_all add: ret_def wt_prepare_detach_def wthread_new_def try_io_def bind_io_def)
  then have "on_err (wr_prepare_detach os k) (wr_drop os k) w2 = Some (w2, Inr ())"
    by (simp add: wr_prepare_detach_def k on_err_def)
  then show ?thesis
    by (simp add: wr_into_tracer_def k comp_def wthread_new_def ret_def)
qed

text \<open>
  Turning a tracer into a wrapper and back is the identity: if no thread has been resumed, the
  tracer that comes back has the same threads, index, owner and virtual CPUs, and nothing is done to
  the process.
\<close>

theorem wrapper_tracer_roundtrip:
  assumes "wr_from_tracer os t w = Some (w1, Inr k)"
  shows "wr_into_tracer os k w2 = Some (w2, Inr t)"
  by (rule wrapper_tracer_same[OF assms])

text \<open>
  Writing the memory of another process (\<^verbatim>\<open>process_vm_writev\<close>): a successful call replaces the bytes from
  the address on.
\<close>

definition write_bytes :: "(u64 \<Rightarrow> u8) \<Rightarrow> u64 \<Rightarrow> bytes \<Rightarrow> u64 \<Rightarrow> u8" where
  "write_bytes m a bs b = (if unat (b - a) < length bs then bs ! unat (b - a) else m b)"

definition vm_write_ok :: "'w os \<Rightarrow> ('w \<Rightarrow> u64 \<Rightarrow> u8) \<Rightarrow> bool" where
  "vm_write_ok os M \<longleftrightarrow>
     (\<forall>p a bs w w'. os_vm_write os p a bs w = Some (w', Inr ()) \<longrightarrow> M w' = write_bytes (M w) a bs)"

text \<open>
  C36: Answering an MMIO read: on success the request was a read of exactly as many bytes, and the
  memory of the process is changed in the data field of its \<^verbatim>\<open>kvm_run\<close>, which gets the answer
  followed by the old data, and in the write flag, which becomes 1. An answer to a write or of the
  wrong length is refused and changes nothing.
\<close>

theorem answer_read_effect:
  assumes "vm_write_ok os M"
  shows "(answer_read os abi data (w, m) = Some ((w', m'), Inr ()) \<longrightarrow>
      \<not> mw_is_write m \<and> length data = mw_len m \<and> mw_len m \<le> length (mw_data m) \<and>
      m' = m\<lparr>mw_data := data @ drop (length data) (mw_data m)\<rparr> \<and>
      M w' = write_bytes (write_bytes (M w) (mp_start (mw_vcpu_map m) + ka_mmio_data abi) (mw_data m'))
               (mp_start (mw_vcpu_map m) + ka_mmio_is_write abi) [1]) \<and>
    (mw_is_write m \<or> length data \<noteq> mw_len m \<longrightarrow> (\<exists>e. answer_read os abi data (w, m) = Some ((w, m), Inl (Err e))))"
proof (intro conjI[of "_ \<longrightarrow> _"] impI)
  assume a: "answer_read os abi data (w, m) = Some ((w', m'), Inr ())"
  let ?m = "m\<lparr>mw_data := data @ drop (mw_len m) (mw_data m)\<rparr>"
  have len: "\<not> mw_is_write m" "length data = mw_len m"
    using a by (auto simp: answer_read_def lift_res_def bail_def split: if_splits)
  then obtain w1 where s: "mw_len m \<le> length (mw_data m)" and m': "m' = ?m"
    and w1: "os_vm_write os (mw_pid m) (mp_start (mw_vcpu_map m) + ka_mmio_data abi) (mw_data ?m) w = Some (w1, Inr ())"
    and w2: "os_vm_write os (mw_pid m) (mp_start (mw_vcpu_map m) + ka_mmio_is_write abi) [1] w1 = Some (w', Inr ())"
    using a by (auto simp: answer_read_def mmio_data_def process_write_def io_simps slice_range_Inr Let_def)
  have "M w1 = write_bytes (M w) (mp_start (mw_vcpu_map m) + ka_mmio_data abi) (mw_data ?m)"
    "M w' = write_bytes (M w1) (mp_start (mw_vcpu_map m) + ka_mmio_is_write abi) [1]"
    using assms w1 w2 unfolding vm_write_ok_def by blast+
  then show "\<not> mw_is_write m \<and> length data = mw_len m \<and> mw_len m \<le> length (mw_data m) \<and>
      m' = m\<lparr>mw_data := data @ drop (length data) (mw_data m)\<rparr> \<and>
      M w' = write_bytes (write_bytes (M w) (mp_start (mw_vcpu_map m) + ka_mmio_data abi) (mw_data m'))
               (mp_start (mw_vcpu_map m) + ka_mmio_is_write abi) [1]"
    using len s m' by simp
next
  assume "mw_is_write m \<or> length data \<noteq> mw_len m"
  then show "\<exists>e. answer_read os abi data (w, m) = Some ((w, m), Inl (Err e))"
    by (auto simp: answer_read_def lift_res_def bail_def)
qed

section \<open>An example\<close>

text \<open>
  The wrapper of the example process: thread 8 is in \<^verbatim>\<open>ioctl(KVM_RUN)\<close> on the descriptor 5, whose
  \<^verbatim>\<open>kvm_run\<close> is at 0x10000, with the layout of the kernel.
\<close>

definition sim_abi :: kvm_abi where
  "sim_abi = \<lparr>ka_run_size = 56,
     ka_decode_run = (\<lambda>bs. \<lparr>kr_exit_reason = field 8 4 bs, kr_mmio = \<lparr>mr_phys_addr = field 32 8 bs,
       mr_data = take 8 (drop 40 bs), mr_len = field 48 4 bs, mr_is_write = field 52 1 bs\<rparr>\<rparr>),
     ka_mmio_data = 40, ka_mmio_is_write = 52\<rparr>"

definition sim_vcpu :: vcpu where
  "sim_vcpu = \<lparr>vc_idx = 0, vc_fd_num = 5, vc_map = Some guest_ex_mapping\<rparr>"

definition sim_tracer :: tracer where
  "sim_tracer = \<lparr>tr_process_idx = 1, tr_owner = Some 1, tr_threads = sim_threads, tr_vcpus = [sim_vcpu]\<rparr>"

definition sim_wrapper :: wrapper where
  "sim_wrapper = \<lparr>wr_process_idx = 1, wr_threads = [\<lparr>wt_ptthread = \<lparr>tid = 8\<rparr>, wt_is_running = True, wt_in_syscall = True\<rparr>,
     \<lparr>wt_ptthread = \<lparr>tid = 7\<rparr>, wt_is_running = True, wt_in_syscall = False\<rparr>], wr_process_group = 7,
     wr_owner = Some 1, wr_vcpus = [sim_vcpu]\<rparr>"

definition sim_mmio_bytes :: bytes where
  "sim_mmio_bytes = replicate 8 0 @ word_bytes 4 (6 :: u32) @ replicate 20 0 @ word_bytes 8 (0xd0000000 :: u64)
     @ [1, 2, 3, 4, 5, 6, 7, 8] @ word_bytes 4 (4 :: u32) @ [0, 0, 0, 0]"

definition sim_run :: sim where
  "sim_run = sim0\<lparr>sim_regs := (\<lambda>p. zero_regs\<lparr>orig_rax := 16, rdi := 5, rsi := 0xae80\<rparr>),
     sim_mem := (\<lambda>a. if a - 0x10000 < 56 then sim_mmio_bytes ! unat (a - 0x10000) else 0)\<rparr>"

lemma sim_vm_write: "vm_write_ok sim_os sim_mem"
  by (auto simp: vm_write_ok_def sim_os_def write_bytes_def)

theorem wrapper_tracer_roundtrip_witness:
  "\<exists>w k. wr_from_tracer sim_os sim_tracer sim0 = Some (w, Inr k) \<and> wr_into_tracer sim_os k sim_run = Some (sim_run, Inr sim_tracer)"
proof -
  obtain w k where k: "wr_from_tracer sim_os sim_tracer sim0 = Some (w, Inr k)"
    by (simp add: wr_from_tracer_def on_err_def sim_tracer_def tr_main_thread_def sim_threads_def index_res_def
        get_process_group_def sim_os_def bind_io_def try_io_def ret_def)
  from wrapper_tracer_roundtrip[OF k, of sim_run] k show ?thesis by blast
qed

lemma sim_stopped:
  "(case stopped sim_os sim_abi 8 (sim_run, sim_wrapper) of
      Some (s, Inr x) \<Rightarrow> (case x of Some m \<Rightarrow> mw_addr m = 0xd0000000 \<and> mw_len m = 4 | None \<Rightarrow> False) | _ \<Rightarrow> False)"
  by code_simp

theorem mmio_only_on_exit_witness:
  "\<exists>v vm bs. v \<in> set (wr_vcpus sim_wrapper) \<and> vc_fd_num v = 5 \<and> vc_map v = Some vm \<and>
    os_vm_read sim_os 8 (mp_start vm) 56 sim_run = Some (sim_run, Inr bs) \<and> kr_exit_reason (ka_decode_run sim_abi bs) = KVM_EXIT_MMIO"
proof -
  obtain w k m where "stopped sim_os sim_abi 8 (sim_run, sim_wrapper) = Some ((w, k), Inr (Some m))"
    using run_io_okD[OF sim_stopped] by (auto split: option.splits)
  from mmio_only_on_exit[OF this] obtain regs v vm bs w1 where
    "os_getregs sim_os 8 sim_run = Some (w1, Inr regs)" "v \<in> set (wr_vcpus sim_wrapper)" "vc_fd_num v = ucast (rdi regs)"
    "vc_map v = Some vm" "os_vm_read sim_os 8 (mp_start vm) (ka_run_size sim_abi) w1 = Some (w, Inr bs)"
    "kr_exit_reason (ka_decode_run sim_abi bs) = KVM_EXIT_MMIO" by blast
  then show ?thesis by (intro exI[of _ v] exI[of _ vm] exI[of _ bs]) (auto simp: sim_os_def sim_run_def sim_abi_def)
qed

definition sim_mmio :: mmio_rw where
  "sim_mmio = \<lparr>mw_addr = 0xd0000000, mw_is_write = False, mw_data = [1, 2, 3, 4, 5, 6, 7, 8], mw_len = 4, mw_pid = 8,
     mw_vcpu_map = guest_ex_mapping\<rparr>"

theorem answer_read_effect_witness:
  "\<exists>w' m'. answer_read sim_os sim_abi [9, 9, 9, 9] (sim_run, sim_mmio) = Some ((w', m'), Inr ()) \<and>
     sim_mem w' 0x10028 = 9 \<and> sim_mem w' 0x1002c = 5 \<and> sim_mem w' 0x10034 = 1 \<and>
     (\<exists>e. answer_read sim_os sim_abi [9] (sim_run, sim_mmio) = Some ((sim_run, sim_mmio), Inl (Err e)))"
proof -
  obtain w' m' where a: "answer_read sim_os sim_abi [9, 9, 9, 9] (sim_run, sim_mmio) = Some ((w', m'), Inr ())"
    by (simp add: answer_read_def sim_mmio_def mmio_data_def slice_range_def bind_io_def upd_snd_def get_st_def lift_res_def
        on_fst_def process_write_def sim_os_def Let_def)
  have "sim_mem w' 0x10028 = 9" "sim_mem w' 0x1002c = 5" "sim_mem w' 0x10034 = 1"
    using answer_read_effect[OF sim_vm_write, of sim_abi "[9, 9, 9, 9]" sim_run sim_mmio w' m'] a by (auto simp: sim_mmio_def sim_abi_def guest_ex_mapping_def write_bytes_def)
  then show ?thesis using a answer_read_effect[OF sim_vm_write, of sim_abi "[9]" sim_run sim_mmio] by (auto simp: sim_mmio_def)
qed

lemma sim_wrapper_main: "main_at_idx 7 sim_wrapper"
  by (simp add: main_at_idx_def sim_wrapper_def)

text \<open>Thread 8 exits: the index of the wrapper moves to the new place of the main thread.\<close>

lemma sim_exit:
  "\<exists>w k r. wait_for_ioctl sim_os sim_abi 1 (sim_run\<lparr>sim_status := [Exited 8 0]\<rparr>, sim_wrapper) = Some ((w, k), r) \<and>
     is_ok r \<and> wr_tids k = [7]"
proof -
  let ?s = "(sim_run\<lparr>sim_status := [Exited 8 0]\<rparr>, sim_wrapper)"
  have 1: "stop_on_syscall sim_os ?s = Some (?s, Inr ())"
    by (simp add: stop_on_syscall_def sim_wrapper_def upt_rec bind_io_def ret_def get_st_def)
  have 2: "\<exists>w k. wr_waitpid sim_os ?s = Some ((w, k), Inr (Exited 8 0)) \<and> wr_tids k = [8, 7]"
    by (subst wr_waitpid.simps)
      (simp add: bind_io_def on_fst_def try_io_def sim_os_def thread_position_def sim_wrapper_def upd_thread_def)
  then obtain w k where k: "wr_waitpid sim_os ?s = Some ((w, k), Inr (Exited 8 0))" "wr_tids k = [8, 7]" by auto
  have pos: "thread_position 8 k = Some 0" using k(2) by (cases "wr_threads k") (auto simp: thread_position_def)
  have 3: "\<exists>w' k'. process_status sim_os sim_abi (Exited 8 0) (w, k) = Some ((w', k'), Inr None) \<and> wr_tids k' = [7]"
    using k(2) pos by (auto simp: process_status_def drop_thread_def bind_io_def on_fst_def thread_drop_def ignore_io_def
        attempt_def sim_os_def ret_def upd_snd_def get_st_def drop_map[symmetric])
  have "check_owner (wr_owner sim_wrapper) 1 = Inr ()" by (simp add: check_owner_def sim_wrapper_def)
  then show ?thesis using 1 k(1) 3 by (auto simp: wait_for_ioctl_def)
qed

theorem wrapper_main_thread_witness:
  "\<exists>k. wr_reachable sim_os sim_abi sim_wrapper k \<and> wr_tids k = [7] \<and> wr_process_idx k = 0"
proof -
  obtain w k x where x: "wait_for_ioctl sim_os sim_abi 1 (sim_run\<lparr>sim_status := [Exited 8 0]\<rparr>, sim_wrapper) = Some ((w, k), x)"
      "is_ok x" "wr_tids k = [7]"
    using sim_exit by auto
  have "\<not> panics x" using x(2) by (cases x) auto
  then have re: "wr_reachable sim_os sim_abi sim_wrapper k" by (rule wr_step[OF wr_init x(1)])
  have "7 \<in> set (wr_tids k)" unfolding x(3) by simp
  then have "wr_process_idx k < length (wr_tids k)"
    using wrapper_main_thread[OF re sim_wrapper_main] unfolding main_at_idx_def by argo
  then have "wr_process_idx k = 0" unfolding x(3) by simp
  then show ?thesis using re x(3) by (intro exI[of _ k] conjI)
qed

end
