(* ===== verification/Tracee.thy ===== *)
theory Tracee
  imports Tracer_Wrap
begin

text \<open>
  \<^verbatim>\<open>src/kvm/tracee.rs\<close> and \<^verbatim>\<open>src/kvm/hypervisor/memory.rs\<close>: the traced hypervisor and memory in it. What is
  read from the kernel about the process (memslots through eBPF, mappings) is the record \<open>kenv\<close>; the
  memory layout of structures of the KVM interface is a \<open>codec\<close>.
\<close>

record 'a codec =
  cd_size :: usize
  cd_enc :: "'a \<Rightarrow> bytes"
  cd_dec :: "bytes \<Rightarrow> 'a"

record 'w kenv =
  ke_attach_bpf :: "pid \<Rightarrow> ('w, unit) io"
  ke_recv_memslots :: "('w, mem_slot list) io"
  ke_maps :: "pid \<Rightarrow> ('w, mapping list) io"

section \<open>The tracee\<close>

record tracee =
  te_pid :: pid
  te_vm_fd :: raw_fd
  te_proc :: "process option"

definition try_get_proc :: "tracee \<Rightarrow> process res" where
  "try_get_proc te =
     (case te_proc te of
        None \<Rightarrow> bail ''programming error: tracee is not attached.''
      | Some p \<Rightarrow> Inr p)"

text \<open>An operation on the process of the tracee, which it changes in place.\<close>

definition on_proc :: "('w \<times> process, 'a) io \<Rightarrow> ('w \<times> tracee, 'a) io" where
  "on_proc m ws =
     (case try_get_proc (snd ws) of
        Inl e \<Rightarrow> Some (ws, Inl e)
      | Inr p \<Rightarrow> map_option (\<lambda>((w', p'), r). ((w', (snd ws)\<lparr>te_proc := Some p'\<rparr>), r)) (m (fst ws, p)))"

definition te_adopt :: "'w os \<Rightarrow> thread_id \<Rightarrow> ('w \<times> tracee, unit) io" where
  "te_adopt os me = on_proc (adopt os me)"

definition te_disown :: "'w os \<Rightarrow> ('w \<times> tracee, unit) io" where
  "te_disown os = on_proc (disown os)"

definition te_attach :: "'w os \<Rightarrow> thread_id \<Rightarrow> ('w \<times> tracee, unit) io" where
  "te_attach os me =
     bind_io get_st (\<lambda>(_, te).
     if te_proc te = None
     then
       bind_io (on_fst (try_io (inj_attach os me (te_pid te)) ''cannot attach to hypervisor'')) (\<lambda>p.
       upd_snd (\<lambda>te. te\<lparr>te_proc := Some p\<rparr>))
     else ret ())"

definition te_attach_to :: "'w os \<Rightarrow> process \<Rightarrow> ('w \<times> tracee, unit) io" where
  "te_attach_to os injector =
     bind_io get_st (\<lambda>(_, te).
     on_err
       (bind_io (lift_res (pr_main_thread injector)) (\<lambda>t.
        if te_pid te \<noteq> tid t then lift_res (bail ''cannot attach Tracee using a tracer'')
        else if te_proc te \<noteq> None
        then lift_res (bail ''cannot attach tracee because it is already attach to something else'')
        else upd_snd (\<lambda>te. te\<lparr>te_proc := Some injector\<rparr>)))
       (on_fst (proc_drop os injector)))"

definition te_detach :: "('w \<times> tracee, process option) io" where
  "te_detach = bind_io get_st (\<lambda>(_, te). bind_io (upd_snd (\<lambda>te. te\<lparr>te_proc := None\<rparr>)) (\<lambda>_. ret (te_proc te)))"

definition vm_ioctl :: "'w os \<Rightarrow> thread_id \<Rightarrow> tracee \<Rightarrow> u64 \<Rightarrow> u64 \<Rightarrow> ('w, 32 word) io" where
  "vm_ioctl os me te request arg =
     bind_io (lift_res (try_get_proc te)) (\<lambda>p. proc_ioctl os me p (te_vm_fd te) request arg)"

definition vcpu_ioctl :: "'w os \<Rightarrow> thread_id \<Rightarrow> tracee \<Rightarrow> vcpu \<Rightarrow> u64 \<Rightarrow> u64 \<Rightarrow> ('w, 32 word) io" where
  "vcpu_ioctl os me te v request arg =
     bind_io (lift_res (try_get_proc te)) (\<lambda>p. proc_ioctl os me p (vc_fd_num v) request arg)"

definition te_mmap :: "'w os \<Rightarrow> thread_id \<Rightarrow> tracee \<Rightarrow> usize \<Rightarrow> ('w, u64) io" where
  "te_mmap os me te len =
     bind_io (lift_res (try_get_proc te)) (\<lambda>p. proc_mmap os me p 0 len 3 0x21 (- 1) 0)"

definition te_munmap :: "'w os \<Rightarrow> thread_id \<Rightarrow> tracee \<Rightarrow> u64 \<Rightarrow> usize \<Rightarrow> ('w, unit) io" where
  "te_munmap os me te addr len =
     bind_io (lift_res (try_get_proc te)) (\<lambda>p. proc_munmap os me p addr len)"

definition te_close :: "'w os \<Rightarrow> thread_id \<Rightarrow> tracee \<Rightarrow> raw_fd \<Rightarrow> ('w, 32 word) io" where
  "te_close os me te fd = bind_io (lift_res (try_get_proc te)) (\<lambda>p. proc_close os me p fd)"

definition te_check_extension :: "'w os \<Rightarrow> thread_id \<Rightarrow> tracee \<Rightarrow> 32 word \<Rightarrow> ('w, 32 word) io" where
  "te_check_extension os me te cap = vm_ioctl os me te KVM_CHECK_EXTENSION (scast cap)"

definition te_get_maps :: "'w os \<Rightarrow> 'w kenv \<Rightarrow> thread_id \<Rightarrow> tracee \<Rightarrow> ('w, mapping list) io" where
  "te_get_maps os env me te =
     bind_io (ke_attach_bpf env (te_pid te)) (\<lambda>_.
     bind_io (try_io (te_check_extension os me te 0) ''cannot query kvm extensions'') (\<lambda>_.
     bind_io (try_io (ke_recv_memslots env) ''could not receive memslots from kernel'') (\<lambda>slots.
     bind_io (ke_maps env (te_pid te)) (\<lambda>mappings.
     lift_res (get_maps (Inr slots) (Inr mappings))))))"

definition te_get_vcpu_maps :: "'w kenv \<Rightarrow> tracee \<Rightarrow> ('w, mapping list) io" where
  "te_get_vcpu_maps env te =
     bind_io (attempt (ke_maps env (te_pid te))) (\<lambda>maps. lift_res (get_vcpu_maps maps))"

section \<open>Memory in the hypervisor\<close>

record hv_mem =
  hm_ptr :: u64
  hm_pid :: pid
  hm_size :: usize  \<comment> \<open>\<^verbatim>\<open>size_of::<T>()\<close>\<close>

definition hv_read :: "'w os \<Rightarrow> 'a codec \<Rightarrow> hv_mem \<Rightarrow> ('w, 'a) io" where
  "hv_read os c m =
     bind_io (process_read os (hm_pid m) (hm_ptr m) (unat (cd_size c))) (\<lambda>bs. ret (cd_dec c bs))"

definition hv_write :: "'w os \<Rightarrow> 'a codec \<Rightarrow> hv_mem \<Rightarrow> 'a \<Rightarrow> ('w, unit) io" where
  "hv_write os c m v = process_write os (hm_pid m) (hm_ptr m) (cd_enc c v)"

definition hv_mem_drop :: "'w os \<Rightarrow> thread_id \<Rightarrow> tracee \<Rightarrow> hv_mem \<Rightarrow> ('w, unit) io" where
  "hv_mem_drop os me te m = ignore_io (te_munmap os me te (hm_ptr m) (hm_size m))"

record kvm_userspace_memory_region =
  mr_slot :: u32
  mr_flags :: u32
  mr_guest_phys_addr :: u64
  mr_memory_size :: u64
  mr_userspace_addr :: u64

record phys_mem =
  pm_mem :: hv_mem
  pm_ioctl_arg :: hv_mem
  pm_guest_phys_addr :: phys_addr

definition vm_ioctl_with_ref :: "'w os \<Rightarrow> thread_id \<Rightarrow> tracee \<Rightarrow> u64 \<Rightarrow> hv_mem \<Rightarrow> ('w, 32 word) io" where
  "vm_ioctl_with_ref os me te request arg = vm_ioctl os me te request (hm_ptr arg)"

text \<open>The body of the destructor stops at the first failure; then the two memories are dropped.\<close>

definition phys_mem_drop ::
  "'w os \<Rightarrow> kvm_userspace_memory_region codec \<Rightarrow> thread_id \<Rightarrow> tracee \<Rightarrow> phys_mem \<Rightarrow> ('w, unit) io" where
  "phys_mem_drop os c me te pm =
     bind_io (ignore_io
       (bind_io (hv_read os c (pm_ioctl_arg pm)) (\<lambda>arg.
        bind_io (hv_write os c (pm_ioctl_arg pm) (arg\<lparr>mr_memory_size := 0\<rparr>)) (\<lambda>_.
        vm_ioctl_with_ref os me te (KVM_SET_USER_MEMORY_REGION (cd_size c)) (pm_ioctl_arg pm))))) (\<lambda>_.
     bind_io (hv_mem_drop os me te (pm_mem pm)) (\<lambda>_.
     hv_mem_drop os me te (pm_ioctl_arg pm)))"

section \<open>State of the virtual CPUs\<close>

definition te_get_cpuid2 :: "'w os \<Rightarrow> 'c codec \<Rightarrow> usize \<Rightarrow> thread_id \<Rightarrow> tracee \<Rightarrow> vcpu \<Rightarrow> hv_mem \<Rightarrow> ('w, 'c) io" where
  "te_get_cpuid2 os c sz me te v mem =
     bind_io (try_io (vcpu_ioctl os me te v (KVM_GET_CPUID2 sz) (hm_ptr mem)) ''vcpu_ioctl failed'') (\<lambda>_.
     try_io (hv_read os c mem) ''cannot read cpuid'')"

definition te_get_irqchip :: "'w os \<Rightarrow> 'c codec \<Rightarrow> thread_id \<Rightarrow> tracee \<Rightarrow> hv_mem \<Rightarrow> ('w, 'c) io" where
  "te_get_irqchip os c me te mem =
     bind_io (try_io (vm_ioctl os me te (KVM_GET_IRQCHIP (cd_size c)) (hm_ptr mem)) ''vcpu_ioctl failed'') (\<lambda>_.
     try_io (hv_read os c mem) ''cannot read cpuid'')"

definition te_get_sregs :: "'w os \<Rightarrow> 's codec \<Rightarrow> thread_id \<Rightarrow> tracee \<Rightarrow> vcpu \<Rightarrow> hv_mem \<Rightarrow> ('w, 's) io" where
  "te_get_sregs os c me te v mem =
     bind_io (try_io (vcpu_ioctl os me te v (KVM_GET_SREGS (cd_size c)) (hm_ptr mem)) ''vcpu_ioctl failed'') (\<lambda>_.
     try_io (hv_read os c mem) ''cannot read registers'')"

definition te_set_regs :: "'w os \<Rightarrow> kvm_regs codec \<Rightarrow> thread_id \<Rightarrow> tracee \<Rightarrow> vcpu \<Rightarrow> hv_mem \<Rightarrow> ('w, unit) io" where
  "te_set_regs os c me te v mem =
     bind_io (try_io (vcpu_ioctl os me te v (KVM_SET_REGS (cd_size c)) (hm_ptr mem)) ''vcpu_ioctl failed'') (\<lambda>_. ret ())"

definition te_get_regs :: "'w os \<Rightarrow> kvm_regs codec \<Rightarrow> thread_id \<Rightarrow> tracee \<Rightarrow> vcpu \<Rightarrow> hv_mem \<Rightarrow> ('w, regs) io" where
  "te_get_regs os c me te v mem =
     bind_io (try_io (vcpu_ioctl os me te v (KVM_GET_REGS (cd_size c)) (hm_ptr mem)) ''vcpu_ioctl failed'') (\<lambda>_.
     bind_io (try_io (hv_read os c mem) ''cannot read registers'') (\<lambda>k. ret (regs_from_kvm k)))"

definition te_get_fpu_regs ::
  "'w os \<Rightarrow> kvm_fpu codec \<Rightarrow> thread_id \<Rightarrow> tracee \<Rightarrow> vcpu \<Rightarrow> hv_mem \<Rightarrow> ('w, fpu_regs) io" where
  "te_get_fpu_regs os c me te v mem =
     bind_io (try_io (vcpu_ioctl os me te v (KVM_GET_FPU (cd_size c)) (hm_ptr mem)) ''vcpu_ioctl failed'') (\<lambda>_.
     bind_io (try_io (hv_read os c mem) ''cannot read fpu registers'') (\<lambda>k. ret (fpu_from_kvm k)))"

text \<open>\<^verbatim>\<open>kvm_msrs\<close> with its single entry; the request number is that of the structure of the bindings.\<close>

record 'e kvm_msrs =
  km_nmsrs :: u32
  km_pad :: u32
  km_entries :: "'e list"

definition te_get_msr ::
  "'w os \<Rightarrow> 'e kvm_msrs codec \<Rightarrow> usize \<Rightarrow> thread_id \<Rightarrow> tracee \<Rightarrow> vcpu \<Rightarrow> hv_mem \<Rightarrow> ('w, 'e) io" where
  "te_get_msr os c sz me te v mem =
     bind_io (try_io (vcpu_ioctl os me te v (KVM_GET_MSRS sz) (hm_ptr mem)) ''vcpu_ioctl failed'') (\<lambda>_.
     bind_io (try_io (hv_read os c mem) ''cannot read registers'') (\<lambda>msrs.
     lift_res (index_res (km_entries msrs) 0)))"

end
