(* ===== verification/Hypervisor.thy ===== *)
theory Hypervisor
  imports Tracee
begin

text \<open>
  \<^verbatim>\<open>src/kvm/hypervisor/hypervisor.rs\<close>: the hypervisor process and the virtual machine in it. The
  locks around the tracee and the wrapper are always free when they are taken (each function releases
  them before it returns) and are left out. The operations act on a pair of the world and the
  hypervisor.
\<close>

text \<open>The sockets through which file descriptors are transferred, and memory in the hypervisor for it.\<close>

record transfer_context =
  tc_local_sock :: raw_fd
  tc_remote_sock :: raw_fd
  tc_msg_hdr_mem :: hv_mem
  tc_iov_mem :: hv_mem
  tc_iov_buf_mem :: hv_mem
  tc_cmsg_mem :: hv_mem

record hypervisor =
  hv_pid :: pid
  hv_vm_fd :: raw_fd
  hv_vcpus :: "vcpu list"
  hv_tracee :: tracee
  hv_wrapper :: "wrapper option"
  hv_transfer_ctx :: "transfer_context option"

definition on_tracee :: "('w \<times> tracee, 'a) io \<Rightarrow> ('w \<times> hypervisor, 'a) io" where
  "on_tracee m ws =
     map_option (\<lambda>((w', te'), r). ((w', (snd ws)\<lparr>hv_tracee := te'\<rparr>), r)) (m (fst ws, hv_tracee (snd ws)))"

section \<open>Finding the virtual machine\<close>

definition VMFD_INODE_NAME :: string where
  "VMFD_INODE_NAME = ''anon_inode:kvm-vm''"

text \<open>\<^verbatim>\<open>Path::file_name\<close>: the last component, unless it is \<^verbatim>\<open>..\<close>.\<close>

definition path_file_name :: "string \<Rightarrow> string option" where
  "path_file_name p =
     (case rev (filter (\<lambda>c. c \<noteq> [] \<and> c \<noteq> ''.'') (split_on CHR ''/'' p)) of
        [] \<Rightarrow> None
      | c # _ \<Rightarrow> if c = ''..'' then None else Some c)"

definition starts_with :: "string \<Rightarrow> string \<Rightarrow> bool" where
  "starts_with p s \<longleftrightarrow> strip_prefix p s \<noteq> None"

text \<open>The part after the last colon: the first part of \<^verbatim>\<open>rsplitn(2, ':')\<close>.\<close>

definition after_last_colon :: "string \<Rightarrow> string" where
  "after_last_colon s = rev (takeWhile (\<lambda>c. c \<noteq> CHR '':'') (rev s))"

fun find_fds :: "(raw_fd \<times> string) list \<Rightarrow> (raw_fd list \<times> vcpu list) res" where
  "find_fds [] = Inr ([], [])"
| "find_fds ((fd, path) # fds) =
     (let name = (case path_file_name path of Some n \<Rightarrow> n | None \<Rightarrow> []) in
      if name = VMFD_INODE_NAME then
        bind_res (find_fds fds) (\<lambda>(vms, vcpus). Inr (fd # vms, vcpus))
      else if starts_with VCPUFD_INODE_NAME_STARTS_WITH name then
        bind_res (require_with (parse_u64 10 (after_last_colon name)) ''cannot parse number'') (\<lambda>idx.
        bind_res (find_fds fds) (\<lambda>(vms, vcpus).
        Inr (vms, \<lparr>vc_idx = idx, vc_fd_num = fd, vc_map = None\<rparr> # vcpus)))
      else find_fds fds)"

fun dedup_by_idx :: "vcpu list \<Rightarrow> vcpu list" where
  "dedup_by_idx [] = []"
| "dedup_by_idx [v] = [v]"
| "dedup_by_idx (v # v' # vs) =
     (if vc_idx v = vc_idx v' then dedup_by_idx (v # vs) else v # dedup_by_idx (v' # vs))"

definition find_vm_fd :: "(raw_fd \<times> string) list res \<Rightarrow> (raw_fd list \<times> vcpu list) res" where
  "find_vm_fd fds =
     bind_res (try_with fds ''cannot lookup file descriptors of process'') (\<lambda>fs.
     bind_res (find_fds fs) (\<lambda>(vm_fds, vcpu_fds).
     let dedup = dedup_by_idx vcpu_fds in
     if length vcpu_fds \<noteq> length dedup
     then bail ''found multiple vcpus with same id, assume multiple VMs in same hypervisor. This is not supported yet''
     else Inr (vm_fds, dedup)))"

definition vcpu_name :: "vcpu \<Rightarrow> string" where
  "vcpu_name v = VCPUFD_INODE_NAME_STARTS_WITH @ to_radix 10 (unat (vc_idx v))"

definition match_maps :: "vcpu list \<Rightarrow> mapping list \<Rightarrow> vcpu list" where
  "match_maps vcpus maps =
     map (\<lambda>v. case find (\<lambda>m. mp_pathname m = vcpu_name v) maps of
                Some m \<Rightarrow> v\<lparr>vc_map := Some m\<rparr>
              | None \<Rightarrow> v) vcpus"

definition get_hypervisor ::
  "'w kenv \<Rightarrow> ('w, unit) io \<Rightarrow> ('w, (raw_fd \<times> string) list) io \<Rightarrow> pid \<Rightarrow> ('w, hypervisor) io" where
  "get_hypervisor env open_pid fds p =
     bind_io (try_io open_pid ''cannot open handle in proc'') (\<lambda>_.
     bind_io (attempt fds) (\<lambda>fs.
     bind_io (lift_res (try_with (find_vm_fd fs) ''failed to access kvm fds'')) (\<lambda>(vm_fds, vcpus).
     if vm_fds = [] then lift_res (bail ''no KVM-VMs found. If this is qemu, does it enable KVM?'')
     else if 1 < length vm_fds then lift_res (bail ''multiple VMs found, this is not supported yet.'')
     else
       let tracee = \<lparr>te_pid = p, te_vm_fd = hd vm_fds, te_proc = None\<rparr> in
       bind_io (try_io (te_get_vcpu_maps env tracee) ''cannot get vcpufd memory maps'') (\<lambda>vcpu_maps.
       if vcpus = [] then lift_res (bail ''found KVM instance but no VCPUs'')
       else if vcpu_maps = [] then lift_res (bail ''found VCPUs but no mappings of their fds'')
       else ret \<lparr>hv_pid = p, hv_vm_fd = hd vm_fds, hv_vcpus = match_maps vcpus vcpu_maps,
                 hv_tracee = tracee, hv_wrapper = None, hv_transfer_ctx = None\<rparr>))))"

section \<open>Attaching and tracing\<close>

definition prepare_thread_transfer :: "'w os \<Rightarrow> ('w \<times> hypervisor, unit) io" where
  "prepare_thread_transfer os = on_tracee (te_disown os)"

definition finish_thread_transfer :: "'w os \<Rightarrow> thread_id \<Rightarrow> ('w \<times> hypervisor, unit) io" where
  "finish_thread_transfer os me = on_tracee (te_adopt os me)"

definition resume :: "'w os \<Rightarrow> ('w \<times> hypervisor, unit) io" where
  "resume os =
     bind_io (on_tracee te_detach) (\<lambda>p.
     case p of Some proc \<Rightarrow> on_fst (proc_drop os proc) | None \<Rightarrow> ret ())"

definition stop :: "'w os \<Rightarrow> thread_id \<Rightarrow> ('w \<times> hypervisor, unit) io" where
  "stop os me = on_tracee (te_attach os me)"

text \<open>The closure acts on the wrapper; its error is kept until the tracee is attached again.\<close>

definition run_wrapped ::
  "('w \<times> wrapper option, unit) io \<Rightarrow> ('w \<times> hypervisor, unit) io" where
  "run_wrapped f ws =
     map_option (\<lambda>((w', k'), r). ((w', (snd ws)\<lparr>hv_wrapper := k'\<rparr>), r)) (f (fst ws, hv_wrapper (snd ws)))"

definition take_wrapper :: "('w \<times> hypervisor, wrapper) io" where
  "take_wrapper =
     bind_io get_st (\<lambda>(_, h).
     bind_io (upd_snd (\<lambda>h. h\<lparr>hv_wrapper := None\<rparr>)) (\<lambda>_.
     lift_res (require_with (hv_wrapper h) ''earlier in this function we put it here'')))"

definition put_wrapper :: "'w os \<Rightarrow> wrapper \<Rightarrow> ('w \<times> hypervisor, unit) io" where
  "put_wrapper os k =
     bind_io get_st (\<lambda>(_, h).
     bind_io (upd_snd (\<lambda>h. h\<lparr>hv_wrapper := Some k\<rparr>)) (\<lambda>_.
     case hv_wrapper h of Some old \<Rightarrow> on_fst (wr_drop os old) | None \<Rightarrow> ret ()))"

definition start_wrapper :: "'w os \<Rightarrow> thread_id \<Rightarrow> ('w \<times> hypervisor, bool \<times> wrapper) io" where
  "start_wrapper os me =
     bind_io (on_tracee te_detach) (\<lambda>p.
     bind_io get_st (\<lambda>(_, h).
     case p of
       Some injector \<Rightarrow>
         bind_io (on_fst (into_tracer os injector (hv_vcpus h))) (\<lambda>t.
         bind_io (on_fst (wr_from_tracer os t)) (\<lambda>k. ret (True, k)))
     | None \<Rightarrow> bind_io (on_fst (wr_attach os me (hv_pid h) (hv_vcpus h))) (\<lambda>k. ret (False, k))))"

definition reattach :: "'w os \<Rightarrow> wrapper \<Rightarrow> ('w \<times> hypervisor, unit) io" where
  "reattach os k =
     bind_io (on_fst (wr_into_tracer os k)) (\<lambda>t.
     bind_io (on_fst (try_io (from_tracer os t)
       ''cannot re-attach injector after having detached it favour of KvmRunWrapper'')) (\<lambda>injector.
     try_io (on_tracee (te_attach_to os injector))
       ''cannot re-attach injector after having detached it favour of KvmRunWrapper''))"

definition kvmrun_wrapped ::
  "'w os \<Rightarrow> thread_id \<Rightarrow> ('w \<times> wrapper option, unit) io \<Rightarrow> ('w \<times> hypervisor, unit) io" where
  "kvmrun_wrapped os me f =
     bind_io (start_wrapper os me) (\<lambda>(was_attached, wrapper).
     bind_io (put_wrapper os wrapper) (\<lambda>_.
     bind_io (attempt (run_wrapped f)) (\<lambda>res.
     bind_io take_wrapper (\<lambda>wrapper.
     if was_attached then
       bind_io (reattach os wrapper) (\<lambda>_. lift_res (try_with res ''closure on KvmRunWrapper failed''))
     else
       with_drop (lift_res (try_with res ''closure on KvmRunWrapper failed'')) (on_fst (wr_drop os wrapper))))))"

section \<open>Memory of the virtual machine\<close>

definition hv_get_maps :: "'w os \<Rightarrow> 'w kenv \<Rightarrow> thread_id \<Rightarrow> ('w \<times> hypervisor, mapping list) io" where
  "hv_get_maps os env me = bind_io get_st (\<lambda>(_, h). on_fst (te_get_maps os env me (hv_tracee h)))"

definition hv_get_vcpu_maps :: "'w kenv \<Rightarrow> ('w \<times> hypervisor, mapping list) io" where
  "hv_get_vcpu_maps env = bind_io get_st (\<lambda>(_, h). on_fst (te_get_vcpu_maps env (hv_tracee h)))"

text \<open>\<open>sz\<close> is \<^verbatim>\<open>size_of::<T>()\<close>.\<close>

definition alloc_mem_padded :: "'w os \<Rightarrow> thread_id \<Rightarrow> usize \<Rightarrow> usize \<Rightarrow> ('w \<times> hypervisor, hv_mem) io" where
  "alloc_mem_padded os me sz len =
     (if len < sz then lift_res (bail ''allocation is not sufficient for item'')
      else
        bind_io get_st (\<lambda>(_, h).
        bind_io (on_fst (te_mmap os me (hv_tracee h) len)) (\<lambda>ptr.
        ret \<lparr>hm_ptr = ptr, hm_pid = hv_pid h, hm_size = sz\<rparr>)))"

definition alloc_mem :: "'w os \<Rightarrow> thread_id \<Rightarrow> usize \<Rightarrow> ('w \<times> hypervisor, hv_mem) io" where
  "alloc_mem os me sz = alloc_mem_padded os me sz sz"

definition hv_drop :: "'w os \<Rightarrow> thread_id \<Rightarrow> hv_mem \<Rightarrow> ('w \<times> hypervisor, unit) io" where
  "hv_drop os me m = bind_io get_st (\<lambda>(_, h). on_fst (hv_mem_drop os me (hv_tracee h) m))"

definition KVM_MEM_READONLY :: u32 where "KVM_MEM_READONLY = 2"

definition memory_region :: "nat \<Rightarrow> bool \<Rightarrow> u64 \<Rightarrow> usize \<Rightarrow> u64 \<Rightarrow> kvm_userspace_memory_region" where
  "memory_region n_maps readonly guest_addr slot_len ptr =
     \<lparr>mr_slot = of_nat n_maps, mr_flags = (if readonly then KVM_MEM_READONLY else 0),
      mr_guest_phys_addr = guest_addr, mr_memory_size = slot_len, mr_userspace_addr = ptr\<rparr>"

definition vm_add_mem ::
  "'w os \<Rightarrow> 'w kenv \<Rightarrow> kvm_userspace_memory_region codec \<Rightarrow> thread_id \<Rightarrow> usize \<Rightarrow> u64 \<Rightarrow> usize \<Rightarrow> bool
    \<Rightarrow> ('w \<times> hypervisor, phys_mem) io" where
  "vm_add_mem os env c me sz guest_addr len readonly =
     bind_io (lift_res (page_align len)) (\<lambda>slot_len.
     bind_io (alloc_mem_padded os me sz slot_len) (\<lambda>hv_memslot.
     on_err
       (bind_io (hv_get_maps os env me) (\<lambda>maps.
        let arg = memory_region (length maps) readonly guest_addr slot_len (hm_ptr hv_memslot) in
        bind_io (alloc_mem os me (cd_size c)) (\<lambda>arg_hv.
        on_err
          (bind_io (on_fst (hv_write os c arg_hv arg)) (\<lambda>_.
           bind_io get_st (\<lambda>(_, h).
           bind_io (on_fst (vm_ioctl_with_ref os me (hv_tracee h) (KVM_SET_USER_MEMORY_REGION (cd_size c)) arg_hv)) (\<lambda>r.
           if r \<noteq> 0 then lift_res (bail ''ioctl_with_ref failed'')
           else
             bind_io (lift_res (compute_host_offset (hm_ptr hv_memslot) guest_addr)) (\<lambda>off.
             ret \<lparr>pm_mem = hv_memslot, pm_ioctl_arg = arg_hv,
                  pm_guest_phys_addr = \<lparr>pa_value = guest_addr, pa_host_offset = off\<rparr>\<rparr>)))))
          (hv_drop os me arg_hv))))
       (hv_drop os me hv_memslot)))"

section \<open>Queries\<close>

text \<open>A query allocates memory for the answer, which is dropped at the end whatever happens.\<close>

definition with_mem :: "'w os \<Rightarrow> thread_id \<Rightarrow> usize \<Rightarrow> (tracee \<Rightarrow> hv_mem \<Rightarrow> ('w, 'a) io) \<Rightarrow> ('w \<times> hypervisor, 'a) io" where
  "with_mem os me sz f =
     bind_io (alloc_mem os me sz) (\<lambda>mem.
     with_drop (bind_io get_st (\<lambda>(_, h). on_fst (f (hv_tracee h) mem))) (hv_drop os me mem))"

definition check_extension :: "'w os \<Rightarrow> thread_id \<Rightarrow> 32 word \<Rightarrow> ('w \<times> hypervisor, 32 word) io" where
  "check_extension os me cap = bind_io get_st (\<lambda>(_, h). on_fst (te_check_extension os me (hv_tracee h) cap))"

definition hv_userfaultfd :: "'w os \<Rightarrow> thread_id \<Rightarrow> ('w \<times> hypervisor, 32 word) io" where
  "hv_userfaultfd os me =
     bind_io get_st (\<lambda>(_, h).
     bind_io (lift_res (try_get_proc (hv_tracee h))) (\<lambda>p.
     bind_io (on_fst (proc_userfaultfd os me p 0x800)) (\<lambda>uffd.
     if uffd <=s 0 then lift_res (bail ''userfaultfd failed'') else ret (- 1))))"

definition get_cpuid2 :: "'w os \<Rightarrow> 'c codec \<Rightarrow> usize \<Rightarrow> 'c \<Rightarrow> thread_id \<Rightarrow> vcpu \<Rightarrow> ('w \<times> hypervisor, 'c) io" where
  "get_cpuid2 os c sz zero me v =
     with_mem os me (cd_size c) (\<lambda>te mem.
       bind_io (try_io (hv_write os c mem zero) ''cannot update cpuid2 kvm structure in hypervisor'') (\<lambda>_.
       te_get_cpuid2 os c sz me te v mem))"

definition get_irqchip :: "'w os \<Rightarrow> 'c codec \<Rightarrow> (u32 \<Rightarrow> 'c) \<Rightarrow> thread_id \<Rightarrow> u32 \<Rightarrow> ('w \<times> hypervisor, 'c) io" where
  "get_irqchip os c chip me chip_id =
     with_mem os me (cd_size c) (\<lambda>te mem.
       bind_io (try_io (hv_write os c mem (chip chip_id)) ''cannot update kvm_irqchip structure'') (\<lambda>_.
       te_get_irqchip os c me te mem))"

definition get_sregs :: "'w os \<Rightarrow> 's codec \<Rightarrow> thread_id \<Rightarrow> vcpu \<Rightarrow> ('w \<times> hypervisor, 's) io" where
  "get_sregs os c me v = with_mem os me (cd_size c) (\<lambda>te mem. te_get_sregs os c me te v mem)"

definition get_regs :: "'w os \<Rightarrow> kvm_regs codec \<Rightarrow> thread_id \<Rightarrow> vcpu \<Rightarrow> ('w \<times> hypervisor, regs) io" where
  "get_regs os c me v = with_mem os me (cd_size c) (\<lambda>te mem. te_get_regs os c me te v mem)"

definition set_regs :: "'w os \<Rightarrow> kvm_regs codec \<Rightarrow> thread_id \<Rightarrow> vcpu \<Rightarrow> regs \<Rightarrow> ('w \<times> hypervisor, unit) io" where
  "set_regs os c me v r =
     with_mem os me (cd_size c) (\<lambda>te mem.
       bind_io (hv_write os c mem (regs_to_kvm r)) (\<lambda>_. te_set_regs os c me te v mem))"

definition get_fpu_regs :: "'w os \<Rightarrow> kvm_fpu codec \<Rightarrow> thread_id \<Rightarrow> vcpu \<Rightarrow> ('w \<times> hypervisor, fpu_regs) io" where
  "get_fpu_regs os c me v = with_mem os me (cd_size c) (\<lambda>te mem. te_get_fpu_regs os c me te v mem)"

definition get_msr :: "'w os \<Rightarrow> 'e kvm_msrs codec \<Rightarrow> usize \<Rightarrow> thread_id \<Rightarrow> vcpu \<Rightarrow> 'e \<Rightarrow> ('w \<times> hypervisor, 'e) io" where
  "get_msr os c sz me v msr =
     with_mem os me (cd_size c) (\<lambda>te mem.
       bind_io (try_io (hv_write os c mem \<lparr>km_nmsrs = 1, km_pad = 0, km_entries = [msr]\<rparr>)
         ''cannot obtain tracee write lock: poinsoned'') (\<lambda>_.
       te_get_msr os c sz me te v mem))"

section \<open>Properties\<close>

lemma detach_run:
  "on_tracee te_detach (w, h) = Some ((w, h\<lparr>hv_tracee := (hv_tracee h)\<lparr>te_proc := None\<rparr>\<rparr>), Inr (te_proc (hv_tracee h)))"
  by (simp add: on_tracee_def te_detach_def ret_def)

lemma bind_detach:
  "bind_io (on_tracee te_detach) f (w, h) =
     f (te_proc (hv_tracee h)) (w, h\<lparr>hv_tracee := (hv_tracee h)\<lparr>te_proc := None\<rparr>\<rparr>)"
  by (simp add: bind_io_def detach_run)

lemma take_wrapper_run:
  "take_wrapper (w, h) =
     Some ((w, h\<lparr>hv_wrapper := None\<rparr>), require_with (hv_wrapper h) ''earlier in this function we put it here'')"
  by (simp add: take_wrapper_def lift_res_def)

text \<open>The same hypervisor up to the process of the tracee and the wrapper.\<close>

definition same_vm :: "hypervisor \<Rightarrow> hypervisor \<Rightarrow> bool" where
  "same_vm h h' \<longleftrightarrow>
     hv_pid h' = hv_pid h \<and> hv_vm_fd h' = hv_vm_fd h \<and> hv_vcpus h' = hv_vcpus h \<and>
     te_pid (hv_tracee h') = te_pid (hv_tracee h) \<and> te_vm_fd (hv_tracee h') = te_vm_fd (hv_tracee h) \<and>
     hv_transfer_ctx h' = hv_transfer_ctx h"

lemma start_wrapper_Inr:
  assumes "start_wrapper os me (w, h) = Some ((w', h'), Inr (b, k))"
  shows "h' = h\<lparr>hv_tracee := (hv_tracee h)\<lparr>te_proc := None\<rparr>\<rparr>" and "b \<longleftrightarrow> te_proc (hv_tracee h) \<noteq> None"
  using assms
  by (auto simp: start_wrapper_def bind_detach io_simps split: option.splits)

lemma put_wrapper_Inr:
  "put_wrapper os k (w, h) = Some ((w', h'), Inr ()) \<Longrightarrow> h' = h\<lparr>hv_wrapper := Some k\<rparr>"
  by (auto simp: put_wrapper_def io_simps split: option.splits)

lemma reattach_Inr:
  assumes "reattach os k (w, h) = Some ((w', h'), Inr ())"
  shows "\<exists>p t. h' = h\<lparr>hv_tracee := (hv_tracee h)\<lparr>te_proc := Some p\<rparr>\<rparr> \<and> te_proc (hv_tracee h) = None \<and>
    pr_main_thread p = Inr t \<and> tid t = te_pid (hv_tracee h)"
proof -
  obtain w1 p where a: "on_tracee (te_attach_to os p) (w1, h) = Some ((w', h'), Inr ())"
    using assms by (auto simp: reattach_def io_simps)
  then obtain te' where te: "te_attach_to os p (w1, hv_tracee h) = Some ((w', te'), Inr ())" "h' = h\<lparr>hv_tracee := te'\<rparr>"
    by (auto simp: on_tracee_def)
  then show ?thesis
    by (auto simp: te_attach_to_def io_simps split: if_splits)
qed

text \<open>
  C19: Running code around \<^verbatim>\<open>KVM_RUN\<close>: if \<^verbatim>\<open>kvmrun_wrapped\<close> succeeds, the closure ran successfully with a
  wrapper in place, the wrapper is gone afterwards, the tracee is attached exactly if it was before,
  then to the main thread of the hypervisor, and the rest of the hypervisor is unchanged.
\<close>

theorem kvmrun_wrapped_restores:
  assumes "kvmrun_wrapped os me f (w, h) = Some ((w', h'), Inr ())"
  shows "\<exists>w1 k w2 k2. f (w1, Some k) = Some ((w2, k2), Inr ()) \<and> hv_wrapper h' = None \<and> same_vm h h' \<and>
    (te_proc (hv_tracee h') = None \<longleftrightarrow> te_proc (hv_tracee h) = None) \<and>
    (\<forall>p. te_proc (hv_tracee h') = Some p \<longrightarrow> (\<exists>t. pr_main_thread p = Inr t \<and> tid t = te_pid (hv_tracee h)))"
proof -
  let ?h0 = "h\<lparr>hv_tracee := (hv_tracee h)\<lparr>te_proc := None\<rparr>\<rparr>"
  obtain w1 h1 b k where s: "start_wrapper os me (w, h) = Some ((w1, h1), Inr (b, k))"
    and r1: "bind_io (put_wrapper os k) (\<lambda>_. bind_io (attempt (run_wrapped f)) (\<lambda>res. bind_io take_wrapper (\<lambda>wrapper.
       if b then bind_io (reattach os wrapper) (\<lambda>_. lift_res (try_with res ''closure on KvmRunWrapper failed''))
       else with_drop (lift_res (try_with res ''closure on KvmRunWrapper failed'')) (on_fst (wr_drop os wrapper)))))
       (w1, h1) = Some ((w', h'), Inr ())"
    using assms by (auto simp: kvmrun_wrapped_def bind_io_Inr)
  note h1 = start_wrapper_Inr[OF s]
  obtain w2 res w3 k3 where f: "f (w2, Some k) = Some ((w3, k3), res)"
    and r2: "bind_io take_wrapper (\<lambda>wrapper.
       if b then bind_io (reattach os wrapper) (\<lambda>_. lift_res (try_with res ''closure on KvmRunWrapper failed''))
       else with_drop (lift_res (try_with res ''closure on KvmRunWrapper failed'')) (on_fst (wr_drop os wrapper)))
       (w3, ?h0\<lparr>hv_wrapper := k3\<rparr>) = Some ((w', h'), Inr ())"
    using r1 by (auto simp: bind_io_Inr h1(1) attempt_Inr run_wrapped_def dest!: put_wrapper_Inr)
  obtain k4 where k3: "k3 = Some k4" using r2 by (cases k3) (auto simp: bind_io_def take_wrapper_run)
  let ?h3 = "?h0\<lparr>hv_wrapper := None\<rparr>"
  have t: "take_wrapper (w3, ?h0\<lparr>hv_wrapper := k3\<rparr>) = Some ((w3, ?h3), Inr k4)"
    by (simp add: take_wrapper_run k3)
  show ?thesis
  proof (cases b)
    case True
    then have re: "reattach os k4 (w3, ?h3) = Some ((w', h'), Inr ())" and ok: "res = Inr ()"
      using r2 by (auto simp: bind_io_run t io_simps res_simps)
    then show ?thesis using f reattach_Inr[OF re] h1(2) True by (auto simp: same_vm_def)
  next
    case False
    then have "h' = ?h3" "res = Inr ()"
      using r2 by (auto simp: bind_io_run t io_simps res_simps)
    then show ?thesis using f h1(2) False by (auto simp: same_vm_def)
  qed
qed

definition sim_hv :: hypervisor where
  "sim_hv = \<lparr>hv_pid = 7, hv_vm_fd = 4, hv_vcpus = [sim_vcpu],
     hv_tracee = \<lparr>te_pid = 7, te_vm_fd = 4, te_proc = Some sim_proc\<rparr>, hv_wrapper = None, hv_transfer_ctx = None\<rparr>"

lemma sim_kvmrun_wrapped:
  "\<exists>w h. kvmrun_wrapped sim_os 1 (\<lambda>s. Some (s, Inr ())) (sim0, sim_hv) = Some ((w, h), Inr ())"
proof -
  obtain w1 where 1: "into_tracer sim_os sim_proc [sim_vcpu] sim0 = Some (w1, Inr sim_tracer)"
    by (simp add: into_tracer_def bind_io_def sim_proc_def deinit_def sim_threads_def index_res_def lift_res_def ignore_io_def
        attempt_def th_write_def th_setregs_def try_io_def sim_os_def ret_def expect_threads_def sim_tracer_def)
  obtain w2 k where 2: "wr_from_tracer sim_os sim_tracer w1 = Some (w2, Inr k)"
    by (simp add: wr_from_tracer_def on_err_def sim_tracer_def tr_main_thread_def sim_threads_def index_res_def
        get_process_group_def sim_os_def bind_io_def try_io_def ret_def)
  have 3: "wr_into_tracer sim_os k w2 = Some (w2, Inr sim_tracer)" by (rule wrapper_tracer_same[OF 2])
  obtain w4 p where 4: "from_tracer sim_os sim_tracer w2 = Some (w4, Inr p)" and p: "pr_main_thread p = Inr \<lparr>tid = 7\<rparr>"
    by (simp add: from_tracer_def inj_init_def on_err_def sim_tracer_def sim_threads_def index_res_def bind_io_def lift_res_def
        th_getregs_def th_read_def th_write_def try_io_def sim_os_def ret_def pr_main_thread_def Let_def)
  define h0 where "h0 = sim_hv\<lparr>hv_tracee := (hv_tracee sim_hv)\<lparr>te_proc := None\<rparr>\<rparr>"
  have h0: "te_proc (hv_tracee sim_hv) = Some sim_proc" "hv_vcpus h0 = [sim_vcpu]" "hv_wrapper h0 = None"
      "te_proc (hv_tracee h0) = None" "te_pid (hv_tracee h0) = 7" "h0\<lparr>hv_wrapper := None\<rparr> = h0"
    by (simp_all add: sim_hv_def h0_def)
  have s: "start_wrapper sim_os 1 (sim0, sim_hv) = Some ((w2, h0), Inr (True, k))"
    by (simp add: start_wrapper_def bind_detach h0 h0_def[symmetric] on_fst_def bind_io_def[of "on_fst _"] ret_def 1 2)
  have p1: "put_wrapper sim_os k (w2, h0) = Some ((w2, h0\<lparr>hv_wrapper := Some k\<rparr>), Inr ())"
    by (simp add: put_wrapper_def h0 ret_def)
  have f: "attempt (run_wrapped (\<lambda>s. Some (s, Inr ()))) (w2, h0\<lparr>hv_wrapper := Some k\<rparr>) =
      Some ((w2, h0\<lparr>hv_wrapper := Some k\<rparr>), Inr (Inr ()))"
    by (simp add: attempt_def run_wrapped_def)
  have t: "take_wrapper (w2, h0\<lparr>hv_wrapper := Some k\<rparr>) = Some ((w2, h0), Inr k)"
    by (simp add: take_wrapper_run h0)
  have a: "\<exists>h. on_tracee (te_attach_to sim_os p) (w4, h0) = Some ((w4, h), Inr ())"
    by (simp add: on_tracee_def te_attach_to_def on_err_def upd_snd_def h0 p)
  then have r: "\<exists>h. reattach sim_os k (w2, h0) = Some ((w4, h), Inr ())"
    by (auto simp: reattach_def bind_io_def on_fst_def try_io_def 3 4)
  then show ?thesis by (auto simp: kvmrun_wrapped_def s[simplified] p1 f t lift_res_def)
qed

theorem kvmrun_wrapped_restores_witness:
  "\<exists>w h p t. kvmrun_wrapped sim_os 1 (\<lambda>s. Some (s, Inr ())) (sim0, sim_hv) = Some ((w, h), Inr ()) \<and>
     hv_wrapper h = None \<and> te_proc (hv_tracee h) = Some p \<and> pr_main_thread p = Inr t \<and> tid t = 7"
proof -
  obtain w h where k: "kvmrun_wrapped sim_os 1 (\<lambda>s. Some (s, Inr ())) (sim0, sim_hv) = Some ((w, h), Inr ())"
    using sim_kvmrun_wrapped by auto
  have "te_proc (hv_tracee sim_hv) \<noteq> None" "te_pid (hv_tracee sim_hv) = 7" by (simp_all add: sim_hv_def)
  with kvmrun_wrapped_restores[OF k] k show ?thesis by fastforce
qed

section \<open>Which virtual machine is found\<close>

lemma dedup_length: "length (dedup_by_idx vs) \<le> length vs"
  by (induction vs rule: dedup_by_idx.induct) auto

lemma dedup_same:
  "length (dedup_by_idx vs) = length vs \<Longrightarrow>
     dedup_by_idx vs = vs \<and> (\<forall>i. Suc i < length vs \<longrightarrow> vc_idx (vs ! i) \<noteq> vc_idx (vs ! Suc i))"
proof (induction vs rule: dedup_by_idx.induct)
  case (3 v v' vs)
  then have ne: "vc_idx v \<noteq> vc_idx v'" using dedup_length[of "v # vs"] by auto
  with 3 have "dedup_by_idx (v' # vs) = v' # vs" and adj: "\<forall>i. Suc i < length (v' # vs) \<longrightarrow> vc_idx ((v' # vs) ! i) \<noteq> vc_idx ((v' # vs) ! Suc i)"
    by auto
  moreover have "vc_idx ((v # v' # vs) ! i) \<noteq> vc_idx ((v # v' # vs) ! Suc i)" if "Suc i < length (v # v' # vs)" for i
    using that adj ne by (cases i) auto
  ultimately show ?case using ne by auto
qed auto

definition fd_name :: "raw_fd \<times> string \<Rightarrow> string" where
  "fd_name f = (case path_file_name (snd f) of Some n \<Rightarrow> n | None \<Rightarrow> [])"

lemma find_fds_Inr:
  assumes "find_fds fs = Inr (vms, vcpus)"
  shows "vms = map fst (filter (\<lambda>f. fd_name f = VMFD_INODE_NAME) fs)"
    and "map vc_fd_num vcpus = map fst (filter (\<lambda>f. starts_with VCPUFD_INODE_NAME_STARTS_WITH (fd_name f)) fs)"
    and "v \<in> set vcpus \<Longrightarrow> vc_map v = None"
proof -
  have no: "\<not> starts_with VCPUFD_INODE_NAME_STARTS_WITH VMFD_INODE_NAME"
    by (simp add: starts_with_def VCPUFD_INODE_NAME_STARTS_WITH_def VMFD_INODE_NAME_def)
  have "vms = map fst (filter (\<lambda>f. fd_name f = VMFD_INODE_NAME) fs) \<and>
      map vc_fd_num vcpus = map fst (filter (\<lambda>f. starts_with VCPUFD_INODE_NAME_STARTS_WITH (fd_name f)) fs) \<and>
      (\<forall>v \<in> set vcpus. vc_map v = None)"
    using assms
  proof (induction fs arbitrary: vms vcpus)
    case (Cons f fs)
    show ?case
    proof (cases "fd_name f = VMFD_INODE_NAME")
      case True
      with Cons.prems obtain vms' where "find_fds fs = Inr (vms', vcpus)" "vms = fst f # vms'"
        by (cases f) (auto simp: fd_name_def bind_res_Inr Let_def)
      with Cons.IH True no show ?thesis by auto
    next
      case False
      show ?thesis
      proof (cases "starts_with VCPUFD_INODE_NAME_STARTS_WITH (fd_name f)")
        case True
        with Cons.prems False obtain v vcpus' where "find_fds fs = Inr (vms, vcpus')" "vcpus = v # vcpus'"
            "vc_fd_num v = fst f" "vc_map v = None"
          by (cases f) (auto simp: fd_name_def bind_res_Inr Let_def)
        with Cons.IH True False show ?thesis by auto
      next
        case no_vcpu: False
        with Cons.prems False have "find_fds fs = Inr (vms, vcpus)"
          by (cases f) (auto simp: fd_name_def Let_def)
        with Cons.IH no_vcpu False show ?thesis by auto
      qed
    qed
  qed simp
  then show "vms = map fst (filter (\<lambda>f. fd_name f = VMFD_INODE_NAME) fs)"
    and "map vc_fd_num vcpus = map fst (filter (\<lambda>f. starts_with VCPUFD_INODE_NAME_STARTS_WITH (fd_name f)) fs)"
    and "v \<in> set vcpus \<Longrightarrow> vc_map v = None" by auto
qed

text \<open>
  C38: A hypervisor that is found has exactly one descriptor of a virtual machine, which is the one of
  the tracee; its virtual CPUs are all the descriptors with the name of one, in their order, no two
  neighbours with the same number; the mapping of a virtual CPU is the one with its name; and the
  process is not traced yet.
\<close>

theorem get_hypervisor_finds:
  assumes "get_hypervisor env (ret ()) (ret fs) p w = Some (w', Inr h)"
  shows "filter (\<lambda>f. fd_name f = VMFD_INODE_NAME) fs \<noteq> [] \<and> map fst (filter (\<lambda>f. fd_name f = VMFD_INODE_NAME) fs) = [hv_vm_fd h] \<and>
    te_vm_fd (hv_tracee h) = hv_vm_fd h \<and> te_proc (hv_tracee h) = None \<and>
    map vc_fd_num (hv_vcpus h) = map fst (filter (\<lambda>f. starts_with VCPUFD_INODE_NAME_STARTS_WITH (fd_name f)) fs) \<and>
    (\<forall>i. Suc i < length (hv_vcpus h) \<longrightarrow> vc_idx (hv_vcpus h ! i) \<noteq> vc_idx (hv_vcpus h ! Suc i)) \<and>
    (\<forall>v \<in> set (hv_vcpus h). \<forall>m. vc_map v = Some m \<longrightarrow> mp_pathname m = vcpu_name v)"
proof -
  obtain vms vcpus maps where f: "find_vm_fd (Inr fs) = Inr (vms, vcpus)" and vms: "vms \<noteq> []" "\<not> 1 < length vms"
    and h: "h = \<lparr>hv_pid = p, hv_vm_fd = hd vms, hv_vcpus = match_maps vcpus maps,
      hv_tracee = \<lparr>te_pid = p, te_vm_fd = hd vms, te_proc = None\<rparr>, hv_wrapper = None, hv_transfer_ctx = None\<rparr>"
    using assms
    by (clarsimp simp: get_hypervisor_def io_simps res_simps Let_def split: if_splits)
  obtain vs where vs: "find_fds fs = Inr (vms, vs)" and d: "length (dedup_by_idx vs) = length vs" "vcpus = dedup_by_idx vs"
    using f by (cases "find_fds fs") (auto simp: find_vm_fd_def Let_def split: if_splits prod.splits)
  note dd = dedup_same[OF d(1)] and ff = find_fds_Inr[OF vs]
  have vv: "vcpus = vs" using dd d(2) by simp
  define match where "match v = (case find (\<lambda>m. mp_pathname m = vcpu_name v) maps of Some m \<Rightarrow> v\<lparr>vc_map := Some m\<rparr> | None \<Rightarrow> v)" for v
  have mm: "match_maps vcpus maps = map match vs" by (simp add: match_maps_def match_def vv)
  have m: "vc_fd_num (match v) = vc_fd_num v" "vc_idx (match v) = vc_idx v" for v
    by (simp_all add: match_def split: option.split)
  have n: "vcpu_name (match v) = vcpu_name v" for v by (simp add: vcpu_name_def m(2))
  have map: "mp_pathname x = vcpu_name (match v)" if "v \<in> set vs" "vc_map (match v) = Some x" for v x
    using that(2) ff(3)[OF that(1)] unfolding n
    by (auto simp: match_def split: option.splits dest: find_Some_mem)
  have hv: "hv_vcpus h = map match vs" "hv_vm_fd h = hd vms" "te_vm_fd (hv_tracee h) = hd vms" "te_proc (hv_tracee h) = None"
    by (simp_all add: h mm)
  have one: "vms = [hd vms]" using vms by (cases vms) auto
  show ?thesis
  proof (intro conjI ballI allI impI)
    show "filter (\<lambda>f. fd_name f = VMFD_INODE_NAME) fs \<noteq> []" using ff(1) vms(1) by auto
    show "map fst (filter (\<lambda>f. fd_name f = VMFD_INODE_NAME) fs) = [hv_vm_fd h]" using ff(1) one hv(2) by metis
    show "te_vm_fd (hv_tracee h) = hv_vm_fd h" "te_proc (hv_tracee h) = None" using hv by simp_all
    show "map vc_fd_num (hv_vcpus h) = map fst (filter (\<lambda>f. starts_with VCPUFD_INODE_NAME_STARTS_WITH (fd_name f)) fs)"
      using ff(2) by (simp add: hv comp_def m)
    show "vc_idx (hv_vcpus h ! i) \<noteq> vc_idx (hv_vcpus h ! Suc i)" if "Suc i < length (hv_vcpus h)" for i
      using that dd by (simp add: hv m)
    show "mp_pathname x = vcpu_name v" if "v \<in> set (hv_vcpus h)" "vc_map v = Some x" for v x
      using that map by (auto simp: hv)
  qed
qed

definition sim_env :: "sim kenv" where
  "sim_env = \<lparr>ke_attach_bpf = (\<lambda>p. ret ()), ke_recv_memslots = ret [],
     ke_maps = (\<lambda>p. ret [guest_ex_mapping\<lparr>mp_pathname := ''anon_inode:kvm-vcpu:0''\<rparr>])\<rparr>"

definition sim_fds :: "(raw_fd \<times> string) list" where
  "sim_fds = [(3, ''/dev/null''), (4, ''anon_inode:kvm-vm''), (5, ''anon_inode:kvm-vcpu:0'')]"

lemma parse_digit_0: "parse_u64 10 ''0'' = Some 0" "parse_u64 10 ''1'' = Some 1"
  by (simp_all add: parse_u64_def parse_unsigned_def digit_val_def)

lemma sim_find_vm_fd: "find_vm_fd (Inr sim_fds) = Inr ([4], [\<lparr>vc_idx = 0, vc_fd_num = 5, vc_map = None\<rparr>])"
  by (simp add: find_vm_fd_def sim_fds_def path_file_name_def VMFD_INODE_NAME_def VCPUFD_INODE_NAME_STARTS_WITH_def
      starts_with_def after_last_colon_def parse_digit_0 Let_def)

lemma sim_vcpu_maps: "te_get_vcpu_maps sim_env te w =
    Some (w, Inr [guest_ex_mapping\<lparr>mp_pathname := ''anon_inode:kvm-vcpu:0''\<rparr>])"
  by (simp add: te_get_vcpu_maps_def sim_env_def attempt_def ret_def bind_io_def lift_res_def get_vcpu_maps_def
      VCPUFD_INODE_NAME_STARTS_WITH_def parse_digit_0)

theorem get_hypervisor_finds_witness:
  "\<exists>h. get_hypervisor sim_env (ret ()) (ret sim_fds) 7 sim0 = Some (sim0, Inr h) \<and> hv_vm_fd h = 4 \<and>
     map vc_fd_num (hv_vcpus h) = [5]"
proof -
  have "\<exists>h. get_hypervisor sim_env (ret ()) (ret sim_fds) 7 sim0 = Some (sim0, Inr h)"
    by (simp add: get_hypervisor_def try_io_def ret_def bind_io_def attempt_def lift_res_def sim_find_vm_fd sim_vcpu_maps Let_def)
  then obtain h where h: "get_hypervisor sim_env (ret ()) (ret sim_fds) 7 sim0 = Some (sim0, Inr h)" ..
  have n: "map fst (filter (\<lambda>f. fd_name f = VMFD_INODE_NAME) sim_fds) = [4]"
      "map fst (filter (\<lambda>f. starts_with VCPUFD_INODE_NAME_STARTS_WITH (fd_name f)) sim_fds) = [5]"
    by (simp_all add: sim_fds_def fd_name_def path_file_name_def VMFD_INODE_NAME_def VCPUFD_INODE_NAME_STARTS_WITH_def starts_with_def)
  have "[4] = [hv_vm_fd h] \<and> map vc_fd_num (hv_vcpus h) = [5]"
    using get_hypervisor_finds[OF h] unfolding n by (elim conjE) (intro conjI)
  then show ?thesis using h by (intro exI[of _ h]) simp
qed

text \<open>
  Two virtual machines whose virtual CPUs are listed in turn are not noticed: only neighbours are
  compared.
\<close>

lemma interleaved_vcpus_accepted:
  "find_vm_fd (Inr [(4, ''anon_inode:kvm-vm''), (5, ''anon_inode:kvm-vcpu:0''), (6, ''anon_inode:kvm-vcpu:1''), (7, ''anon_inode:kvm-vcpu:0'')]) =
     Inr ([4], [\<lparr>vc_idx = 0, vc_fd_num = 5, vc_map = None\<rparr>, \<lparr>vc_idx = 1, vc_fd_num = 6, vc_map = None\<rparr>,
       \<lparr>vc_idx = 0, vc_fd_num = 7, vc_map = None\<rparr>])"
  by (simp add: find_vm_fd_def path_file_name_def VMFD_INODE_NAME_def VCPUFD_INODE_NAME_STARTS_WITH_def
      starts_with_def after_last_colon_def parse_digit_0 Let_def)

text \<open>The memory of a memslot is unmapped with the size of its type, whatever was mapped for it.\<close>

lemma padded_drop_size:
  "alloc_mem_padded os me sz len s = Some (s', Inr m) \<Longrightarrow> hm_size m = sz"
  by (cases s) (auto simp: alloc_mem_padded_def io_simps split: if_splits)

end
