(* ===== verification/Fd_Transfer.thy ===== *)
theory Fd_Transfer
  imports Hypervisor
begin

text \<open>
  \<^verbatim>\<open>src/kvm/fd_transfer.rs\<close> and the functions of \<^verbatim>\<open>hypervisor.rs\<close> that use it: file descriptors of vmsh are sent over a
  socket to the hypervisor, which receives them with an injected \<^verbatim>\<open>recvmsg\<close>. The system calls vmsh makes
  itself are the record \<open>lenv\<close>; the memory layout of the structures of libc is a \<open>codec\<close>. An access outside of
  the bounds of memory kills vmsh: such an operation has no result.
\<close>

section \<open>System calls of vmsh\<close>

text \<open>An address of a socket: the bytes of its \<^verbatim>\<open>sockaddr_un\<close> and the length of its path.\<close>

type_synonym unix_addr = "bytes \<times> usize"

datatype cmsg_owned = ScmRights "raw_fd list" | OtherCmsg

record 'w lenv =
  le_getpid :: pid
  le_new_abstract :: "string \<Rightarrow> unix_addr res"
  le_socket :: "('w, raw_fd) io"
  le_bind :: "raw_fd \<Rightarrow> unix_addr \<Rightarrow> ('w, unit) io"
  le_connect :: "raw_fd \<Rightarrow> unix_addr \<Rightarrow> ('w, unit) io"
  le_sendmsg :: "raw_fd \<Rightarrow> bytes list \<Rightarrow> raw_fd list option \<Rightarrow> ('w, usize) io"
  le_recvmsg :: "raw_fd \<Rightarrow> bytes \<Rightarrow> ('w, u32 + bytes \<times> usize \<times> cmsg_owned list) io"
  le_close :: "raw_fd \<Rightarrow> ('w, unit) io"
  le_eventfd :: "('w, raw_fd) io"
  le_socketpair :: "('w, raw_fd \<times> raw_fd) io"
  le_dup :: "raw_fd \<Rightarrow> ('w, raw_fd) io"
  le_eventfd_write :: "raw_fd \<Rightarrow> u64 \<Rightarrow> ('w, unit) io"
  le_ppoll :: "raw_fd \<Rightarrow> nat \<Rightarrow> ('w, u32 \<times> bool) io"
  le_read :: "raw_fd \<Rightarrow> nat \<Rightarrow> ('w, bytes) io"
  le_write :: "raw_fd \<Rightarrow> bytes \<Rightarrow> ('w, usize) io"

definition crash :: "('w, 'a) io" where
  "crash w = None"

text \<open>Negation of a signed number.\<close>

definition chk_neg :: "'a::len word \<Rightarrow> 'a word res" where
  "chk_neg x = (if sint x = - (2 ^ (LENGTH('a) - 1)) then panic ''attempt to negate with overflow'' else Inr (- x))"

definition EINTR :: u32 where "EINTR = 4"
definition EAGAIN :: u32 where "EAGAIN = 11"

section \<open>The socket of vmsh\<close>

definition sock_drop :: "'w lenv \<Rightarrow> raw_fd \<Rightarrow> ('w, unit) io" where
  "sock_drop le fd = ignore_io (le_close le fd)"

definition sock_new :: "'w lenv \<Rightarrow> string \<Rightarrow> ('w, raw_fd) io" where
  "sock_new le anon_name =
     bind_io (try_io (le_socket le) ''failed to create socket'') (\<lambda>sock.
     bind_io (lift_res (try_with (le_new_abstract le anon_name) ''cannot create abstract addr'')) (\<lambda>local.
     bind_io (try_io (le_bind le sock local) ''cannot bind to'') (\<lambda>_.
     ret sock)))"

definition sock_connect :: "'w lenv \<Rightarrow> raw_fd \<Rightarrow> string \<Rightarrow> ('w, unit) io" where
  "sock_connect le fd anon_name =
     bind_io (lift_res (try_with (le_new_abstract le anon_name) ''cannot create abstract addr'')) (\<lambda>remote.
     try_io (le_connect le fd remote) ''cannot connect to client foobar'')"

definition sock_send :: "'w lenv \<Rightarrow> raw_fd \<Rightarrow> bytes list \<Rightarrow> raw_fd list \<Rightarrow> ('w, unit) io" where
  "sock_send le fd messages files =
     (let cmsg = if files = [] then None else Some files in
      bind_io (try_io (le_sendmsg le fd messages cmsg) ''sendmsg failed'') (\<lambda>_. ret ()))"

fun cmsg_files :: "cmsg_owned list \<Rightarrow> raw_fd list" where
  "cmsg_files [] = []"
| "cmsg_files (ScmRights fds # cs) = fds @ cmsg_files cs"
| "cmsg_files (OtherCmsg # cs) = cmsg_files cs"

definition resize_zero :: "bytes \<Rightarrow> nat \<Rightarrow> bytes" where
  "resize_zero bs n = take n bs @ replicate (n - length bs) 0"

partial_function (option) sock_receive :: "'w lenv \<Rightarrow> raw_fd \<Rightarrow> usize \<Rightarrow> 'w \<Rightarrow> ('w \<times> (bytes \<times> raw_fd list) res) option" where
  "sock_receive le fd message_length w =
     bind_io (le_recvmsg le fd (replicate (unat message_length) 0)) (\<lambda>r w'.
     case r of
       Inl errno \<Rightarrow>
         if errno = EAGAIN \<or> errno = EINTR then sock_receive le fd message_length w'
         else Some (w', bail ''recvmsg failed'')
     | Inr (buf, received, cmsgs) \<Rightarrow> Some (w', Inr (resize_zero buf (unat received), cmsg_files cmsgs))) w"

section \<open>The socket in the hypervisor\<close>

definition AF_UNIX :: "32 word" where "AF_UNIX = 1"
definition SOCK_DGRAM :: "32 word" where "SOCK_DGRAM = 2"

definition hv_sock_drop :: "'w os \<Rightarrow> thread_id \<Rightarrow> tracee \<Rightarrow> raw_fd \<Rightarrow> ('w, unit) io" where
  "hv_sock_drop os me te fd =
     ignore_io (bind_io (lift_res (try_get_proc te)) (\<lambda>p. proc_close os me p fd))"

definition hv_sock_addr :: "'w os \<Rightarrow> 'w lenv \<Rightarrow> string \<Rightarrow> hv_mem \<Rightarrow> ('w, u32) io" where
  "hv_sock_addr os le anon_name mem =
     bind_io (lift_res (try_with (le_new_abstract le anon_name) ''cannot create abstract addr'')) (\<lambda>(addr, path_len).
     bind_io (process_write os (hm_pid mem) (hm_ptr mem) addr) (\<lambda>_.
     bind_io (lift_res (chk_add 2 path_len)) (\<lambda>addr_len.
     ret (ucast addr_len))))"

definition hv_sock_new ::
  "'w os \<Rightarrow> 'w lenv \<Rightarrow> thread_id \<Rightarrow> tracee \<Rightarrow> string \<Rightarrow> hv_mem \<Rightarrow> ('w, raw_fd) io" where
  "hv_sock_new os le me te anon_name addr_local_mem =
     bind_io (lift_res (try_get_proc te)) (\<lambda>p.
     bind_io (proc_socket os me p AF_UNIX SOCK_DGRAM 0) (\<lambda>fd.
     if fd <=s 0 then bind_io (lift_res (chk_neg fd)) (\<lambda>_. lift_res (bail ''cannot create socket''))
     else
       on_err
         (bind_io (hv_sock_addr os le anon_name addr_local_mem) (\<lambda>addr_len.
          bind_io (lift_res (try_get_proc te)) (\<lambda>p.
          bind_io (proc_bind os me p fd (hm_ptr addr_local_mem) addr_len) (\<lambda>r.
          if r \<noteq> 0 then bind_io (lift_res (chk_neg r)) (\<lambda>_. lift_res (bail ''cannot bind''))
          else ret fd))))
         (hv_sock_drop os me te fd)))"

definition hv_sock_connect ::
  "'w os \<Rightarrow> 'w lenv \<Rightarrow> thread_id \<Rightarrow> raw_fd \<Rightarrow> process \<Rightarrow> string \<Rightarrow> hv_mem \<Rightarrow> ('w, unit) io" where
  "hv_sock_connect os le me fd p anon_name addr_remote_mem =
     bind_io (hv_sock_addr os le anon_name addr_remote_mem) (\<lambda>addr_len.
     bind_io (proc_connect os me p fd (hm_ptr addr_remote_mem) addr_len) (\<lambda>r.
     if r <s 0 then bind_io (lift_res (chk_neg r)) (\<lambda>_. lift_res (bail ''new_client_remote connect failed''))
     else ret ()))"

text \<open>\<^verbatim>\<open>iovec\<close> and \<^verbatim>\<open>msghdr\<close> of libc.\<close>

record libc_iovec =
  iov_base :: u64
  iov_len :: usize

record libc_msghdr =
  msg_name :: u64
  msg_namelen :: u32
  msg_iov :: u64
  msg_iovlen :: usize
  msg_control :: u64
  msg_controllen :: usize
  msg_flags :: "32 word"

partial_function (option) recvmsg_loop :: "'w os \<Rightarrow> thread_id \<Rightarrow> process \<Rightarrow> raw_fd \<Rightarrow> u64 \<Rightarrow> 'w \<Rightarrow> ('w \<times> unit res) option" where
  "recvmsg_loop os me p fd hdr w =
     bind_io (proc_recvmsg os me p fd hdr 0) (\<lambda>r w'.
     if r = 0 then Some (w', bail ''received empty message'')
     else if r <s 0 then
       (case chk_neg r of
          Inl e \<Rightarrow> Some (w', Inl e)
        | Inr n \<Rightarrow>
            if (ucast n :: u32) = EAGAIN \<or> (ucast n :: u32) = EINTR then recvmsg_loop os me p fd hdr w'
            else Some (w', bail ''recvmsg failed''))
     else Some (w', Inr ())) w"

text \<open>
  The first control message in the buffer that was read back. Its header has 16 bytes: the length of
  the message with the header, the level and the type. There is none if the length that the kernel
  reports is smaller; the code does not check for that.
\<close>

definition SCM_RIGHTS :: "32 word" where "SCM_RIGHTS = 1"
definition CMSG_HDR_SIZE :: usize where "CMSG_HDR_SIZE = 16"

definition parse_scm_rights :: "bytes \<Rightarrow> usize \<Rightarrow> ('w, raw_fd list) io" where
  "parse_scm_rights cmsg controllen =
     (if controllen < CMSG_HDR_SIZE then crash
      else if field 12 4 cmsg \<noteq> SCM_RIGHTS then lift_res (bail ''cmsghdr not understood'')
      else
        bind_io (lift_res (chk_sub (field 0 8 cmsg) CMSG_HDR_SIZE)) (\<lambda>cmsg_data_len.
        let n = unat cmsg_data_len div 4 in
        if length cmsg < 16 + 4 * n then crash
        else ret (map (\<lambda>i. field (16 + 4 * i) 4 cmsg) [0..<n])))"

definition hv_sock_receive ::
  "'w os \<Rightarrow> libc_iovec codec \<Rightarrow> libc_msghdr codec \<Rightarrow> thread_id \<Rightarrow> process \<Rightarrow> raw_fd \<Rightarrow> hv_mem \<Rightarrow> hv_mem \<Rightarrow> hv_mem \<Rightarrow> hv_mem
    \<Rightarrow> ('w, bytes \<times> raw_fd list) io" where
  "hv_sock_receive os ci cm me p fd msg_hdr_mem iov_mem iov_buf_mem cmsg_mem =
     bind_io (hv_write os ci iov_mem \<lparr>iov_base = hm_ptr iov_buf_mem, iov_len = hm_size iov_buf_mem\<rparr>) (\<lambda>_.
     bind_io (hv_write os cm msg_hdr_mem
       \<lparr>msg_name = 0, msg_namelen = 0, msg_iov = hm_ptr iov_mem, msg_iovlen = 1, msg_control = hm_ptr cmsg_mem,
        msg_controllen = hm_size cmsg_mem, msg_flags = 0\<rparr>) (\<lambda>_.
     bind_io (recvmsg_loop os me p fd (hm_ptr msg_hdr_mem)) (\<lambda>_.
     bind_io (process_read os (hm_pid iov_buf_mem) (hm_ptr iov_buf_mem) (unat (hm_size iov_buf_mem))) (\<lambda>msg_buf.
     bind_io (hv_read os cm msg_hdr_mem) (\<lambda>msg_hdr.
     bind_io (process_read os (hm_pid cmsg_mem) (hm_ptr cmsg_mem) (unat (hm_size cmsg_mem))) (\<lambda>cmsg.
     bind_io (parse_scm_rights cmsg (msg_controllen msg_hdr)) (\<lambda>result.
     ret (msg_buf, result))))))))"

section \<open>Transfer of descriptors\<close>

definition fmt_i32 :: "32 word \<Rightarrow> string" where
  "fmt_i32 x = (if sint x < 0 then CHR ''-'' # to_radix 10 (nat (- sint x)) else to_radix 10 (nat (sint x)))"

definition transfer_id :: "pid \<Rightarrow> string" where
  "transfer_id p = ''vmsh_fd_transfer_'' @ fmt_i32 p"

text \<open>Memory that is given back if the rest fails.\<close>

definition guard_mem :: "'w os \<Rightarrow> thread_id \<Rightarrow> usize \<Rightarrow> (hv_mem \<Rightarrow> ('w \<times> hypervisor, 'a) io) \<Rightarrow> ('w \<times> hypervisor, 'a) io" where
  "guard_mem os me sz f = bind_io (alloc_mem os me sz) (\<lambda>m. on_err (f m) (hv_drop os me m))"

definition ctx_drop :: "'w os \<Rightarrow> 'w lenv \<Rightarrow> thread_id \<Rightarrow> transfer_context \<Rightarrow> ('w \<times> hypervisor, unit) io" where
  "ctx_drop os le me ctx =
     bind_io (on_fst (sock_drop le (tc_local_sock ctx))) (\<lambda>_.
     bind_io get_st (\<lambda>(_, h).
     bind_io (on_fst (hv_sock_drop os me (hv_tracee h) (tc_remote_sock ctx))) (\<lambda>_.
     for_io [tc_msg_hdr_mem ctx, tc_iov_mem ctx, tc_iov_buf_mem ctx, tc_cmsg_mem ctx] (hv_drop os me))))"

text \<open>The sockets are connected to each other. \<open>sa\<close> is the size of \<^verbatim>\<open>sockaddr_un\<close>.\<close>

definition connect_sockets ::
  "'w os \<Rightarrow> 'w lenv \<Rightarrow> thread_id \<Rightarrow> hv_mem \<Rightarrow> hv_mem \<Rightarrow> ('w \<times> hypervisor, raw_fd \<times> raw_fd) io" where
  "connect_sockets os le me addr_local_mem addr_remote_mem =
     bind_io get_st (\<lambda>(_, h).
     let vmsh_id = transfer_id (le_getpid le); hypervisor_id = transfer_id (hv_pid h); te = hv_tracee h in
     on_fst
       (bind_io (try_io (sock_new le vmsh_id) ''failed to create socket'') (\<lambda>local_sock.
        on_err
          (bind_io (try_io (hv_sock_new os le me te hypervisor_id addr_local_mem) ''failed to create hypervisor socket'') (\<lambda>remote_sock.
           on_err
             (bind_io (try_io (sock_connect le local_sock hypervisor_id) ''failed to connect vmsh socket'') (\<lambda>_.
              bind_io (lift_res (try_get_proc te)) (\<lambda>p.
              bind_io (try_io (hv_sock_connect os le me remote_sock p vmsh_id addr_remote_mem)
                ''failed to connect to local socket from hypervisor'') (\<lambda>_.
              ret (local_sock, remote_sock)))))
             (hv_sock_drop os me te remote_sock)))
          (sock_drop le local_sock))))"

definition setup_transfer_sockets ::
  "'w os \<Rightarrow> 'w lenv \<Rightarrow> libc_iovec codec \<Rightarrow> libc_msghdr codec \<Rightarrow> usize \<Rightarrow> thread_id \<Rightarrow> ('w \<times> hypervisor, unit) io" where
  "setup_transfer_sockets os le ci cm sa me =
     guard_mem os me (cd_size cm) (\<lambda>msg_hdr_mem.
     guard_mem os me (cd_size ci) (\<lambda>iov_mem.
     guard_mem os me 1 (\<lambda>iov_buf_mem.
     guard_mem os me 64 (\<lambda>cmsg_mem.
     bind_io (alloc_mem os me sa) (\<lambda>addr_local_mem.
     with_drop
       (bind_io (alloc_mem os me sa) (\<lambda>addr_remote_mem.
        with_drop
          (bind_io (connect_sockets os le me addr_local_mem addr_remote_mem) (\<lambda>(local_sock, remote_sock).
           bind_io get_st (\<lambda>(_, h).
           bind_io (upd_snd (\<lambda>h. h\<lparr>hv_transfer_ctx := Some
             \<lparr>tc_local_sock = local_sock, tc_remote_sock = remote_sock, tc_msg_hdr_mem = msg_hdr_mem, tc_iov_mem = iov_mem,
              tc_iov_buf_mem = iov_buf_mem, tc_cmsg_mem = cmsg_mem\<rparr>\<rparr>)) (\<lambda>_.
           case hv_transfer_ctx h of None \<Rightarrow> ret () | Some old \<Rightarrow> ctx_drop os le me old))))
          (hv_drop os me addr_remote_mem)))
       (hv_drop os me addr_local_mem))))))"

definition close_transfer_sockets :: "'w os \<Rightarrow> 'w lenv \<Rightarrow> thread_id \<Rightarrow> ('w \<times> hypervisor, unit) io" where
  "close_transfer_sockets os le me =
     bind_io get_st (\<lambda>(_, h).
     bind_io (upd_snd (\<lambda>h. h\<lparr>hv_transfer_ctx := None\<rparr>)) (\<lambda>_.
     case hv_transfer_ctx h of None \<Rightarrow> ret () | Some ctx \<Rightarrow> ctx_drop os le me ctx))"

definition transfer ::
  "'w os \<Rightarrow> 'w lenv \<Rightarrow> libc_iovec codec \<Rightarrow> libc_msghdr codec \<Rightarrow> thread_id \<Rightarrow> raw_fd list \<Rightarrow> ('w \<times> hypervisor, raw_fd list) io" where
  "transfer os le ci cm me fds =
     bind_io get_st (\<lambda>(_, h).
     let messages = map (\<lambda>_. [1]) fds in
     bind_io (lift_res (require_with (hv_transfer_ctx h) ''transfer context was not set up'')) (\<lambda>ctx.
     bind_io (lift_res (try_get_proc (hv_tracee h))) (\<lambda>p.
     bind_io (on_fst (try_io (sock_send le (tc_local_sock ctx) messages fds) ''failed to send fds'')) (\<lambda>_.
     bind_io (on_fst (hv_sock_receive os ci cm me p (tc_remote_sock ctx) (tc_msg_hdr_mem ctx) (tc_iov_mem ctx)
       (tc_iov_buf_mem ctx) (tc_cmsg_mem ctx))) (\<lambda>(msg, fds').
     if msg \<noteq> [1] then lift_res (bail ''received message differs from sent one'') else ret fds')))))"

text \<open>\<^verbatim>\<open>self.transfer(&[fd])?[0]\<close>.\<close>

definition transfer_one ::
  "'w os \<Rightarrow> 'w lenv \<Rightarrow> libc_iovec codec \<Rightarrow> libc_msghdr codec \<Rightarrow> thread_id \<Rightarrow> raw_fd \<Rightarrow> ('w \<times> hypervisor, raw_fd) io" where
  "transfer_one os le ci cm me fd =
     bind_io (transfer os le ci cm me [fd]) (\<lambda>fds. lift_res (index_res fds 0))"

record kvm_irqfd =
  ki_fd :: u32
  ki_gsi :: u32
  ki_flags :: u32
  ki_resamplefd :: u32

definition irqfd ::
  "'w os \<Rightarrow> 'w lenv \<Rightarrow> libc_iovec codec \<Rightarrow> libc_msghdr codec \<Rightarrow> kvm_irqfd codec \<Rightarrow> thread_id \<Rightarrow> u32 \<Rightarrow> ('w \<times> hypervisor, raw_fd) io" where
  "irqfd os le ci cm ck me gsi =
     bind_io (on_fst (try_io (le_eventfd le) ''cannot create event fd'')) (\<lambda>eventfd.
     on_err
       (bind_io (transfer_one os le ci cm me eventfd) (\<lambda>hv_eventfd.
        bind_io (with_mem os me (cd_size ck) (\<lambda>te mem.
          bind_io (hv_write os ck mem \<lparr>ki_fd = hv_eventfd, ki_gsi = gsi, ki_flags = 0, ki_resamplefd = 0\<rparr>) (\<lambda>_.
          bind_io (try_io (vm_ioctl_with_ref os me te (KVM_IRQFD (cd_size ck)) mem) ''kvm irqfd ioctl injection failed'') (\<lambda>r.
          if r \<noteq> 0 then lift_res (bail ''cannot register KVM_IRQFD via ioctl'') else ret ())))) (\<lambda>_.
        ret eventfd)))
       (on_fst (sock_drop le eventfd)))"

section \<open>The control message\<close>

text \<open>A message of type \<^verbatim>\<open>SCM_RIGHTS\<close> as the kernel stores it, in a buffer with some space left.\<close>

definition scm_message :: "raw_fd list \<Rightarrow> bytes \<Rightarrow> bytes" where
  "scm_message fds pad =
     word_bytes 8 (16 + 4 * of_nat (length fds) :: u64) @ word_bytes 4 (1 :: u32) @ word_bytes 4 SCM_RIGHTS @
     concat (map (word_bytes 4) fds) @ pad"

lemma field_fds:
  "i < length fds \<Longrightarrow> field (4 * i) 4 (concat (map (word_bytes 4) fds) @ pad) = (fds ! i :: u32)"
proof (induction fds arbitrary: i)
  case (Cons x xs)
  show ?case
  proof (cases i)
    case (Suc j)
    then have "field (4 * i) 4 (word_bytes 4 x @ concat (map (word_bytes 4) xs) @ pad) =
        (field (4 * j) 4 (concat (map (word_bytes 4) xs) @ pad) :: u32)"
      by (subst field_skip) simp_all
    then show ?thesis using Cons Suc by simp
  qed simp
qed simp

lemma length_fds: "length (concat (map (word_bytes 4) (fds :: u32 list))) = 4 * length fds"
  by (induction fds) simp_all

lemma scm_message_fields:
  "field 0 8 (scm_message fds pad) = (16 + 4 * of_nat (length fds) :: u64)"
  "field 12 4 (scm_message fds pad) = SCM_RIGHTS"
  "i < length fds \<Longrightarrow> field (16 + 4 * i) 4 (scm_message fds pad) = (fds ! i :: u32)"
proof -
  show "field (16 + 4 * i) 4 (scm_message fds pad) = (fds ! i :: u32)" if "i < length fds"
    using field_fds[OF that, of pad] by (simp add: scm_message_def)
qed (simp_all add: scm_message_def)

text \<open>
  File descriptors survive the transfer: from a control message in the format of \<^verbatim>\<open>SCM_RIGHTS\<close> the code reads
  exactly the descriptors that the kernel installed in the hypervisor, in order.
\<close>

theorem scm_rights_roundtrip:
  assumes "length fds < 2 ^ 60" "CMSG_HDR_SIZE \<le> controllen"
  shows "parse_scm_rights (scm_message fds pad) controllen w = Some (w, Inr fds)"
proof -
  let ?n = "length fds"
  have "unat (4 * of_nat ?n :: u64) = 4 * ?n"
    using assms(1) by (simp add: unat_word_ariths unat_of_nat)
  then have u: "unat (4 * of_nat ?n :: u64) = 4 * ?n" "unat (16 + 4 * of_nat ?n :: u64) = 16 + 4 * ?n"
    using assms(1) by (simp_all add: unat_word_ariths)
  then have s: "chk_sub (16 + 4 * of_nat ?n) CMSG_HDR_SIZE = Inr (4 * of_nat ?n :: u64)"
    by (simp add: chk_sub_Inr CMSG_HDR_SIZE_def word_le_nat_alt)
  have "map (\<lambda>i. field (16 + 4 * i) 4 (scm_message fds pad)) [0..<?n] = fds"
    by (rule nth_equalityI) (simp_all add: scm_message_fields(3))
  moreover have "\<not> length (scm_message fds pad) < 16 + 4 * ?n"
    by (simp add: scm_message_def length_fds)
  moreover have "\<not> controllen < CMSG_HDR_SIZE" using assms(2) by simp
  ultimately show ?thesis
    by (simp add: parse_scm_rights_def scm_message_fields(1,2) s u(1) ret_def)
qed

theorem scm_rights_roundtrip_witness:
  "parse_scm_rights (scm_message [7, 12] (replicate 40 0)) 24 (0 :: nat) = Some (0, Inr [7, 12])"
  by (rule scm_rights_roundtrip) (simp_all add: CMSG_HDR_SIZE_def)

end
