(* ===== verification/Page_Example.thy ===== *)
theory Page_Example
  imports Page_Commit
begin

text \<open>
  The properties of \<open>Page_Commit\<close> on a concrete guest, and a mapping across a GiB boundary.
\<close>

section \<open>An example\<close>

text \<open>
  A guest with 1 MiB of memory, mapped by the hypervisor at 0x10000, whose page table at 0x1000
  maps one huge page at 1 GiB; three pages are mapped at 0x7fe000.
\<close>

definition ex_rd :: "(usize \<Rightarrow> page_table_entry list) \<Rightarrow> reader" where
  "ex_rd mem h = Inr (if length (mem h) = 512 then mem h else replicate 512 0)"

definition ex_wr :: "(usize \<Rightarrow> page_table_entry list) writer" where
  "ex_wr iov mem = (\<lambda>h. case map_of iov h of Some es \<Rightarrow> es | None \<Rightarrow> mem h,
     Inr (of_nat (length iov) * PAGE_SIZE))"

definition ex_mem :: "usize \<Rightarrow> page_table_entry list" where
  "ex_mem h = (if h = 0x11000 then (replicate 512 0)[0 := 0x2003]
     else if h = 0x12000 then (replicate 512 0)[1 := 0x40000083] else replicate 512 0)"

definition ex_slots :: memslots where
  "ex_slots = [((0, 0xFFFFF), 0x10000)]"

definition ex_mm :: mapped_memory where
  "ex_mm = \<lparr>mm_phys_start = \<lparr>pa_value = 0x100000, pa_host_offset = 0x10000\<rparr>,
     mm_virt_start = 0x7fe000, mm_len = 0x3000, mm_prot = 1\<rparr>"

definition ex_tables :: "map_state res" where
  "ex_tables = map_memory_tables (ex_rd ex_mem) ex_slots 0x1000 [ex_mm]"

lemma ex_tables_run: "(case ex_tables of Inr s \<Rightarrow> pa_value (pt_addr s) = 0x106000 | Inl e \<Rightarrow> False)"
  by code_simp

lemmas ex_tables_ok = run_okD[OF ex_tables_run]

lemma ex_env: "0x100000 \<le> lo \<Longrightarrow> env_ok (ex_rd mem) ex_slots lo"
proof -
  assume lo: "0x100000 \<le> lo"
  have "wf_slots ex_slots" "last_range ex_slots = Some (0, 0xFFFFF)"
    by (simp_all add: ex_slots_def wf_slots_def last_range_def)
  then have "phm_get ex_slots a = None" if "0x100000 \<le> unat a" for a
    using that by (intro phm.look_above_last) (auto simp: word_less_nat_alt)
  then show ?thesis using lo by (auto simp: env_ok_def ex_rd_def)
qed

lemma ex_mm_simps:
  "mm_phys_start ex_mm = \<lparr>pa_value = 0x100000, pa_host_offset = 0x10000\<rparr>"
  "mm_virt_start ex_mm = 0x7fe000" "mm_len ex_mm = 0x3000"
  by (simp_all add: ex_mm_def)

theorem map_memory_translates_witness:
  "walk (view (ex_rd ex_mem) ex_slots (projr ex_tables)) 0x1000 (virt_indices 0x800000)
     = Some (0, 0x102000 OR page_table_flags (mm_prot ex_mm))"
  using map_memory_translates[OF ex_tables_ok(1)[unfolded ex_tables_def], of ex_mm 2]
    ex_tables_ok(2)[unfolded ex_tables_def] ex_env[of "0x103000" ex_mem]
  by (simp add: ex_mm_simps is_page_aligned_def PAGE_SIZE_def ex_tables_def)

theorem map_memory_preserves_witness:
  "walk (view (ex_rd ex_mem) ex_slots (projr ex_tables)) 0x1000 (virt_indices 0x40000000)
     = Some (2, 0x40000083)"
proof -
  have v: "virt_indices 0x40000000 = [0, 1, 0, 0]"
    by (simp add: virt_indices_def virt_index_def)
  have "walk (guest_table (ex_rd ex_mem) ex_slots) 0x1000 [0, 1, 0, 0] = Some (2, 0x40000083)"
    by code_simp
  then show ?thesis
    using map_memory_preserves[OF ex_tables_ok(1)[unfolded ex_tables_def], of "0x40000000"] ex_env[of "0x103000" ex_mem]
    by (simp add: ex_mm_simps is_page_aligned_def PAGE_SIZE_def ex_tables_def v del: walk.simps)
qed

theorem estimate_suffices_witness:
  "\<exists>e. estimate_page_table_size (mm_len ex_mm) = Inr e \<and>
     unat (pa_value (pt_addr (projr ex_tables))) \<le> 0x103000 + unat e"
proof -
  have e: "estimate_page_table_size (mm_len ex_mm) = Inr 0x4000"
    unfolding ex_mm_def by code_simp
  show ?thesis
    using estimate_suffices[OF ex_tables_ok(1)[unfolded ex_tables_def] _ _ _ _ _ e]
      ex_tables_ok(2)[unfolded ex_tables_def] ex_env[of "0x103000" ex_mem] e
    by (simp add: ex_mm_simps is_page_aligned_def PAGE_SIZE_def ex_tables_def)
qed

definition ex_map :: "(usize \<Rightarrow> page_table_entry list) \<times> virt_mem res" where
  "ex_map = map_memory ex_rd ex_wr id ex_slots 0x1000 [ex_mm] ex_mem"

lemma ex_map_run:
  "(case snd ex_map of Inr vm \<Rightarrow> is_ok (snd (commit_page_tables ex_wr (vm_old_tables vm) (fst ex_map)))
    | Inl e \<Rightarrow> False)"
  by code_simp

lemmas ex_map_ok = run_okD[OF ex_map_run]

lemma ex_writev: "writev_ok ex_rd ex_wr"
  by (auto simp: writev_ok_def ex_rd_def ex_wr_def split: option.split dest: map_of_SomeD)

lemma ex_host_pages: "host_pages_ok ex_slots lo 0x10000"
proof -
  have off: "pa_host_offset x = 0x10000" and al: "is_page_aligned (pa_value x)"
    if "table_page ex_slots lo 0x10000 x" for x
    using that phm.look_iff[of ex_slots "pa_value x" "pa_host_offset x"]
    by (auto simp: table_page_def ex_slots_def wf_slots_def)
  have "\<not> (0x10000 :: isize) <s 0" by (simp add: sless_zero_iff)
  with off have h: "h = pa_value x + 0x10000" if "table_page ex_slots lo 0x10000 x" "host_addr x = Inr h" for x h
    using that by (auto simp: host_addr_def res_simps)
  have "is_page_aligned (v + 0x10000)" if "is_page_aligned v" for v
    using that by (auto simp: is_page_aligned_iff unat_word_ariths(1) dvd_mod_iff)
  moreover have "x = y" if "table_page ex_slots lo 0x10000 x" "table_page ex_slots lo 0x10000 y"
    "host_addr x = Inr h" "host_addr y = Inr h" for x y h
    using h[OF that(1,3)] h[OF that(2,4)] off[OF that(1)] off[OF that(2)]
    by (intro phys_addr.equality) simp_all
  ultimately show ?thesis
    using al h unfolding host_pages_ok_def by blast
qed

theorem virt_mem_drop_restores_witness:
  "guest_table (ex_rd (virt_mem_drop ex_wr (projr (snd ex_map)) (fst ex_map))) ex_slots 0x2000
     = guest_table (ex_rd ex_mem) ex_slots 0x2000"
proof (rule virt_mem_drop_restores[where rd = ex_rd and mem = ex_mem and a = "0x1000" and mappings = "[ex_mm]"])
  show "map_memory ex_rd ex_wr id ex_slots 0x1000 [ex_mm] ex_mem = (fst ex_map, Inr (projr (snd ex_map)))"
    using ex_map_ok(1) by (simp add: ex_map_def prod_eq_iff)
  show "commit_page_tables ex_wr (vm_old_tables (projr (snd ex_map))) (fst ex_map)
      = (fst (commit_page_tables ex_wr (vm_old_tables (projr (snd ex_map))) (fst ex_map)), Inr ())"
    using ex_map_ok(2) by (auto simp: is_ok_iff prod_eq_iff)
qed (simp_all add: ex_env ex_mm_simps ex_writev ex_host_pages is_page_aligned_def PAGE_SIZE_def)

section \<open>A mapping across a GiB boundary\<close>

definition gib_mm :: mapped_memory where
  "gib_mm = \<lparr>mm_phys_start = \<lparr>pa_value = 0x100000, pa_host_offset = 0x10000\<rparr>,
     mm_virt_start = 0x3FFFF000, mm_len = 0x2000, mm_prot = 1\<rparr>"

text \<open>
  The restriction to one GiB is necessary. When a mapping crosses a GiB boundary, the start
  index of the lowest level is computed again from \<^verbatim>\<open>virt_start\<close> for the first entry of the new
  level-2 table. For two pages at 0x3FFFF000, the second one is not mapped at 0x40000000, where
  it belongs, but at 0x401FF000.
\<close>

theorem gib_crossing_misplaced:
  "(case map_memory_tables (\<lambda>h. Inr (replicate 512 0)) ex_slots 0x1000 [gib_mm] of
      Inr s \<Rightarrow>
        walk (view (\<lambda>h. Inr (replicate 512 0)) ex_slots s) 0x1000 (virt_indices 0x40000000) = None \<and>
        walk (view (\<lambda>h. Inr (replicate 512 0)) ex_slots s) 0x1000 (virt_indices 0x401FF000)
          = Some (0, 0x101000 OR page_table_flags 1)
    | Inl e \<Rightarrow> False)"
proof -
  have v: "virt_indices 0x40000000 = [0, 1, 0, 0]" "virt_indices 0x401FF000 = [0, 1, 0, 511]"
    by (simp_all add: virt_indices_def virt_index_def)
  show ?thesis unfolding v by code_simp
qed

end
