(* ===== verification/Phys_Alloc.thy ===== *)
theory Phys_Alloc
  imports Hypervisor Page_Example
begin

text \<open>
  \<^verbatim>\<open>src/kvm/allocator.rs\<close>: new guest-physical memory is taken from the end of the physical address space of the
  guest downwards. An operation works on the world with the hypervisor, and the allocator. What the
  \<^verbatim>\<open>cpuid\<close> instruction answers on the host is an argument.
\<close>

record phys_mem_allocator =
  al_guest_mem :: guest_mem
  al_next_allocation :: usize

definition EXTEND_CPU_INFO_FUNCTION :: u32 where "EXTEND_CPU_INFO_FUNCTION = 0x80000001"
definition ENCRYPTED_MEMORY_CAPABILITIES :: u32 where "ENCRYPTED_MEMORY_CAPABILITIES = 0x8000001f"
definition ADDRESS_SIZE_FUNCTION :: u32 where "ADDRESS_SIZE_FUNCTION = 0x80000008"
definition LONG_MODE :: u32 where "LONG_MODE = push_bit 29 1"

record cpuid_result =
  cr_eax :: u32
  cr_ebx :: u32

record cpuid_entry =
  ce_function :: u32
  ce_eax :: u32
  ce_edx :: u32

record kvm_cpuid2 =
  c2_nent :: u32
  c2_padding :: u32
  c2_entries :: "cpuid_entry list"

definition sme_sev_bits :: "(u32 \<Rightarrow> cpuid_result) \<Rightarrow> u8" where
  "sme_sev_bits cpuid =
     (let host_cpuid = cpuid ENCRYPTED_MEMORY_CAPABILITIES in
      if cr_eax host_cpuid AND 1 \<noteq> 0 \<or> cr_eax host_cpuid AND 2 \<noteq> 0
      then ucast (drop_bit 6 (cr_ebx host_cpuid) AND 0x3f) else 0)"

text \<open>\<^verbatim>\<open>1 << n\<close> on \<^verbatim>\<open>usize\<close>.\<close>

definition chk_shl1 :: "u8 \<Rightarrow> usize res" where
  "chk_shl1 n = (if n < 64 then Inr (push_bit (unat n) 1) else panic ''attempt to shift left with overflow'')"

definition first_allocation :: "(u32 \<Rightarrow> cpuid_result) \<Rightarrow> kvm_cpuid2 \<Rightarrow> usize res" where
  "first_allocation cpuid vm_cpuid =
     (let host_cpuid = cpuid ADDRESS_SIZE_FUNCTION in
     bind_res (require_with (find (\<lambda>c. ce_function c = EXTEND_CPU_INFO_FUNCTION) (c2_entries vm_cpuid))
       ''could not get the vm's cpuid entry for extended processor info and features bits'') (\<lambda>ext_entry.
     if ce_edx ext_entry AND LONG_MODE = 0 then bail ''VM is not 64-bit''
     else
       bind_res (require_with (find (\<lambda>c. ce_function c = ADDRESS_SIZE_FUNCTION) (c2_entries vm_cpuid))
         ''could not get the vm's cpuid entry for virtual and physical address size'') (\<lambda>addr_entry.
       let vm_phys_bits = (ucast (ce_eax addr_entry) :: u8);
           vm_virt_bits = (ucast (drop_bit 8 (ce_eax addr_entry)) :: u8) in
       if vm_virt_bits \<noteq> 48 then bail ''VM cpu uses unsupported number of bits for virtual addresses''
       else
         bind_res (chk_sub (ucast (cr_eax host_cpuid)) (sme_sev_bits cpuid)) (\<lambda>host_phys_bits.
         bind_res (chk_shl1 vm_phys_bits) (\<lambda>vm_end.
         bind_res (chk_shl1 host_phys_bits) (\<lambda>host_end. Inr (min vm_end host_end)))))))"

definition get_first_allocation ::
  "'w os \<Rightarrow> kvm_cpuid2 codec \<Rightarrow> usize \<Rightarrow> kvm_cpuid2 \<Rightarrow> (u32 \<Rightarrow> cpuid_result) \<Rightarrow> thread_id
    \<Rightarrow> ('w \<times> hypervisor, usize) io" where
  "get_first_allocation os c sz zero cpuid me =
     bind_io get_st (\<lambda>(_, h).
     bind_io (lift_res (index_res (hv_vcpus h) 0)) (\<lambda>v.
     bind_io (try_io (get_cpuid2 os c sz zero me v) ''cannot get cpuid2'') (\<lambda>vm_cpuid.
     lift_res (first_allocation cpuid vm_cpuid))))"

record virt_alloc_req =
  va_virt_start :: usize
  va_virt_offset :: usize
  va_len :: usize
  va_prot :: prot_flags

definition va_virt_end :: "virt_alloc_req \<Rightarrow> usize res" where
  "va_virt_end a = chk_add (va_virt_start a) (va_len a)"

text \<open>\<^verbatim>\<open>GuestMem::new\<close> with its queries.\<close>

definition gm_new ::
  "'w os \<Rightarrow> 'w kenv \<Rightarrow> kvm_regs codec \<Rightarrow> kvm_sregs codec \<Rightarrow> thread_id \<Rightarrow> ('w \<times> hypervisor, guest_mem) io" where
  "gm_new os env cr cs me =
     bind_io (try_io (hv_get_maps os env me) ''cannot vm memory allocations'') (\<lambda>mappings.
     bind_io (lift_res (host_map_of mappings)) (\<lambda>maps.
     bind_io get_st (\<lambda>(_, h).
     bind_io (lift_res (index_res (hv_vcpus h) 0)) (\<lambda>first_core.
     bind_io (try_io (get_regs os cr me first_core) ''failed to get vcpu registers'') (\<lambda>regs.
     bind_io (try_io (get_sregs os cs me first_core) ''failed to get vcpu special registers'') (\<lambda>sregs.
     lift_res (guest_mem_of maps regs sregs)))))))"

definition allocator_new ::
  "'w os \<Rightarrow> 'w kenv \<Rightarrow> kvm_cpuid2 codec \<Rightarrow> usize \<Rightarrow> kvm_cpuid2 \<Rightarrow> kvm_regs codec \<Rightarrow> kvm_sregs codec
    \<Rightarrow> (u32 \<Rightarrow> cpuid_result) \<Rightarrow> thread_id \<Rightarrow> ('w \<times> hypervisor, phys_mem_allocator) io" where
  "allocator_new os env cc sz zero cr cs cpuid me =
     bind_io (get_first_allocation os cc sz zero cpuid me) (\<lambda>next.
     bind_io (gm_new os env cr cs me) (\<lambda>gm.
     ret \<lparr>al_guest_mem = gm, al_next_allocation = next\<rparr>))"

definition next_addr :: "usize \<Rightarrow> ('s \<times> phys_mem_allocator, usize) io" where
  "next_addr len =
     bind_io get_st (\<lambda>(_, a).
     bind_io (lift_res (require_with (checked_sub (al_next_allocation a) len) ''out of memory'')) (\<lambda>start.
     bind_io (lift_res (require_with (last_memslot_range (al_guest_mem a)) ''vm has no memory assigned'')) (\<lambda>last.
     if start < snd last then lift_res (bail ''cannot allocate memory, our allocator conflicts with mapping'')
     else bind_io (upd_snd (\<lambda>a. a\<lparr>al_next_allocation := start\<rparr>)) (\<lambda>_. ret start))))"

definition phys_alloc ::
  "'w os \<Rightarrow> 'w kenv \<Rightarrow> kvm_userspace_memory_region codec \<Rightarrow> thread_id \<Rightarrow> usize \<Rightarrow> bool
    \<Rightarrow> (('w \<times> hypervisor) \<times> phys_mem_allocator, phys_mem) io" where
  "phys_alloc os env c me len readonly =
     bind_io get_st (\<lambda>(_, a).
     let old_start = al_next_allocation a in
     bind_io (lift_res (page_align len)) (\<lambda>padded_size.
     bind_io (next_addr padded_size) (\<lambda>start.
     bind_io (attempt (on_fst (vm_add_mem os env c me 1 start padded_size readonly))) (\<lambda>res.
     bind_io (case res of Inl (Err _) \<Rightarrow> upd_snd (\<lambda>a. a\<lparr>al_next_allocation := old_start\<rparr>) | _ \<Rightarrow> ret ()) (\<lambda>_.
     lift_res res)))))"

fun sum_res :: "usize list \<Rightarrow> usize \<Rightarrow> usize res" where
  "sum_res [] acc = Inr acc"
| "sum_res (x # xs) acc = bind_res (chk_add acc x) (sum_res xs)"

fun lay_out :: "phys_addr \<Rightarrow> virt_alloc_req list \<Rightarrow> mapped_memory list res" where
  "lay_out next [] = Inr []"
| "lay_out next (a # as) =
     bind_res (chk_add (pa_value next) (va_len a)) (\<lambda>v.
     bind_res (lay_out (next\<lparr>pa_value := v\<rparr>) as) (\<lambda>ms.
     Inr (\<lparr>mm_phys_start = next, mm_virt_start = va_virt_start a, mm_len = va_len a, mm_prot = va_prot a\<rparr> # ms)))"

definition virt_alloc ::
  "'w os \<Rightarrow> 'w kenv \<Rightarrow> kvm_userspace_memory_region codec \<Rightarrow> ('w \<Rightarrow> reader) \<Rightarrow> 'w writer
    \<Rightarrow> (page_table list \<Rightarrow> page_table list) \<Rightarrow> thread_id \<Rightarrow> virt_alloc_req list
    \<Rightarrow> (('w \<times> hypervisor) \<times> phys_mem_allocator, phys_mem \<times> virt_mem) io" where
  "virt_alloc os env c rd wr ord me alloc =
     bind_io (lift_res (sum_res (map va_len alloc) 0)) (\<lambda>len.
     bind_io (lift_res (estimate_page_table_size len)) (\<lambda>est.
     bind_io (lift_res (chk_add len est)) (\<lambda>total.
     bind_io (phys_alloc os env c me total False) (\<lambda>pm.
     on_err
       (bind_io (lift_res (lay_out (pm_guest_phys_addr pm) alloc)) (\<lambda>mapped_mem.
        bind_io get_st (\<lambda>(_, a).
        bind_io (on_fst (on_fst (\<lambda>w. Some (gm_map_memory rd wr ord (al_guest_mem a) mapped_mem w)))) (\<lambda>vm.
        ret (pm, vm)))))
       (on_fst (bind_io get_st (\<lambda>(_, h). on_fst (phys_mem_drop os c me (hv_tracee h) pm))))))))"

text \<open>\<^verbatim>\<open>MmioRange::new\<close> of \<^verbatim>\<open>vm-device\<close> refuses an empty range and one that wraps around.\<close>

definition alloc_mmio_range ::
  "(u64 \<Rightarrow> u64 \<Rightarrow> 'r res) \<Rightarrow> usize \<Rightarrow> ('s \<times> phys_mem_allocator, 'r) io" where
  "alloc_mmio_range mmio_range_new len =
     bind_io (next_addr len) (\<lambda>start.
     lift_res (try_with (mmio_range_new start len) ''failed to allocate mmio range''))"

section \<open>Single allocations\<close>

lemma next_addr_Inr:
  assumes "next_addr len (w, a) = Some (s', Inr start)"
  shows "s' = (w, a\<lparr>al_next_allocation := start\<rparr>)"
    and "unat (al_next_allocation a) = unat start + unat len"
    and "\<exists>l. last_memslot_range (al_guest_mem a) = Some l \<and> snd l \<le> start"
  using assms
  by (auto simp: next_addr_def io_simps require_with_Inr checked_sub_def unat_sub word_le_nat_alt not_less
      split: if_splits option.splits)

lemma next_addr_Inl: "next_addr len s = Some (s', Inl e) \<Longrightarrow> s' = s"
  by (auto simp: next_addr_def bind_io_Inl io_simps split: if_splits prod.splits)

lemma vm_add_mem_addr:
  "vm_add_mem os env c me sz addr len ro s = Some (s', Inr pm) \<Longrightarrow> pa_value (pm_guest_phys_addr pm) = addr"
  by (auto simp: vm_add_mem_def io_simps Let_def split: if_splits prod.splits)

text \<open>Everything \<^verbatim>\<open>phys_alloc\<close> can do to the allocator.\<close>

lemma phys_alloc_cases:
  assumes "phys_alloc os env c me len ro ((w, h), a) = Some ((wh', a'), r)"
  obtains (ok) pm padded where "r = Inr pm" "page_align len = Inr padded"
      "a' = a\<lparr>al_next_allocation := pa_value (pm_guest_phys_addr pm)\<rparr>"
      "unat (al_next_allocation a) = unat (pa_value (pm_guest_phys_addr pm)) + unat padded"
      "\<exists>l. last_memslot_range (al_guest_mem a) = Some l \<and> snd l \<le> pa_value (pm_guest_phys_addr pm)"
  | (err) e where "r = Inl (Err e)" "a' = a"
  | (panic) e where "r = Inl (Panic e)" "al_guest_mem a' = al_guest_mem a" "al_next_allocation a' \<le> al_next_allocation a"
proof -
  show thesis
  proof (cases "page_align len")
    case (Inl e)
    then have "a' = a" "r = Inl e" using assms by (auto simp: phys_alloc_def Let_def bind_io_def get_st_def lift_res_def)
    then show thesis using err panic by (cases e) auto
  next
    case p: (Inr padded)
    obtain s1 r1 where n: "next_addr padded ((w, h), a) = Some (s1, r1)"
      using assms p by (cases "next_addr padded ((w, h), a)") (auto simp: phys_alloc_def Let_def bind_io_def get_st_def)
    show thesis
    proof (cases r1)
      case (Inl e)
      then have "a' = a" "r = Inl e"
        using assms p n next_addr_Inl[of padded "((w, h), a)"] by (auto simp: phys_alloc_def Let_def bind_io_def get_st_def)
      then show thesis using err panic by (cases e) auto
    next
      case (Inr start)
      note nx = next_addr_Inr[OF n[unfolded Inr]]
      obtain wh1 r2 where v: "vm_add_mem os env c me 1 start padded ro (w, h) = Some (wh1, r2)"
        using assms p n Inr nx(1)
        by (cases "vm_add_mem os env c me 1 start padded ro (w, h)")
          (auto simp: phys_alloc_def Let_def bind_io_def get_st_def attempt_def on_fst_def)
      have run: "r = r2 \<and> a' = (case r2 of Inl (Err _) \<Rightarrow> a | _ \<Rightarrow> a\<lparr>al_next_allocation := start\<rparr>)"
        using assms p n Inr nx(1) v
        by (auto simp: phys_alloc_def Let_def bind_io_def get_st_def attempt_def on_fst_def upd_snd_def ret_def
            lift_res_def split: sum.splits error.splits)
      show thesis
      proof (cases r2)
        case (Inr pm)
        then show thesis using ok p run nx vm_add_mem_addr[OF v[unfolded Inr]] by auto
      next
        case (Inl e)
        then show thesis using err panic run nx(2) by (cases e) (auto simp: word_le_nat_alt)
      qed
    qed
  qed
qed

text \<open>No operation changes what is known of the guest or gives memory back that is in use.\<close>

definition al_le :: "phys_mem_allocator \<Rightarrow> phys_mem_allocator \<Rightarrow> bool" where
  "al_le a a' \<longleftrightarrow> al_guest_mem a' = al_guest_mem a \<and> al_next_allocation a' \<le> al_next_allocation a"

definition al_frame :: "'s \<times> phys_mem_allocator \<Rightarrow> 's \<times> phys_mem_allocator \<Rightarrow> bool" where
  "al_frame s s' \<longleftrightarrow> al_le (snd s) (snd s')"

lemma al_frame_order [simp]: "reflp al_frame" "transp al_frame"
  by (auto simp: al_frame_def al_le_def intro!: reflpI transpI)

lemma al_frame_on_fst: "frames al_frame (on_fst m)"
  by (auto simp: frames_def al_frame_def al_le_def io_simps)

lemma al_frame_next_addr: "frames al_frame (next_addr len)"
proof (rule framesI)
  fix s s' :: "'s \<times> phys_mem_allocator" and r
  assume *: "next_addr len s = Some (s', r)"
  show "al_frame s s'"
    using * next_addr_Inr[of len "fst s" "snd s" s'] next_addr_Inl[of len s s']
    by (cases r) (auto simp: al_frame_def al_le_def word_le_nat_alt)
qed

lemma al_frame_phys_alloc: "frames al_frame (phys_alloc os env c me len ro)"
proof (rule framesI)
  fix s s' :: "('a \<times> hypervisor) \<times> phys_mem_allocator" and r
  assume *: "phys_alloc os env c me len ro s = Some (s', r)"
  then have "phys_alloc os env c me len ro ((fst (fst s), snd (fst s)), snd s) = Some ((fst s', snd s'), r)" by simp
  then show "al_frame s s'"
    by (cases rule: phys_alloc_cases) (auto simp: al_frame_def al_le_def word_le_nat_alt)
qed

lemma al_frame_virt_alloc: "frames al_frame (virt_alloc os env c rd wr ord me alloc)"
  unfolding virt_alloc_def
  by (intro frame_intros al_frame_phys_alloc al_frame_on_fst al_frame_order)

section \<open>Sequences of allocations\<close>

text \<open>
  The contract of an allocator that works downwards: a step may fail or deliver a range of addresses. The
  ranges delivered in a sequence of steps are listed with the first one first.
\<close>

inductive alloc_trace :: "('s \<Rightarrow> (nat \<times> nat) option \<Rightarrow> 's \<Rightarrow> bool) \<Rightarrow> 's \<Rightarrow> (nat \<times> nat) list \<Rightarrow> 's \<Rightarrow> bool"
  for step where
  trace_start: "alloc_trace step s [] s"
| trace_fail: "\<lbrakk>step s None s1; alloc_trace step s1 rs s'\<rbrakk> \<Longrightarrow> alloc_trace step s rs s'"
| trace_alloc: "\<lbrakk>step s (Some r) s1; alloc_trace step s1 rs s'\<rbrakk> \<Longrightarrow> alloc_trace step s (r # rs) s'"

locale bump_allocator =
  fixes step :: "'s \<Rightarrow> (nat \<times> nat) option \<Rightarrow> 's \<Rightarrow> bool"
    and limit :: "'s \<Rightarrow> nat" and used :: "'s \<Rightarrow> nat"
  assumes step_used: "step s r s' \<Longrightarrow> used s' = used s"
    and step_limit: "step s r s' \<Longrightarrow> limit s' \<le> limit s"
    and step_range: "step s (Some (a, b)) s' \<Longrightarrow> used s \<le> a \<and> limit s' \<le> a \<and> b \<le> limit s"
begin

lemma trace_disjoint:
  assumes "alloc_trace step s rs s'"
  shows "sorted_wrt (\<lambda>x y. snd y \<le> fst x) rs \<and> (\<forall>r \<in> set rs. used s \<le> fst r \<and> snd r \<le> limit s)"
  using assms
proof (induction rule: alloc_trace.induct)
  case (trace_fail s s1 rs s')
  then show ?case using step_used[OF trace_fail.hyps(1)] step_limit[OF trace_fail.hyps(1)] by fastforce
next
  case (trace_alloc s r s1 rs s')
  have r: "used s \<le> fst r \<and> limit s1 \<le> fst r \<and> snd r \<le> limit s"
    using step_range[of s "fst r" "snd r" s1] trace_alloc.hyps(1) by simp
  then show ?case
    using trace_alloc.IH step_used[OF trace_alloc.hyps(1)] step_limit[OF trace_alloc.hyps(1)] by fastforce
qed simp

end

text \<open>The steps of the model: each operation of the allocator with the range it delivers.\<close>

definition pm_range :: "phys_mem \<Rightarrow> usize \<Rightarrow> nat \<times> nat" where
  "pm_range pm len = (unat (pa_value (pm_guest_phys_addr pm)), unat (pa_value (pm_guest_phys_addr pm)) + unat len)"

inductive alloc_step ::
  "'w os \<Rightarrow> 'w kenv \<Rightarrow> kvm_userspace_memory_region codec \<Rightarrow> (u64 \<Rightarrow> u64 \<Rightarrow> (u64 \<times> u64) res) \<Rightarrow> thread_id
    \<Rightarrow> ('w \<times> hypervisor) \<times> phys_mem_allocator \<Rightarrow> (nat \<times> nat) option \<Rightarrow> ('w \<times> hypervisor) \<times> phys_mem_allocator \<Rightarrow> bool"
  for os env c mk me where
  step_phys: "\<lbrakk>phys_alloc os env c me len ro s = Some (s', Inr pm); page_align len = Inr padded\<rbrakk>
    \<Longrightarrow> alloc_step os env c mk me s (Some (pm_range pm padded)) s'"
| step_phys_err: "phys_alloc os env c me len ro s = Some (s', Inl e) \<Longrightarrow> alloc_step os env c mk me s None s'"
| step_virt: "\<lbrakk>virt_alloc os env c rd wr ord me alloc s = Some (s', Inr (pm, vm)); sum_res (map va_len alloc) 0 = Inr len;
    estimate_page_table_size len = Inr est; chk_add len est = Inr tot; page_align tot = Inr padded\<rbrakk>
    \<Longrightarrow> alloc_step os env c mk me s (Some (pm_range pm padded)) s'"
| step_virt_err: "virt_alloc os env c rd wr ord me alloc s = Some (s', Inl e) \<Longrightarrow> alloc_step os env c mk me s None s'"
| step_mmio: "alloc_mmio_range mk len s = Some (s', Inr (base, sz))
    \<Longrightarrow> alloc_step os env c mk me s (Some (unat base, unat base + unat sz)) s'"
| step_mmio_err: "alloc_mmio_range mk len s = Some (s', Inl e) \<Longrightarrow> alloc_step os env c mk me s None s'"

definition al_used :: "'s \<times> phys_mem_allocator \<Rightarrow> nat" where
  "al_used s = (case last_memslot_range (al_guest_mem (snd s)) of None \<Rightarrow> 0 | Some l \<Rightarrow> unat (snd l))"

definition al_limit :: "'s \<times> phys_mem_allocator \<Rightarrow> nat" where
  "al_limit s = unat (al_next_allocation (snd s))"

text \<open>What is used of \<^verbatim>\<open>MmioRange::new\<close>: a range it accepts has the base and the size it was given.\<close>

definition mmio_range_ok :: "(u64 \<Rightarrow> u64 \<Rightarrow> (u64 \<times> u64) res) \<Rightarrow> bool" where
  "mmio_range_ok mk \<longleftrightarrow> (\<forall>a l r. mk a l = Inr r \<longrightarrow> r = (a, l))"

lemma al_frame_mmio: "frames al_frame (alloc_mmio_range mk len)"
  unfolding alloc_mmio_range_def by (intro frame_intros al_frame_next_addr al_frame_order)

lemma alloc_step_frame: "alloc_step os env c mk me s r s' \<Longrightarrow> al_frame s s'"
  by (induction rule: alloc_step.induct)
    (blast intro: framesD al_frame_phys_alloc al_frame_virt_alloc al_frame_mmio)+

lemma phys_alloc_range:
  assumes "phys_alloc os env c me len ro s = Some (s', Inr pm)" "page_align len = Inr padded"
  shows "al_used s \<le> fst (pm_range pm padded) \<and> al_limit s' \<le> fst (pm_range pm padded) \<and>
    snd (pm_range pm padded) \<le> al_limit s"
proof -
  have "phys_alloc os env c me len ro ((fst (fst s), snd (fst s)), snd s) = Some ((fst s', snd s'), Inr pm)"
    using assms(1) by simp
  then show ?thesis
    by (cases rule: phys_alloc_cases)
      (use assms(2) in \<open>auto simp: al_used_def al_limit_def pm_range_def word_le_nat_alt\<close>)
qed

lemma virt_alloc_Inr:
  assumes "virt_alloc os env c rd wr ord me alloc ((w, h), a) = Some ((wh', a'), Inr (pm, vm))"
  obtains len est total w1 h1 ms where "sum_res (map va_len alloc) 0 = Inr len"
    "estimate_page_table_size len = Inr est" "chk_add len est = Inr total"
    "phys_alloc os env c me total False ((w, h), a) = Some (((w1, h1), a'), Inr pm)"
    "lay_out (pm_guest_phys_addr pm) alloc = Inr ms"
    "snd (gm_map_memory rd wr ord (al_guest_mem a') ms w1) = Inr vm"
  using assms by (auto simp: virt_alloc_def io_simps on_fst_def split: option.splits prod.splits)

lemma alloc_mmio_range_range:
  assumes "alloc_mmio_range mk len s = Some (s', Inr (base, sz))" "mmio_range_ok mk"
  shows "al_used s \<le> unat base \<and> al_limit s' \<le> unat base \<and> unat base + unat sz \<le> al_limit s"
proof -
  obtain start where n: "next_addr len (fst s, snd s) = Some (s', Inr start)" and "mk start len = Inr (base, sz)"
    using assms(1) by (auto simp: alloc_mmio_range_def io_simps res_simps)
  then have "base = start" "sz = len" using assms(2) by (auto simp: mmio_range_ok_def)
  then show ?thesis
    using next_addr_Inr[OF n] by (auto simp: al_used_def al_limit_def word_le_nat_alt)
qed

lemma alloc_step_range:
  assumes "alloc_step os env c mk me s (Some (a, b)) s'" "mmio_range_ok mk"
  shows "al_used s \<le> a \<and> al_limit s' \<le> a \<and> b \<le> al_limit s"
  using assms(1)
proof (cases rule: alloc_step.cases)
  case (step_phys len ro pm padded)
  then show ?thesis using phys_alloc_range[of os env c me len ro s s' pm padded] by (metis fst_conv snd_conv)
next
  case (step_virt rd wr ord alloc pm vm len est total padded)
  have v: "virt_alloc os env c rd wr ord me alloc ((fst (fst s), snd (fst s)), snd s) = Some ((fst s', snd s'), Inr (pm, vm))"
    using step_virt(2) by simp
  obtain w1 h1 where "phys_alloc os env c me total False s = Some (((w1, h1), snd s'), Inr pm)"
    by (rule virt_alloc_Inr[OF v]) (use step_virt(3-5) in auto)
  from phys_alloc_range[OF this step_virt(6)] step_virt(1) show ?thesis
    by (simp add: al_limit_def) (metis fst_conv snd_conv)
next
  case (step_mmio len base sz)
  then show ?thesis using alloc_mmio_range_range[OF step_mmio(3) assms(2)] by simp
qed

text \<open>\<^verbatim>\<open>PhysMemAllocator\<close> keeps the contract.\<close>

interpretation pma: bump_allocator
  "\<lambda>s r s'. mmio_range_ok mk \<and> alloc_step os env c mk me s r s'" al_limit al_used
  by unfold_locales
    (auto dest: alloc_step_frame alloc_step_range simp: al_frame_def al_le_def al_used_def al_limit_def word_le_nat_alt)

section \<open>Properties\<close>

lemma phm_get_below:
  assumes "wf_slots (gm_maps (al_guest_mem (snd s)))" "phm_get (gm_maps (al_guest_mem (snd s))) p = Some off"
  shows "unat p \<le> al_used s"
proof -
  obtain r where r: "(r, off) \<in> set (gm_maps (al_guest_mem (snd s)))" "backs (r, off) p"
    using assms phm_get_Some_iff by blast
  obtain l where "last_range (gm_maps (al_guest_mem (snd s))) = Some l" "snd r \<le> snd l"
    using last_range_upper[OF assms(1) r(1)] by auto
  then show ?thesis using r(2) by (auto simp: al_used_def last_memslot_range_def backs_def word_le_nat_alt)
qed

text \<open>
  C11: In any sequence of calls of \<^verbatim>\<open>phys_alloc\<close>, \<^verbatim>\<open>virt_alloc\<close> and \<^verbatim>\<open>alloc_mmio_range\<close>, some of which may fail, the ranges
  of guest-physical addresses handed out do not overlap: each lies below the ones before it, all below the
  limit at the start, and none starts below an address of a memslot of the guest.
\<close>

theorem allocations_disjoint:
  assumes "alloc_trace (alloc_step os env c mk me) s rs s'" and "mmio_range_ok mk"
    and "wf_slots (gm_maps (al_guest_mem (snd s)))"
  shows "sorted_wrt (\<lambda>x y. snd y \<le> fst x) rs \<and> (\<forall>r \<in> set rs. snd r \<le> al_limit s \<and>
    (\<forall>p off. phm_get (gm_maps (al_guest_mem (snd s))) p = Some off \<longrightarrow> unat p \<le> fst r))"
proof -
  have "(\<lambda>s r s'. mmio_range_ok mk \<and> alloc_step os env c mk me s r s') = alloc_step os env c mk me"
    using assms(2) by simp
  from pma.trace_disjoint[of mk os env c me, unfolded this, OF assms(1)]
  show ?thesis using phm_get_below[OF assms(3)] by (meson order_trans)
qed

lemma sum_res_unat: "sum_res xs acc = Inr t \<Longrightarrow> unat t = unat acc + sum_list (map unat xs)"
  by (induction xs arbitrary: acc) (auto simp: bind_res_Inr dest!: unat_chk_add)

lemma lay_out_nth:
  assumes "lay_out pa alloc = Inr ms"
  shows "length ms = length alloc \<and> (\<forall>i < length alloc.
    mm_virt_start (ms ! i) = va_virt_start (alloc ! i) \<and> mm_len (ms ! i) = va_len (alloc ! i) \<and>
    mm_prot (ms ! i) = va_prot (alloc ! i) \<and> pa_host_offset (mm_phys_start (ms ! i)) = pa_host_offset pa \<and>
    unat (pa_value (mm_phys_start (ms ! i))) = unat (pa_value pa) + sum_list (map (unat \<circ> va_len) (take i alloc)))"
  using assms
proof (induction alloc arbitrary: pa ms)
  case (Cons a as)
  obtain v ms' where v: "chk_add (pa_value pa) (va_len a) = Inr v" and l: "lay_out (pa\<lparr>pa_value := v\<rparr>) as = Inr ms'"
    and ms: "ms = \<lparr>mm_phys_start = pa, mm_virt_start = va_virt_start a, mm_len = va_len a, mm_prot = va_prot a\<rparr> # ms'"
    using Cons.prems by (auto simp: bind_res_Inr)
  show ?case using Cons.IH[OF l] unat_chk_add[OF v] by (auto simp: ms nth_Cons' less_Suc_eq_0_disj)
qed simp

lemma gm_map_memory_mappings: "snd (gm_map_memory rd wr ord gm ms w) = Inr vm \<Longrightarrow> vm_mappings vm = ms"
  by (auto simp: gm_map_memory_def map_memory_def bind_res_Inr split: sum.splits prod.splits)


section \<open>An example\<close>

text \<open>The simulated process when every system call in it returns 0.\<close>

definition sim_quiet :: "sim \<Rightarrow> bool" where
  "sim_quiet s \<longleftrightarrow> sim_status s = [] \<and> sim_in s = [] \<and> sim_ret s = 0"

lemma sim_syscall:
  assumes "sim_quiet s"
  shows "\<exists>s'. proc_syscall sim_os 1 sim_proc (syscall_args (pr_saved_regs sim_proc) xs) s = Some (s', Inr 0) \<and> sim_quiet s'"
proof -
  define r where "r = syscall_args (pr_saved_regs sim_proc) xs"
  define s1 where "s1 = s\<lparr>sim_regs := (sim_regs s)(7 := r)\<rparr>"
  have rip: "rip r = 0x400000" "rip (pr_saved_regs sim_proc) = 0x400000"
    by (simp_all add: r_def syscall_args_def prepare_syscall_def sim_proc_def sim0_def)
  have st: "sim_status s1 = []" "sim_status (sim_step 7 s1) = []"
    using assms by (simp_all add: s1_def sim_step_def Let_def sim_quiet_def)
  have set: "th_setregs sim_os \<lparr>tid = 7\<rparr> r s = Some (s1, Inr ())"
    by (simp add: th_setregs_def sim_os_def try_io_def s1_def)
  have regs: "sim_regs (sim_step 7 (sim_step 7 s1)) 7 = r\<lparr>rip := 0x400002, rax := 0\<rparr>"
    using assms by (simp add: s1_def sim_step_def Let_def rip sim_quiet_def)
  have get: "th_getregs sim_os \<lparr>tid = 7\<rparr> (sim_step 7 (sim_step 7 s1)) =
      Some (sim_step 7 (sim_step 7 s1), Inr (sim_regs (sim_step 7 (sim_step 7 s1)) 7))"
    by (simp add: th_getregs_def sim_os_def try_io_def)
  have q: "sim_quiet (sim_step 7 (sim_step 7 s1))"
    using assms by (simp add: s1_def sim_step_def Let_def sim_quiet_def)
  have "pr_owner sim_proc = Some 1" by (simp add: sim_proc_def)
  then show ?thesis
    using q
    by (simp add: proc_syscall_def r_def[symmetric] check_owner_def sim_main set sim_wait[OF st(1)] sim_wait[OF st(2)]
        get regs reg_ip_def rip chk_sub_def SYSCALL_SIZE_def assert_res_def syscall_ret_def ret_def)
qed

definition sim_region :: "kvm_userspace_memory_region codec" where
  "sim_region = \<lparr>cd_size = 32,
     cd_enc = (\<lambda>r. word_bytes 4 (mr_slot r) @ word_bytes 4 (mr_flags r) @ word_bytes 8 (mr_guest_phys_addr r) @
       word_bytes 8 (mr_memory_size r) @ word_bytes 8 (mr_userspace_addr r)),
     cd_dec = (\<lambda>b. \<lparr>mr_slot = field 0 4 b, mr_flags = field 4 4 b, mr_guest_phys_addr = field 8 8 b,
       mr_memory_size = field 16 8 b, mr_userspace_addr = field 24 8 b\<rparr>)\<rparr>"

lemma sim_te: "try_get_proc (hv_tracee sim_hv) = Inr sim_proc" "te_vm_fd (hv_tracee sim_hv) = 4" "hv_pid sim_hv = 7"
  by (simp_all add: try_get_proc_def sim_hv_def)

lemma sim_mmap:
  assumes "sim_quiet s"
  shows "\<exists>s'. alloc_mem_padded sim_os 1 sz len (s, sim_hv) =
      Some ((s', sim_hv), if len < sz then bail ''allocation is not sufficient for item'' else Inr \<lparr>hm_ptr = 0, hm_pid = 7, hm_size = sz\<rparr>) \<and> sim_quiet s'"
  using sim_syscall[OF assms, of "[9, 0, len, scast (3 :: 32 word), scast (0x21 :: 32 word), scast (- 1 :: 32 word), 0]"] assms
  by (auto simp: alloc_mem_padded_def te_mmap_def proc_mmap_def sim_te on_fst_def bind_io_def[of "on_fst _"] ret_def lift_res_def)

lemma sim_vm_ioctl:
  assumes "sim_quiet s"
  shows "\<exists>s'. vm_ioctl sim_os 1 (hv_tracee sim_hv) request arg s = Some (s', Inr 0) \<and> sim_quiet s'"
  using sim_syscall[OF assms, of "[16, scast (4 :: 32 word), request, arg]"]
  by (auto simp: vm_ioctl_def proc_ioctl_def sim_te ret_def)

lemma sim_get_maps:
  assumes "sim_quiet s"
  shows "\<exists>s'. hv_get_maps sim_os sim_env 1 (s, sim_hv) = Some ((s', sim_hv), Inr []) \<and> sim_quiet s'"
  using sim_vm_ioctl[OF assms, of KVM_CHECK_EXTENSION "scast (0 :: 32 word)"]
  by (auto simp: hv_get_maps_def on_fst_def te_get_maps_def te_check_extension_def try_io_def sim_env_def get_maps_def ret_def lift_res_def bind_io_def
      get_st_def)

lemma sim_vm_add_mem:
  assumes "sim_quiet s" "page_align len = Inr slot_len" "slot_len \<noteq> 0" "compute_host_offset 0 addr = Inr off"
  shows "\<exists>s'. vm_add_mem sim_os sim_env sim_region 1 1 addr len ro (s, sim_hv) =
    Some ((s', sim_hv), Inr \<lparr>pm_mem = \<lparr>hm_ptr = 0, hm_pid = 7, hm_size = 1\<rparr>, pm_ioctl_arg = \<lparr>hm_ptr = 0, hm_pid = 7, hm_size = 32\<rparr>,
      pm_guest_phys_addr = \<lparr>pa_value = addr, pa_host_offset = off\<rparr>\<rparr>) \<and> sim_quiet s'"
proof -
  have sz: "cd_size sim_region = 32" by (simp add: sim_region_def)
  obtain s1 where s1: "alloc_mem_padded sim_os 1 1 slot_len (s, sim_hv) =
      Some ((s1, sim_hv), Inr \<lparr>hm_ptr = 0, hm_pid = 7, hm_size = 1\<rparr>)" "sim_quiet s1"
    using sim_mmap[OF assms(1), of 1 slot_len] assms(3) by auto
  obtain s2 where s2: "hv_get_maps sim_os sim_env 1 (s1, sim_hv) = Some ((s2, sim_hv), Inr [])" "sim_quiet s2"
    using sim_get_maps[OF s1(2)] by blast
  obtain s3 where s3: "alloc_mem sim_os 1 32 (s2, sim_hv) = Some ((s3, sim_hv), Inr \<lparr>hm_ptr = 0, hm_pid = 7, hm_size = 32\<rparr>)" "sim_quiet s3"
    using sim_mmap[OF s2(2), of 32 32] by (auto simp: alloc_mem_def)
  define arg where "arg = memory_region 0 ro addr slot_len 0"
  obtain s4 where s4: "hv_write sim_os sim_region \<lparr>hm_ptr = 0, hm_pid = 7, hm_size = 32\<rparr> arg s3 = Some (s4, Inr ())" "sim_quiet s4"
    using s3(2) by (simp add: hv_write_def process_write_def sim_os_def sim_quiet_def)
  obtain s5 where s5: "vm_ioctl sim_os 1 (hv_tracee sim_hv) (KVM_SET_USER_MEMORY_REGION 32) 0 s4 = Some (s5, Inr 0)" "sim_quiet s5"
    using sim_vm_ioctl[OF s4(2)] by blast
  show ?thesis
    using s5(2)
    by (simp add: vm_add_mem_def assms(2,4) s1(1)[simplified] s2(1)[simplified] s3(1)[simplified] on_err_def sz arg_def[symmetric]
        on_fst_def s4(1) vm_ioctl_with_ref_def s5(1)[simplified] bind_io_def[of "on_fst _"] Let_def ret_def)
qed

definition sim_reqs :: "virt_alloc_req list" where
  "sim_reqs = [\<lparr>va_virt_start = 0x7fe000, va_virt_offset = 0, va_len = 0x1000, va_prot = 5\<rparr>,
     \<lparr>va_virt_start = 0x7ff000, va_virt_offset = 0, va_len = 0x2000, va_prot = 3\<rparr>]"

definition sim_allocator :: phys_mem_allocator where
  "sim_allocator = \<lparr>al_guest_mem = \<lparr>gm_maps = ex_slots, gm_regs = zero_regs, gm_pml4 = \<lparr>pa_value = 0x1000, pa_host_offset = 0x10000\<rparr>\<rparr>,
     al_next_allocation = 0x110000\<rparr>"

definition sim_wr :: "'w writer" where
  "sim_wr iov w = (w, Inr (of_nat (length iov) * PAGE_SIZE))"

lemma sim_sizes: "sum_res (map va_len sim_reqs) 0 = Inr 0x3000" "estimate_page_table_size 0x3000 = Inr 0x4000"
    "chk_add 0x3000 0x4000 = (Inr 0x7000 :: usize res)" "page_align 0x7000 = Inr 0x7000"
    "compute_host_offset 0 0x109000 = Inr (- 0x109000)"
  by code_simp+

lemma sim_map_run:
  "case lay_out \<lparr>pa_value = 0x109000, pa_host_offset = - 0x109000\<rparr> sim_reqs of Inl e \<Rightarrow> False
   | Inr ms \<Rightarrow> is_ok (snd (gm_map_memory (\<lambda>_. ex_rd ex_mem) sim_wr id (al_guest_mem sim_allocator) ms (w :: 'w)))"
  by code_simp

lemma sim_next: "next_addr 0x7000 (w, sim_allocator) = Some ((w, sim_allocator\<lparr>al_next_allocation := 0x109000\<rparr>), Inr 0x109000)"
  by (simp add: next_addr_def sim_allocator_def checked_sub_def last_memslot_range_def last_range_def ex_slots_def
      lift_res_def upd_snd_def ret_def)

definition sim_start :: "(sim \<times> hypervisor) \<times> phys_mem_allocator" where
  "sim_start = ((sim0\<lparr>sim_ret := 0\<rparr>, sim_hv), sim_allocator)"

lemma sim_phys_alloc:
  "\<exists>s' pm. phys_alloc sim_os sim_env sim_region 1 0x7000 False sim_start =
      Some (((s', sim_hv), sim_allocator\<lparr>al_next_allocation := 0x109000\<rparr>), Inr pm) \<and>
    pm_guest_phys_addr pm = \<lparr>pa_value = 0x109000, pa_host_offset = - 0x109000\<rparr>"
proof -
  have q: "sim_quiet (sim0\<lparr>sim_ret := 0\<rparr>)" by (simp add: sim_quiet_def sim0_def)
  obtain s' pm where "vm_add_mem sim_os sim_env sim_region 1 1 0x109000 0x7000 False (sim0\<lparr>sim_ret := 0\<rparr>, sim_hv) = Some ((s', sim_hv), Inr pm)"
    "pm_guest_phys_addr pm = \<lparr>pa_value = 0x109000, pa_host_offset = - 0x109000\<rparr>"
    using sim_vm_add_mem[OF q sim_sizes(4) _ sim_sizes(5), of False] by auto
  then show ?thesis
    by (auto simp: phys_alloc_def sim_start_def Let_def sim_sizes sim_next attempt_def on_fst_def lift_res_def ret_def)
qed

lemma sim_virt_alloc:
  "\<exists>s' pm vm. virt_alloc sim_os sim_env sim_region (\<lambda>_. ex_rd ex_mem) sim_wr id 1 sim_reqs sim_start =
      Some (((s', sim_hv), sim_allocator\<lparr>al_next_allocation := 0x109000\<rparr>), Inr (pm, vm)) \<and>
    pm_guest_phys_addr pm = \<lparr>pa_value = 0x109000, pa_host_offset = - 0x109000\<rparr>"
proof -
  obtain s1 pm where ph: "phys_alloc sim_os sim_env sim_region 1 0x7000 False sim_start =
      Some (((s1, sim_hv), sim_allocator\<lparr>al_next_allocation := 0x109000\<rparr>), Inr pm)"
    and pm: "pm_guest_phys_addr pm = \<lparr>pa_value = 0x109000, pa_host_offset = - 0x109000\<rparr>"
    using sim_phys_alloc by blast
  obtain ms where ms: "lay_out \<lparr>pa_value = 0x109000, pa_host_offset = - 0x109000\<rparr> sim_reqs = Inr ms"
    and ok: "is_ok (snd (gm_map_memory (\<lambda>_. ex_rd ex_mem) sim_wr id (al_guest_mem sim_allocator) ms s1))"
    using sim_map_run[of s1] by (auto split: sum.splits)
  obtain s' vm where "gm_map_memory (\<lambda>_. ex_rd ex_mem) sim_wr id (al_guest_mem sim_allocator) ms s1 = (s', Inr vm)"
    using ok by (cases "gm_map_memory (\<lambda>_. ex_rd ex_mem) sim_wr id (al_guest_mem sim_allocator) ms s1"; cases "snd (gm_map_memory (\<lambda>_. ex_rd ex_mem) sim_wr id (al_guest_mem sim_allocator) ms s1)") auto
  then show ?thesis
    by (simp add: virt_alloc_def sim_sizes ph[simplified] on_err_def pm ms on_fst_def bind_io_def[of "on_fst _"] ret_def)
qed


definition sim_mmio_new :: "u64 \<Rightarrow> u64 \<Rightarrow> (u64 \<times> u64) res" where
  "sim_mmio_new a l =
     (if l = 0 then bail ''InvalidSize''
      else case checked_add a (l - 1) of None \<Rightarrow> bail ''Overflow'' | Some _ \<Rightarrow> Inr (a, l))"

lemma sim_mmio_ok: "mmio_range_ok sim_mmio_new"
  by (auto simp: mmio_range_ok_def sim_mmio_new_def bail_def split: option.splits if_splits)

lemma sim_mmio: "alloc_mmio_range sim_mmio_new 0x1000 (w, sim_allocator\<lparr>al_next_allocation := 0x109000\<rparr>) =
    Some ((w, sim_allocator\<lparr>al_next_allocation := 0x108000\<rparr>), Inr (0x108000, 0x1000))"
  by (simp add: alloc_mmio_range_def next_addr_def sim_allocator_def checked_sub_def last_memslot_range_def last_range_def
      ex_slots_def lift_res_def upd_snd_def ret_def sim_mmio_new_def checked_add_def)

lemma sim_trace:
  "\<exists>s'. alloc_trace (alloc_step sim_os sim_env sim_region sim_mmio_new 1) sim_start [(0x109000, 0x110000), (0x108000, 0x109000)] s'"
proof -
  obtain s1 pm vm where v: "virt_alloc sim_os sim_env sim_region (\<lambda>_. ex_rd ex_mem) sim_wr id 1 sim_reqs sim_start =
      Some (((s1, sim_hv), sim_allocator\<lparr>al_next_allocation := 0x109000\<rparr>), Inr (pm, vm))"
    and pm: "pm_guest_phys_addr pm = \<lparr>pa_value = 0x109000, pa_host_offset = - 0x109000\<rparr>"
    using sim_virt_alloc by blast
  have r: "pm_range pm 0x7000 = (0x109000, 0x110000)" by (simp add: pm_range_def pm)
  have "alloc_step sim_os sim_env sim_region sim_mmio_new 1
      ((s1, sim_hv), sim_allocator\<lparr>al_next_allocation := 0x109000\<rparr>) (Some (0x108000, 0x109000))
      ((s1, sim_hv), sim_allocator\<lparr>al_next_allocation := 0x108000\<rparr>)"
    using alloc_step.step_mmio[OF sim_mmio] by simp
  then show ?thesis
    using alloc_step.step_virt[OF v sim_sizes(1-4)] unfolding r
    by (intro exI) (rule trace_alloc, assumption, rule trace_alloc, assumption, rule trace_start)
qed

theorem allocations_disjoint_witness:
  "\<exists>rs s'. alloc_trace (alloc_step sim_os sim_env sim_region sim_mmio_new 1) sim_start rs s' \<and> length rs = 2 \<and>
     snd (rs ! 1) \<le> fst (rs ! 0) \<and> 0xFF000 \<le> fst (rs ! 1)"
proof -
  obtain rs s' where t: "alloc_trace (alloc_step sim_os sim_env sim_region sim_mmio_new 1) sim_start rs s'" and l: "length rs = 2"
    using sim_trace by (metis length_Cons list.size(3) numeral_2_eq_2)
  have ok: "wf_slots (gm_maps (al_guest_mem (snd sim_start)))"
    by (simp add: sim_start_def sim_allocator_def ex_slots_def wf_slots_def)
  have p: "phm_get (gm_maps (al_guest_mem (snd sim_start))) 0xFF000 = Some 0x10000"
    by (simp add: sim_start_def sim_allocator_def) code_simp
  note d = allocations_disjoint[OF t sim_mmio_ok ok]
  have "snd (rs ! 1) \<le> fst (rs ! 0)" using d l by (simp add: sorted_wrt_iff_nth_less)
  moreover have "unat (0xFF000 :: usize) \<le> fst (rs ! 1)" using d l p by (metis nth_mem one_less_numeral_iff semiring_norm(76))
  ultimately show ?thesis using t l by (intro exI[of _ rs] exI[of _ s']) simp
qed

end
