(* ===== verification/Virtio.thy ===== *)
theory Virtio
  imports Phys_Alloc
begin

text \<open>
  \<^verbatim>\<open>src/devices/virtio/mod.rs\<close>: what the virtio devices share. A device notifies the driver of used buffers through
  an interrupt, the status of which it shares with the code that resends interrupts that were lost.
  The clock and the event descriptor of the interrupt are the record \<open>irq_env\<close>; an instant is a number
  of nanoseconds. The mutex around the handler is always free when it is taken and is left out, as are
  messages to the log.
\<close>

section \<open>Constants\<close>

definition VIRTIO_F_RING_EVENT_IDX :: nat where "VIRTIO_F_RING_EVENT_IDX = 29"
definition VIRTIO_F_VERSION_1 :: nat where "VIRTIO_F_VERSION_1 = 32"
definition VIRTIO_F_IN_ORDER :: nat where "VIRTIO_F_IN_ORDER = 35"
definition VIRTIO_MMIO_INT_VRING :: u8 where "VIRTIO_MMIO_INT_VRING = 1"
definition VIRTIO_MMIO_QUEUE_NOTIFY_OFFSET :: u64 where "VIRTIO_MMIO_QUEUE_NOTIFY_OFFSET = 0x50"
definition QUEUE_MAX_SIZE :: u16 where "QUEUE_MAX_SIZE = 256"
definition INTERRUPT_ACK_TIMEOUT :: nat where "INTERRUPT_ACK_TIMEOUT = 1000000"
definition RESEND_RATELIMIT :: nat where "RESEND_RATELIMIT = 0"

section \<open>Parts of a state\<close>

text \<open>An operation on a part of the state beside the world.\<close>

definition zoom :: "('s \<Rightarrow> 't) \<Rightarrow> ('t \<Rightarrow> 's \<Rightarrow> 's) \<Rightarrow> ('w \<times> 't, 'a) io \<Rightarrow> ('w \<times> 's, 'a) io" where
  "zoom get upd m ws =
     map_option (\<lambda>((w', t), r). ((w', upd t (snd ws)), r)) (m (fst ws, get (snd ws)))"

lemma zoom_Some [io_simps]:
  "zoom get upd m (w, s) = Some ((w', s'), r) \<longleftrightarrow> (\<exists>t. m (w, get s) = Some ((w', t), r) \<and> s' = upd t s)"
  by (auto simp: zoom_def)

lemma zoom_run: "m (w, get s) = Some ((w', t), r) \<Longrightarrow> zoom get upd m (w, s) = Some ((w', upd t s), r)"
  by (simp add: zoom_def)

section \<open>Interrupts\<close>

record irq_state =
  irq_status :: u8
  last_sent :: nat
  resent :: nat
  total_sent :: usize
  total_ack_timeouted :: usize

record 'w irq_env =
  ie_now :: "('w, nat) io"
  ie_irqfd_write :: "('w, unit) io"

definition irq_ack_new :: "'w irq_env \<Rightarrow> u8 \<Rightarrow> ('w, irq_state) io" where
  "irq_ack_new env status =
     bind_io (ie_now env) (\<lambda>a.
     bind_io (ie_now env) (\<lambda>b.
     ret \<lparr>irq_status = status, last_sent = a, resent = b, total_sent = 0, total_ack_timeouted = 0\<rparr>))"

definition irq_sent :: "'w irq_env \<Rightarrow> ('w \<times> irq_state, unit) io" where
  "irq_sent env =
     bind_io get_st (\<lambda>(_, h).
     bind_io (lift_res (chk_add (total_sent h) 1)) (\<lambda>n.
     bind_io (upd_snd (\<lambda>h. h\<lparr>total_sent := n\<rparr>)) (\<lambda>_.
     bind_io (on_fst (ie_now env)) (\<lambda>t.
     upd_snd (\<lambda>h. h\<lparr>last_sent := t\<rparr>)))))"

definition handle_timeouts :: "'w irq_env \<Rightarrow> ('w \<times> irq_state, unit) io" where
  "handle_timeouts env =
     bind_io (on_fst (ie_now env)) (\<lambda>t1.
     bind_io get_st (\<lambda>(_, h).
     bind_io (on_fst (ie_now env)) (\<lambda>t2.
     let passed = t1 - last_sent h;
         unacked = (irq_status h \<noteq> 0);
         ratelimit = (t2 - resent h \<le> RESEND_RATELIMIT) in
     if passed \<ge> INTERRUPT_ACK_TIMEOUT \<and> unacked \<and> \<not> ratelimit then
       bind_io (on_fst (attempt (ie_irqfd_write env))) (\<lambda>r.
       case r of
         Inl _ \<Rightarrow> ret ()
       | Inr _ \<Rightarrow>
           bind_io (lift_res (chk_add (total_ack_timeouted h) 1)) (\<lambda>n.
           bind_io (upd_snd (\<lambda>h. h\<lparr>total_ack_timeouted := n\<rparr>)) (\<lambda>_.
           bind_io (on_fst (ie_now env)) (\<lambda>t.
           upd_snd (\<lambda>h. h\<lparr>resent := t\<rparr>)))))
     else ret ())))"

text \<open>The index of the queue only goes to the log: all queues share one interrupt.\<close>

definition signal_used_queue :: "'w irq_env \<Rightarrow> ('w \<times> irq_state, unit) io" where
  "signal_used_queue env =
     bind_io (upd_snd (\<lambda>h. h\<lparr>irq_status := irq_status h OR VIRTIO_MMIO_INT_VRING\<rparr>)) (\<lambda>_.
     bind_io (on_fst (attempt (ie_irqfd_write env))) (\<lambda>r.
     case r of Inl _ \<Rightarrow> ret () | Inr _ \<Rightarrow> irq_sent env))"

section \<open>Notification of the device\<close>

record mmio_config =
  mc_range :: "u64 \<times> u64"
  mc_gsi :: u32

section \<open>The queue loop\<close>

text \<open>
  Both devices process a queue in the same way: notifications are disabled, all available chains are
  taken and processed, and the loop is left if no chain has become available when notifications are
  enabled again. \<^verbatim>\<open>virtio_queue\<close> is a crate; its operations are the record \<open>queue_ops\<close>, where \<open>'c\<close> is its type
  of descriptor chains and the queue and the memory of the guest are part of the world.
\<close>

record ('w, 'c) queue_ops =
  q_disable_notification :: "('w, unit) io"
  q_enable_notification :: "('w, bool) io"
  q_next :: "('w, 'c option) io"
  q_head_index :: "'c \<Rightarrow> u16"
  q_add_used :: "u16 \<Rightarrow> u32 \<Rightarrow> ('w, unit) io"
  q_needs_notification :: "('w, bool) io"

partial_function (option) drain ::
  "('w, 'c) queue_ops \<Rightarrow> ('c \<Rightarrow> ('w \<times> 's, unit) io) \<Rightarrow> ('w \<times> 's) \<Rightarrow> (('w \<times> 's) \<times> unit res) option" where
  "drain q f s =
     bind_io (on_fst (q_next q)) (\<lambda>c s1.
       case c of
         None \<Rightarrow> ret () s1
       | Some chain \<Rightarrow> bind_io (f chain) (\<lambda>_ s2. drain q f s2) s1) s"

partial_function (option) queue_loop ::
  "('w, 'c) queue_ops \<Rightarrow> ('c \<Rightarrow> ('w \<times> 's, unit) io) \<Rightarrow> ('w \<times> 's) \<Rightarrow> (('w \<times> 's) \<times> unit res) option" where
  "queue_loop q f s =
     bind_io (on_fst (q_disable_notification q)) (\<lambda>_ s1.
     bind_io (drain q f) (\<lambda>_ s2.
     bind_io (on_fst (q_enable_notification q)) (\<lambda>more s3.
     if more then queue_loop q f s3 else ret () s3) s2) s1) s"

text \<open>The end of the processing of a chain: it is put into the used ring, and the driver is told if it wants to be.\<close>

definition finish_chain :: "('w, 'c) queue_ops \<Rightarrow> 'w irq_env \<Rightarrow> 'c \<Rightarrow> u32 \<Rightarrow> ('w \<times> irq_state, unit) io" where
  "finish_chain q env chain len =
     bind_io (on_fst (q_add_used q (q_head_index q chain) len)) (\<lambda>_.
     bind_io (on_fst (q_needs_notification q)) (\<lambda>b.
     if b then signal_used_queue env else ret ()))"

section \<open>What the queue promises\<close>

text \<open>
  \<open>queue_ok q avail used\<close> is the documented behaviour of a valid queue while the driver adds no chains to it:
  \<open>avail\<close> are the chains the driver has made available and the device has not taken, \<open>used\<close> the entries of
  the used ring. \<open>takes ok avail out emit left f\<close>: as long as \<open>left\<close> is positive, processing a chain that is \<open>ok\<close> with \<open>f\<close>
  succeeds, adds \<open>emit\<close> of the chain to the output \<open>out\<close>, and decreases \<open>left\<close> by at most one.
\<close>

definition queue_ok :: "('w, 'c) queue_ops \<Rightarrow> ('w \<Rightarrow> 'c list) \<Rightarrow> ('w \<Rightarrow> (u16 \<times> u32) list) \<Rightarrow> bool" where
  "queue_ok q avail used \<longleftrightarrow>
     (\<forall>w. \<exists>w'. q_next q w = Some (w', Inr (case avail w of [] \<Rightarrow> None | c # _ \<Rightarrow> Some c)) \<and>
        avail w' = tl (avail w) \<and> used w' = used w) \<and>
     (\<forall>w. \<exists>w'. q_disable_notification q w = Some (w', Inr ()) \<and> avail w' = avail w \<and> used w' = used w) \<and>
     (\<forall>w. \<exists>w'. q_enable_notification q w = Some (w', Inr (avail w \<noteq> [])) \<and> avail w' = avail w \<and> used w' = used w) \<and>
     (\<forall>w. \<exists>w' b. q_needs_notification q w = Some (w', Inr b) \<and> avail w' = avail w \<and> used w' = used w) \<and>
     (\<forall>h n w. \<exists>w'. q_add_used q h n w = Some (w', Inr ()) \<and> avail w' = avail w \<and> used w' = used w @ [(h, n)])"

lemma queue_okD:
  assumes "queue_ok q avail used"
  shows "avail w = [] \<Longrightarrow> \<exists>w'. q_next q w = Some (w', Inr None) \<and> avail w' = [] \<and> used w' = used w"
    and "avail w = c # cs \<Longrightarrow> \<exists>w'. q_next q w = Some (w', Inr (Some c)) \<and> avail w' = cs \<and> used w' = used w"
    and "\<exists>w'. q_disable_notification q w = Some (w', Inr ()) \<and> avail w' = avail w \<and> used w' = used w"
    and "\<exists>w'. q_enable_notification q w = Some (w', Inr (avail w \<noteq> [])) \<and> avail w' = avail w \<and> used w' = used w"
    and "\<exists>w' b. q_needs_notification q w = Some (w', Inr b) \<and> avail w' = avail w \<and> used w' = used w"
    and "\<exists>w'. q_add_used q h n w = Some (w', Inr ()) \<and> avail w' = avail w \<and> used w' = used w @ [(h, n)]"
  using assms unfolding queue_ok_def by (metis list.case list.sel)+

definition takes ::
  "('c \<Rightarrow> bool) \<Rightarrow> ('w \<Rightarrow> 'c list) \<Rightarrow> ('w \<Rightarrow> 'o list) \<Rightarrow> ('c \<Rightarrow> 'o list) \<Rightarrow> ('s \<Rightarrow> nat)
    \<Rightarrow> ('c \<Rightarrow> ('w \<times> 's, unit) io) \<Rightarrow> bool" where
  "takes ok avail out emit left f \<longleftrightarrow>
     (\<forall>c w s. ok c \<longrightarrow> 0 < left s \<longrightarrow> (\<exists>w' s'. f c (w, s) = Some ((w', s'), Inr ()) \<and> left s \<le> Suc (left s') \<and>
        avail w' = avail w \<and> out w' = out w @ emit c))"

definition queue_keeps :: "('w, 'c) queue_ops \<Rightarrow> ('w \<Rightarrow> 'o) \<Rightarrow> bool" where
  "queue_keeps q out \<longleftrightarrow>
     (\<forall>w w' r. q_next q w = Some (w', r) \<longrightarrow> out w' = out w) \<and>
     (\<forall>w w' r. q_disable_notification q w = Some (w', r) \<longrightarrow> out w' = out w) \<and>
     (\<forall>w w' r. q_enable_notification q w = Some (w', r) \<longrightarrow> out w' = out w)"

lemma queue_keeps_used:
  assumes "queue_ok q avail used"
  shows "queue_keeps q (\<lambda>w. map fst (used w))"
proof -
  have "used w' = used w" if "q_next q w = Some (w', r)" for w w' r
    using queue_okD(1,2)[OF assms, of w] that by (cases "avail w") auto
  moreover have "used w' = used w" if "q_disable_notification q w = Some (w', r)" for w w' r
    using queue_okD(3)[OF assms, of w] that by auto
  moreover have "used w' = used w" if "q_enable_notification q w = Some (w', r)" for w w' r
    using queue_okD(4)[OF assms, of w] that by auto
  ultimately show ?thesis by (simp add: queue_keeps_def)
qed

lemma drain_all:
  assumes "queue_ok q avail used" "takes ok avail out emit left f" "queue_keeps q out" "length (avail w) \<le> left s"
    and "list_all ok (avail w)"
  shows "\<exists>w' s'. drain q f (w, s) = Some ((w', s'), Inr ()) \<and> avail w' = [] \<and>
    out w' = out w @ concat (map emit (avail w))"
  using assms(4,5)
proof (induction "avail w" arbitrary: w s)
  case Nil
  obtain w' where n: "q_next q w = Some (w', Inr None)" "avail w' = []"
    using queue_okD(1)[OF assms(1) Nil(1)[symmetric]] by auto
  then have "drain q f (w, s) = Some ((w', s), Inr ())"
    by (subst drain.simps) (simp add: bind_io_def on_fst_def ret_def)
  moreover have "out w' = out w" using n(1) assms(3) by (simp add: queue_keeps_def)
  ultimately show ?case using n Nil by auto
next
  case (Cons c cs)
  obtain w1 where n: "q_next q w = Some (w1, Inr (Some c))" "avail w1 = cs"
    using queue_okD(2)[OF assms(1) Cons(2)[symmetric]] by auto
  have o1: "out w1 = out w" using n(1) assms(3) by (simp add: queue_keeps_def)
  have "0 < left s" "ok c" "list_all ok cs" using Cons(2)[symmetric] Cons(3,4) by auto
  then obtain w2 s2 where f: "f c (w1, s) = Some ((w2, s2), Inr ())" "left s \<le> Suc (left s2)" "avail w2 = cs"
      "out w2 = out w1 @ emit c"
    using assms(2) n(2) unfolding takes_def by blast
  have step: "drain q f (w, s) = drain q f (w2, s2)"
    by (subst drain.simps) (simp add: bind_io_def on_fst_def n f)
  have "length (avail w2) \<le> left s2" using f(2,3) Cons(2)[symmetric] Cons(3) by auto
  from Cons(1)[OF f(3)[symmetric] this] \<open>list_all ok cs\<close> show ?case using f o1 Cons(2)[symmetric] by (auto simp: step)
qed

lemma queue_loop_all:
  assumes "queue_ok q avail used" "takes ok avail out emit left f" "queue_keeps q out" "length (avail w) \<le> left s"
    and "list_all ok (avail w)"
  shows "\<exists>w' s'. queue_loop q f (w, s) = Some ((w', s'), Inr ()) \<and> avail w' = [] \<and>
    out w' = out w @ concat (map emit (avail w))"
proof -
  obtain w1 where d: "q_disable_notification q w = Some (w1, Inr ())" "avail w1 = avail w"
    using queue_okD(3)[OF assms(1)] by blast
  have o1: "out w1 = out w" using d(1) assms(3) by (simp add: queue_keeps_def)
  obtain w2 s2 where dr: "drain q f (w1, s) = Some ((w2, s2), Inr ())" "avail w2 = []"
      "out w2 = out w @ concat (map emit (avail w))"
    using drain_all[OF assms(1-3), of w1 s] assms(4,5) d(2) o1 by auto
  obtain w3 where e: "q_enable_notification q w2 = Some (w3, Inr False)" "avail w3 = []"
    using queue_okD(4)[OF assms(1), of w2] dr(2) by auto
  have o3: "out w3 = out w2" using e(1) assms(3) by (simp add: queue_keeps_def)
  have "queue_loop q f (w, s) = Some ((w3, s2), Inr ())"
    by (subst queue_loop.simps) (simp add: bind_io_def on_fst_def ret_def d dr e)
  then show ?thesis using dr e o3 by auto
qed

text \<open>
  The clock and the interrupt leave what \<open>obs\<close> observes of the world as it is. Telling the driver then
  succeeds as long as the counter of interrupts does not overflow.
\<close>

definition irq_ok :: "'w irq_env \<Rightarrow> ('w \<Rightarrow> 'o) \<Rightarrow> bool" where
  "irq_ok env obs \<longleftrightarrow>
     (\<forall>w. \<exists>w' t. ie_now env w = Some (w', Inr t) \<and> obs w' = obs w) \<and>
     (\<forall>w. \<exists>w' r. ie_irqfd_write env w = Some (w', r) \<and> \<not> panics r \<and> obs w' = obs w)"

definition irqs_left :: "irq_state \<Rightarrow> nat" where
  "irqs_left h = 2 ^ 64 - 1 - unat (total_sent h)"

lemma irqs_left_step:
  assumes "0 < irqs_left h"
  shows "chk_add (total_sent h) 1 = Inr (total_sent h + 1)"
    and "irqs_left h \<le> Suc (irqs_left (h\<lparr>total_sent := total_sent h + 1, last_sent := t\<rparr>))"
proof -
  have b: "unat (total_sent h) + 1 < 2 ^ 64" using assms by (simp add: irqs_left_def)
  then show "chk_add (total_sent h) 1 = Inr (total_sent h + 1)" by (simp add: chk_add_alt)
  have "unat (total_sent h + 1) = unat (total_sent h) + 1" using b by (simp add: unat_word_ariths)
  then show "irqs_left h \<le> Suc (irqs_left (h\<lparr>total_sent := total_sent h + 1, last_sent := t\<rparr>))"
    by (simp add: irqs_left_def)
qed

lemma irqs_left_status [simp]: "irqs_left (h\<lparr>irq_status := x\<rparr>) = irqs_left h"
  by (simp add: irqs_left_def)

lemma signal_used_queue_run:
  assumes "irq_ok env obs" "0 < irqs_left h"
  shows "\<exists>w' h'. signal_used_queue env (w, h) = Some ((w', h'), Inr ()) \<and> obs w' = obs w \<and>
    irqs_left h \<le> Suc (irqs_left h') \<and> irq_status h' = irq_status h OR 1"
proof -
  let ?h1 = "h\<lparr>irq_status := irq_status h OR VIRTIO_MMIO_INT_VRING\<rparr>"
  obtain w1 r where r: "ie_irqfd_write env w = Some (w1, r)" "\<not> panics r" "obs w1 = obs w"
    using assms(1) unfolding irq_ok_def by blast
  obtain w2 t where t: "ie_now env w1 = Some (w2, Inr t)" "obs w2 = obs w1"
    using assms(1) unfolding irq_ok_def by blast
  show ?thesis
  proof (cases r)
    case (Inl e)
    then have "signal_used_queue env (w, h) = Some ((w1, ?h1), Inr ())"
      using r(2) by (cases e) (simp_all add: signal_used_queue_def bind_io_def on_fst_def attempt_def upd_snd_def r(1) ret_def)
    with r show ?thesis by (auto simp: VIRTIO_MMIO_INT_VRING_def)
  next
    case (Inr u)
    have l: "0 < irqs_left ?h1" using assms(2) by simp
    have "signal_used_queue env (w, h) = Some ((w2, ?h1\<lparr>total_sent := total_sent ?h1 + 1, last_sent := t\<rparr>), Inr ())"
      using irqs_left_step(1)[OF l]
      by (simp add: signal_used_queue_def irq_sent_def bind_io_def on_fst_def attempt_def upd_snd_def get_st_def lift_res_def
          r(1) t Inr)
    then show ?thesis using r t irqs_left_step(2)[OF l, of t] by (auto simp: VIRTIO_MMIO_INT_VRING_def)
  qed
qed

lemma finish_chain_run:
  assumes "queue_ok q avail used" "irq_ok env (\<lambda>w. (avail w, used w))" "0 < irqs_left h"
  shows "\<exists>w' h'. finish_chain q env c n (w, h) = Some ((w', h'), Inr ()) \<and> irqs_left h \<le> Suc (irqs_left h') \<and>
    avail w' = avail w \<and> used w' = used w @ [(q_head_index q c, n)]"
proof -
  obtain w1 where a: "q_add_used q (q_head_index q c) n w = Some (w1, Inr ())" "avail w1 = avail w"
      "used w1 = used w @ [(q_head_index q c, n)]"
    using queue_okD(6)[OF assms(1)] by blast
  obtain w2 b where b: "q_needs_notification q w1 = Some (w2, Inr b)" "avail w2 = avail w1" "used w2 = used w1"
    using queue_okD(5)[OF assms(1)] by blast
  obtain w3 h3 where s: "signal_used_queue env (w2, h) = Some ((w3, h3), Inr ())" "irqs_left h \<le> Suc (irqs_left h3)"
      "avail w3 = avail w2" "used w3 = used w2"
    using signal_used_queue_run[OF assms(2,3), of w2] by auto
  have "finish_chain q env c n (w, h) = (if b then signal_used_queue env (w2, h) else ret () (w2, h))"
    by (simp add: finish_chain_def bind_io_def on_fst_def a(1) b(1))
  then show ?thesis using a b s by (cases b) (auto simp: ret_def)
qed

end
