(* ===== verification/Ioregion.thy ===== *)
theory Ioregion
  imports Fd_Transfer Virtio
begin

text \<open>
  The ways in which the guest notifies a device: \<^verbatim>\<open>src/kvm/hypervisor/ioeventfd.rs\<close>, \<^verbatim>\<open>ioregionfd.rs\<close>,
  \<^verbatim>\<open>userspaceioeventfd.rs\<close> and \<^verbatim>\<open>ioevent.rs\<close>, with the wire protocol of \<^verbatim>\<open>src/kvm/kvm_ioregionfd.rs\<close>. An event descriptor is
  the number of the file descriptor it owns; dropping it closes the descriptor.
\<close>

section \<open>ioeventfd\<close>

record kvm_ioeventfd_data =
  kie_datamatch :: u64
  kie_addr :: u64
  kie_len :: u32
  kie_fd :: "32 word"
  kie_flags :: u32

definition kvm_ioeventfd_flag_nr_datamatch :: nat where "kvm_ioeventfd_flag_nr_datamatch = 0"
definition kvm_ioeventfd_flag_nr_deassign :: nat where "kvm_ioeventfd_flag_nr_deassign = 2"

definition kvm_ioeventfd :: "raw_fd \<Rightarrow> u64 \<Rightarrow> u32 \<Rightarrow> u64 option \<Rightarrow> kvm_ioeventfd_data" where
  "kvm_ioeventfd hv_eventfd guest_addr len datamatch =
     (let (flags, datam) =
        (case datamatch of
           None \<Rightarrow> (0, 0)
         | Some data \<Rightarrow> (push_bit kvm_ioeventfd_flag_nr_datamatch 1, data)) in
      \<lparr>kie_datamatch = datam, kie_addr = guest_addr, kie_len = len, kie_fd = hv_eventfd, kie_flags = flags\<rparr>)"

record io_event_fd =
  ief_fd :: raw_fd
  ief_hv_eventfd :: raw_fd
  ief_hv_mem :: hv_mem
  ief_guest_addr :: u64
  ief_len :: u32
  ief_datamatch :: "u64 option"

text \<open>The arguments that all operations on the hypervisor share.\<close>

record 'w hv_env =
  he_os :: "'w os"
  he_le :: "'w lenv"
  he_iovec :: "libc_iovec codec"
  he_msghdr :: "libc_msghdr codec"
  he_me :: thread_id

definition he_transfer_one :: "'w hv_env \<Rightarrow> raw_fd \<Rightarrow> ('w \<times> hypervisor, raw_fd) io" where
  "he_transfer_one e fd = transfer_one (he_os e) (he_le e) (he_iovec e) (he_msghdr e) (he_me e) fd"

definition fd_drop :: "'w hv_env \<Rightarrow> raw_fd \<Rightarrow> ('w, unit) io" where
  "fd_drop e fd = ignore_io (le_close (he_le e) fd)"

definition vm_request ::
  "'w hv_env \<Rightarrow> 'a codec \<Rightarrow> u64 \<Rightarrow> string \<Rightarrow> string \<Rightarrow> hv_mem \<Rightarrow> 'a \<Rightarrow> ('w \<times> hypervisor, unit) io" where
  "vm_request e c request inj_msg ret_msg mem v =
     bind_io (on_fst (hv_write (he_os e) c mem v)) (\<lambda>_.
     bind_io get_st (\<lambda>(_, h).
     bind_io (on_fst (try_io (vm_ioctl_with_ref (he_os e) (he_me e) (hv_tracee h) request mem) inj_msg)) (\<lambda>r.
     if r \<noteq> 0 then lift_res (bail ret_msg) else ret ())))"

definition io_event_fd_new ::
  "'w hv_env \<Rightarrow> kvm_ioeventfd_data codec \<Rightarrow> u64 \<Rightarrow> u32 \<Rightarrow> u64 option \<Rightarrow> ('w \<times> hypervisor, io_event_fd) io" where
  "io_event_fd_new e c guest_addr len datamatch =
     bind_io (on_fst (try_io (le_eventfd (he_le e)) ''cannot create event fd'')) (\<lambda>eventfd.
     on_err
       (bind_io (he_transfer_one e eventfd) (\<lambda>hv_eventfd.
        guard_mem (he_os e) (he_me e) (cd_size c) (\<lambda>mem.
        bind_io (vm_request e c (KVM_IOEVENTFD (cd_size c)) ''kvm ioeventfd ioctl injection failed''
          ''cannot register KVM_IOEVENTFD via ioctl'' mem (kvm_ioeventfd hv_eventfd guest_addr len datamatch)) (\<lambda>_.
        ret \<lparr>ief_fd = eventfd, ief_hv_eventfd = hv_eventfd, ief_hv_mem = mem, ief_guest_addr = guest_addr, ief_len = len,
             ief_datamatch = datamatch\<rparr>))))
       (on_fst (fd_drop e eventfd)))"

definition deassign :: "io_event_fd \<Rightarrow> kvm_ioeventfd_data" where
  "deassign i =
     (let d = kvm_ioeventfd (ief_hv_eventfd i) (ief_guest_addr i) (ief_len i) (ief_datamatch i) in
      d\<lparr>kie_flags := kie_flags d OR push_bit kvm_ioeventfd_flag_nr_deassign 1\<rparr>)"

text \<open>The destructor returns at once if the memory cannot be written; the fields are dropped in any case.\<close>

definition io_event_fd_drop :: "'w hv_env \<Rightarrow> kvm_ioeventfd_data codec \<Rightarrow> io_event_fd \<Rightarrow> ('w \<times> hypervisor, unit) io" where
  "io_event_fd_drop e c i =
     bind_io get_st (\<lambda>(_, h).
     bind_io (on_fst (attempt (hv_write (he_os e) c (ief_hv_mem i) (deassign i)))) (\<lambda>r.
     bind_io
       (if is_ok r then
          bind_io (on_fst (ignore_io (vm_ioctl_with_ref (he_os e) (he_me e) (hv_tracee h) (KVM_IOEVENTFD (cd_size c)) (ief_hv_mem i)))) (\<lambda>_.
          on_fst (ignore_io (te_close (he_os e) (he_me e) (hv_tracee h) (ief_hv_eventfd i))))
        else ret ()) (\<lambda>_.
     bind_io (on_fst (fd_drop e (ief_fd i))) (\<lambda>_.
     hv_drop (he_os e) (he_me e) (ief_hv_mem i)))))"

section \<open>The wire protocol of ioregionfd\<close>

record kvm_ioregion =
  kr_guest_paddr :: u64
  kr_memory_size :: u64
  kr_user_data :: u64
  kr_rfd :: "32 word"
  kr_wfd :: "32 word"
  kr_flags :: u32
  kr_pad :: bytes

definition kvm_ioregion_new :: "u64 \<Rightarrow> usize \<Rightarrow> raw_fd \<Rightarrow> raw_fd \<Rightarrow> kvm_ioregion" where
  "kvm_ioregion_new guest_paddr len rfd wfd =
     \<lparr>kr_guest_paddr = guest_paddr, kr_memory_size = len, kr_user_data = 0, kr_rfd = rfd, kr_wfd = wfd, kr_flags = 0,
      kr_pad = replicate 28 0\<rparr>"

definition KVM_CAP_IOREGIONFD :: u32 where "KVM_CAP_IOREGIONFD = 195"

datatype ir_cmd = CmdRead | CmdWrite
datatype ir_size = b8 | b16 | b32 | b64

fun cmd_nr :: "ir_cmd \<Rightarrow> u32" where
  "cmd_nr CmdRead = 0"
| "cmd_nr CmdWrite = 1"

fun size_nr :: "ir_size \<Rightarrow> u32" where
  "size_nr b8 = 0"
| "size_nr b16 = 1"
| "size_nr b32 = 2"
| "size_nr b64 = 3"

definition IOREGIONFD_CMD_OFFSET :: nat where "IOREGIONFD_CMD_OFFSET = 0"
definition IOREGIONFD_CMD_LEN :: nat where "IOREGIONFD_CMD_LEN = 1"
definition IOREGIONFD_SIZE_OFFSET :: nat where "IOREGIONFD_SIZE_OFFSET = 4"
definition IOREGIONFD_SIZE_LEN :: nat where "IOREGIONFD_SIZE_LEN = 2"
definition IOREGIONFD_RESP_OFFSET :: nat where "IOREGIONFD_RESP_OFFSET = 6"
definition IOREGIONFD_RESP_LEN :: nat where "IOREGIONFD_RESP_LEN = 1"

definition info_new :: "ir_cmd \<Rightarrow> ir_size \<Rightarrow> bool \<Rightarrow> u32" where
  "info_new cmd sz response =
     push_bit IOREGIONFD_CMD_OFFSET (cmd_nr cmd) OR push_bit IOREGIONFD_SIZE_OFFSET (size_nr sz) OR
     push_bit IOREGIONFD_RESP_OFFSET (if response then 1 else 0)"

definition info_bits :: "u32 \<Rightarrow> nat \<Rightarrow> nat \<Rightarrow> u32" where
  "info_bits info off len = drop_bit off info AND NOT (push_bit len (NOT 0))"

definition info_cmd :: "u32 \<Rightarrow> ir_cmd" where
  "info_cmd info =
     (let i = info_bits info IOREGIONFD_CMD_OFFSET IOREGIONFD_CMD_LEN in
      if i = 0 then CmdRead else if i = 1 then CmdWrite else CmdWrite)"

definition info_size :: "u32 \<Rightarrow> ir_size" where
  "info_size info =
     (let i = info_bits info IOREGIONFD_SIZE_OFFSET IOREGIONFD_SIZE_LEN in
      if i = 0 then b8 else if i = 1 then b16 else if i = 2 then b32 else if i = 3 then b64 else b8)"

definition info_is_response :: "u32 \<Rightarrow> bool" where
  "info_is_response info \<longleftrightarrow> info_bits info IOREGIONFD_RESP_OFFSET IOREGIONFD_RESP_LEN = 0"

record ioregionfd_cmd =
  ic_info :: u32
  ic_pad :: u32
  ic_user_data :: u64
  ic_offset :: u64
  ic_data :: u64

fun size_bytes :: "ir_size \<Rightarrow> nat" where
  "size_bytes b8 = 1"
| "size_bytes b16 = 2"
| "size_bytes b32 = 4"
| "size_bytes b64 = 8"

definition cmd_data :: "ioregionfd_cmd \<Rightarrow> bytes" where
  "cmd_data c = take (size_bytes (info_size (ic_info c))) (word_bytes 8 (ic_data c))"

text \<open>The slice of \<^verbatim>\<open>data_mut\<close> is the same bytes, to be written by the caller.\<close>

definition SIZE_IOREGIONFD_CMD :: nat where "SIZE_IOREGIONFD_CMD = 32"

definition decode_cmd :: "bytes \<Rightarrow> ioregionfd_cmd" where
  "decode_cmd bs =
     \<lparr>ic_info = field 0 4 bs, ic_pad = field 4 4 bs, ic_user_data = field 8 8 bs, ic_offset = field 16 8 bs,
      ic_data = field 24 8 bs\<rparr>"

definition encode_resp :: "u64 \<Rightarrow> bytes" where
  "encode_resp data = word_bytes 8 data @ replicate 24 0"

section \<open>ioregionfd\<close>

record io_region_fd =
  irf_hv_mem :: hv_mem
  irf_ioregion :: kvm_ioregion
  irf_rfile :: raw_fd
  irf_wfile :: raw_fd
  irf_rf_hv :: raw_fd
  irf_wf_hv :: raw_fd
  irf_hv_rf_hv :: raw_fd
  irf_hv_wf_hv :: raw_fd

definition capability_present :: "'w hv_env \<Rightarrow> ('w \<times> hypervisor, bool) io" where
  "capability_present e =
     bind_io (try_io (check_extension (he_os e) (he_me e) KVM_CAP_IOREGIONFD) ''cannot check kvm extension capabilities'') (\<lambda>has_cap.
     ret (has_cap = 0))"

definition io_region_fd_new ::
  "'w hv_env \<Rightarrow> kvm_ioregion codec \<Rightarrow> u64 \<Rightarrow> usize \<Rightarrow> ('w \<times> hypervisor, io_region_fd) io" where
  "io_region_fd_new e c guest_paddr len =
     bind_io (capability_present e) (\<lambda>b.
     if b then lift_res (bail ''This operation requires KVM_CAP_IOREGIONFD which your KVM does not have.'')
     else
       bind_io (on_fst (try_io (le_socketpair (he_le e)) ''cannot create sockets for IoRegionFd'')) (\<lambda>(rf_dev, rf_hv).
       bind_io (on_fst (try_io (le_socketpair (he_le e)) ''cannot create sockets for IoRegionFd'')) (\<lambda>(wf_dev, wf_hv).
       bind_io (he_transfer_one e rf_hv) (\<lambda>hv_rf_hv.
       bind_io (he_transfer_one e wf_hv) (\<lambda>hv_wf_hv.
       let ioregion = kvm_ioregion_new guest_paddr len hv_rf_hv hv_wf_hv in
       guard_mem (he_os e) (he_me e) (cd_size c) (\<lambda>mem.
       bind_io (vm_request e c (KVM_SET_IOREGION (cd_size c)) ''kvm ioeventfd ioctl injection failed''
         ''ioregionfd ioctl failed'' mem ioregion) (\<lambda>_.
       ret \<lparr>irf_hv_mem = mem, irf_ioregion = ioregion, irf_rfile = rf_dev, irf_wfile = wf_dev, irf_rf_hv = rf_hv,
            irf_wf_hv = wf_hv, irf_hv_rf_hv = hv_rf_hv, irf_hv_wf_hv = hv_wf_hv\<rparr>)))))))"

definition io_region_fd_drop :: "'w hv_env \<Rightarrow> kvm_ioregion codec \<Rightarrow> io_region_fd \<Rightarrow> ('w \<times> hypervisor, unit) io" where
  "io_region_fd_drop e c i =
     bind_io get_st (\<lambda>(_, h).
     let te = hv_tracee h; ioregion = (irf_ioregion i)\<lparr>kr_rfd := - 1, kr_wfd := - 1\<rparr> in
     bind_io (on_fst (attempt (hv_write (he_os e) c (irf_hv_mem i) ioregion))) (\<lambda>r.
     bind_io
       (if is_ok r then
          on_fst
            (bind_io (ignore_io (vm_ioctl_with_ref (he_os e) (he_me e) te (KVM_SET_IOREGION (cd_size c)) (irf_hv_mem i))) (\<lambda>_.
             bind_io (ignore_io (te_close (he_os e) (he_me e) te (irf_hv_rf_hv i))) (\<lambda>_.
             bind_io (ignore_io (te_close (he_os e) (he_me e) te (irf_hv_wf_hv i))) (\<lambda>_.
             for_io [irf_rf_hv i, irf_wf_hv i, irf_rfile i, irf_wfile i] (fd_drop e)))))
        else ret ()) (\<lambda>_.
     hv_drop (he_os e) (he_me e) (irf_hv_mem i))))"

text \<open>\<^verbatim>\<open>fdclone\<close> gives a handle on the same descriptors; the list of descriptors to poll has one element.\<close>

record raw_io_region_fd =
  rr_rfile :: raw_fd
  rr_wfile :: raw_fd
  rr_ioregion :: kvm_ioregion

definition fdclone :: "io_region_fd \<Rightarrow> raw_io_region_fd" where
  "fdclone i = \<lparr>rr_rfile = irf_rfile i, rr_wfile = irf_wfile i, rr_ioregion = irf_ioregion i\<rparr>"

definition rr_read :: "'w lenv \<Rightarrow> raw_io_region_fd \<Rightarrow> ('w, ioregionfd_cmd option) io" where
  "rr_read le i =
     bind_io (try_io (le_ppoll le (rr_wfile i) 300) ''read/ppoll failed'') (\<lambda>(nr_events, revents).
     if nr_events = 0 \<or> \<not> revents then ret None
     else
       bind_io (try_io (le_read le (rr_wfile i) SIZE_IOREGIONFD_CMD) ''read on ioregionfd failed'') (\<lambda>bs.
       if length bs \<noteq> SIZE_IOREGIONFD_CMD then lift_res (bail ''read returned ioregionfd command of incorrect length'')
       else ret (Some (decode_cmd bs))))"

definition rr_write :: "'w lenv \<Rightarrow> raw_io_region_fd \<Rightarrow> u64 \<Rightarrow> ('w, unit) io" where
  "rr_write le i data =
     bind_io (try_io (le_write le (rr_rfile i) (encode_resp data)) ''write on ioregionfd failed'') (\<lambda>written.
     if written \<noteq> 32 then lift_res (bail ''cannot write entire ioregionfd command'') else ret ())"

definition rr_write_slice :: "'w lenv \<Rightarrow> raw_io_region_fd \<Rightarrow> bytes \<Rightarrow> ('w, unit) io" where
  "rr_write_slice le i data =
     bind_io (lift_res (slice_range (replicate 8 (0 :: u8)) 0 (length data))) (\<lambda>_.
     rr_write le i (le_word (data @ replicate (8 - length data) 0)))"

section \<open>Notifications without the help of the kernel\<close>

type_synonym uioefd = "(u32 option \<times> raw_fd) list"

definition userpace_ioeventfd :: "'w lenv \<Rightarrow> u32 option \<Rightarrow> ('w \<times> uioefd, raw_fd) io" where
  "userpace_ioeventfd le datamatch =
     bind_io get_st (\<lambda>(_, u).
     if datamatch = None \<and> u \<noteq> []
     then lift_res (bail ''cannot add a userspace ioeventfd without datamatch when others with datamatch have already been registered'')
     else
       bind_io (on_fst (try_io (le_eventfd le) ''cannot create non-blocking eventfd for uioefd'')) (\<lambda>fd.
       bind_io (on_err (on_fst (try_io (le_dup le fd) ''cannot clone uioefd'')) (on_fst (ignore_io (le_close le fd)))) (\<lambda>fd'.
       bind_io (upd_snd (\<lambda>u. u @ [(datamatch, fd')])) (\<lambda>_.
       ret fd))))"

definition notify_target :: "uioefd \<Rightarrow> u32 \<Rightarrow> raw_fd option" where
  "notify_target u val =
     map_option snd (find (\<lambda>(datamatch, fd). case datamatch of Some dm \<Rightarrow> dm = val | None \<Rightarrow> True) u)"

definition queue_notify :: "'w lenv \<Rightarrow> uioefd \<Rightarrow> u32 \<Rightarrow> ('w, unit) io" where
  "queue_notify le u val =
     (case notify_target u val of
        Some fd \<Rightarrow> ignore_io (le_eventfd_write le fd 1)
      | None \<Rightarrow> ret ())"

section \<open>Registration of a queue\<close>

definition register_ioeventfd ::
  "'w hv_env \<Rightarrow> kvm_ioeventfd_data codec \<Rightarrow> mmio_config \<Rightarrow> u64 \<Rightarrow> ('w \<times> hypervisor, io_event_fd) io" where
  "register_ioeventfd e c cfg queue_idx =
     bind_io (lift_res (chk_add (fst (mc_range cfg)) VIRTIO_MMIO_QUEUE_NOTIFY_OFFSET)) (\<lambda>addr.
     io_event_fd_new e c addr 4 (Some queue_idx))"

datatype io_event = IoEventFd io_event_fd | EventFd raw_fd

definition io_event_register ::
  "'w hv_env \<Rightarrow> kvm_ioeventfd_data codec \<Rightarrow> bool \<Rightarrow> mmio_config \<Rightarrow> u64 \<Rightarrow> (('w \<times> hypervisor) \<times> uioefd, io_event) io" where
  "io_event_register e c use_ioregionfd cfg queue_idx =
     (if use_ioregionfd then
        bind_io
          (\<lambda>s. map_option (\<lambda>((w, u), r). (((w, snd (fst s)), u), r))
             (try_io (userpace_ioeventfd (he_le e) (Some (ucast queue_idx))) ''cannot register userspace ioeventfd'' (fst (fst s), snd s)))
          (\<lambda>eventfd. ret (EventFd eventfd))
      else
        bind_io (on_fst (try_io (register_ioeventfd e c cfg queue_idx) ''cannot register ioeventfd'')) (\<lambda>ioeventfd.
        ret (IoEventFd ioeventfd)))"

definition io_event_raw_fd :: "io_event \<Rightarrow> raw_fd" where
  "io_event_raw_fd i = (case i of IoEventFd f \<Rightarrow> ief_fd f | EventFd fd \<Rightarrow> fd)"

section \<open>The wire format\<close>

text \<open>The 32 bytes of a command as the kernel sends them.\<close>

definition wire_cmd :: "ir_cmd \<Rightarrow> ir_size \<Rightarrow> bool \<Rightarrow> u64 \<Rightarrow> u64 \<Rightarrow> u64 \<Rightarrow> bytes" where
  "wire_cmd c s r user off d =
     word_bytes 4 (info_new c s r) @ word_bytes 4 (0 :: u32) @ word_bytes 8 user @ word_bytes 8 off @ word_bytes 8 d"

lemmas info_defs = info_cmd_def info_size_def info_is_response_def info_bits_def info_new_def IOREGIONFD_CMD_OFFSET_def
  IOREGIONFD_CMD_LEN_def IOREGIONFD_SIZE_OFFSET_def IOREGIONFD_SIZE_LEN_def IOREGIONFD_RESP_OFFSET_def IOREGIONFD_RESP_LEN_def

lemma info_cmd_new: "info_cmd (info_new c s r) = c"
  by (cases c; cases s; cases r) (simp_all add: info_defs Let_def mask_eq_exp_minus_1)

lemma info_size_new: "info_size (info_new c s r) = s"
  by (cases c; cases s; cases r) (simp_all add: info_defs Let_def mask_eq_exp_minus_1)

lemma info_is_response_new: "info_is_response (info_new c s r) = (\<not> r)"
  by (cases c; cases s; cases r) (simp_all add: info_defs Let_def mask_eq_exp_minus_1)


end
