(* ===== verification/Block_Dev.thy ===== *)
theory Block_Dev
  imports Virtio
begin

text \<open>
  \<^verbatim>\<open>src/devices/virtio/block\<close>: the virtio block device. The backing file is mapped into vmsh, and requests of
  the driver copy between this mapping and the memory of the guest in the hypervisor process
  (\<^verbatim>\<open>inorder_handler.rs\<close>); \<^verbatim>\<open>queue_handler.rs\<close> is called by the event manager, \<^verbatim>\<open>device.rs\<close> creates, activates and
  resets the device.

  The crates \<^verbatim>\<open>virtio_queue\<close>, \<^verbatim>\<open>virtio_blk\<close> (parsing a request, the executor for the requests that are not
  handled here) and \<^verbatim>\<open>vm_memory\<close>, and the system calls, are the record \<open>blk_env\<close>.
\<close>

section \<open>Requests\<close>

definition SECTOR_SHIFT :: nat where "SECTOR_SHIFT = 9"
definition SECTOR_SIZE :: u64 where "SECTOR_SIZE = 512"

text \<open>\<open>RqOther\<close> stands for the types for which \<^verbatim>\<open>execute\<close> has no case of its own.\<close>

datatype request_type = RqIn | RqOut | RqFlush | RqOther u32

text \<open>What the methods of \<^verbatim>\<open>virtio_blk::request::Request\<close> return.\<close>

record blk_request =
  rq_type :: request_type
  rq_data :: "(u64 \<times> u32) list"
  rq_sector :: u64
  rq_status_addr :: u64
  rq_total_data_len :: u64

datatype exec_error =
    InvalidAccess
  | InvalidDataLength
  | ExGuestMemory string
  | ExRead
  | ExWrite
  | ExFlush
  | Unsupported u32
  | ExOther string

type_synonym iovec = "u64 \<times> u64"

record mmap =
  mf_ptr :: u64
  mf_len :: u64

record blk_handler =
  bh_sectors :: u64
  bh_mmap :: mmap
  bh_pid :: pid
  bh_remote_iovs :: "iovec list"
  bh_irq :: irq_state

record ('w, 'c) blk_env =
  be_irq :: "'w irq_env"
  be_queue :: "('w, 'c) queue_ops"
  be_host_address :: "u64 \<Rightarrow> string + u64"
  be_vm_writev :: "pid \<Rightarrow> iovec list \<Rightarrow> iovec list \<Rightarrow> ('w, u64) io"
  be_vm_readv :: "pid \<Rightarrow> iovec list \<Rightarrow> iovec list \<Rightarrow> ('w, u64) io"
  be_msync :: "u64 \<Rightarrow> u64 \<Rightarrow> ('w, unit) io"
  be_disk_execute :: "blk_request \<Rightarrow> ('w, exec_error + u32) io"
  be_parse :: "'c \<Rightarrow> ('w, string + blk_request) io"
  be_write_obj :: "u8 \<Rightarrow> u64 \<Rightarrow> ('w, unit) io"

section \<open>Executing a request\<close>

definition checked_shl :: "u64 \<Rightarrow> nat \<Rightarrow> u64 option" where
  "checked_shl v n = (if n < 64 then Some (push_bit n v) else None)"

definition check_access :: "blk_handler \<Rightarrow> u64 \<Rightarrow> u64 \<Rightarrow> exec_error + unit" where
  "check_access b sectors_count sector =
     (case checked_add sectors_count sector of
        None \<Rightarrow> Inl InvalidAccess
      | Some n \<Rightarrow> if n > bh_sectors b then Inl InvalidAccess else Inr ())"

fun push_iovs :: "(u64 \<Rightarrow> string + u64) \<Rightarrow> (u64 \<times> u32) list \<Rightarrow> iovec list \<Rightarrow> iovec list \<times> (exec_error + unit)" where
  "push_iovs host [] iovs = (iovs, Inr ())"
| "push_iovs host ((data_addr, data_len) # ds) iovs =
     (case host data_addr of
        Inl e \<Rightarrow> (iovs, Inl (ExGuestMemory e))
      | Inr hv_addr \<Rightarrow> push_iovs host ds (iovs @ [(hv_addr, ucast data_len)]))"

definition prepare_iovs :: "('w, 'c) blk_env \<Rightarrow> blk_request \<Rightarrow> ('w \<times> blk_handler, exec_error + unit) io" where
  "prepare_iovs env rq ws =
     (case push_iovs (be_host_address env) (rq_data rq) [] of
        (iovs, r) \<Rightarrow> Some ((fst ws, (snd ws)\<lparr>bh_remote_iovs := iovs\<rparr>), Inr r))"

definition bind_ex :: "('w, exec_error + 'a) io \<Rightarrow> ('a \<Rightarrow> ('w, exec_error + 'b) io) \<Rightarrow> ('w, exec_error + 'b) io" where
  "bind_ex m f = bind_io m (\<lambda>r. case r of Inl e \<Rightarrow> ret (Inl e) | Inr x \<Rightarrow> f x)"

definition map_err_ex :: "exec_error \<Rightarrow> ('w, 'a) io \<Rightarrow> ('w, exec_error + 'a) io" where
  "map_err_ex e m = bind_io (attempt m) (\<lambda>r. ret (case r of Inl _ \<Rightarrow> Inl e | Inr x \<Rightarrow> Inr x))"

definition execute :: "('w, 'c) blk_env \<Rightarrow> blk_request \<Rightarrow> ('w \<times> blk_handler, exec_error + u32) io" where
  "execute env rq =
     (case checked_shl (rq_sector rq) SECTOR_SHIFT of
        None \<Rightarrow> ret (Inl InvalidAccess)
      | Some offset \<Rightarrow>
          let total_len = rq_total_data_len rq; typ = rq_type rq in
          if (typ = RqIn \<or> typ = RqOut) \<and> total_len mod SECTOR_SIZE \<noteq> 0 then ret (Inl InvalidDataLength)
          else
            bind_io get_st (\<lambda>(_, b).
            let access = ret (check_access b (total_len div SECTOR_SIZE) (rq_sector rq));
                ptr = mf_ptr (bh_mmap b) + offset in
            case typ of
              RqIn \<Rightarrow>
                bind_ex access (\<lambda>_.
                if total_len > 0xFFFFFFFF then ret (Inl InvalidDataLength)
                else
                  bind_ex (prepare_iovs env rq) (\<lambda>_.
                  bind_io get_st (\<lambda>(_, b).
                  bind_ex (on_fst (map_err_ex ExRead (be_vm_writev env (bh_pid b) [(ptr, total_len)] (bh_remote_iovs b)))) (\<lambda>n.
                  ret (Inr (ucast n))))))
            | RqOut \<Rightarrow>
                bind_ex access (\<lambda>_.
                bind_ex (prepare_iovs env rq) (\<lambda>_.
                bind_io get_st (\<lambda>(_, b).
                bind_ex (on_fst (map_err_ex ExWrite (be_vm_readv env (bh_pid b) [(ptr, total_len)] (bh_remote_iovs b)))) (\<lambda>n.
                ret (Inr (ucast n))))))
            | RqFlush \<Rightarrow>
                bind_ex access (\<lambda>_.
                bind_ex (on_fst (map_err_ex ExFlush (be_msync env ptr total_len))) (\<lambda>_. ret (Inr 0)))
            | RqOther _ \<Rightarrow> on_fst (be_disk_execute env rq)))"

section \<open>Processing the queue\<close>

definition status_of :: "exec_error + u32 \<Rightarrow> u8 \<times> u32" where
  "status_of r =
     (case r of
        Inr l \<Rightarrow> (0, saturating_add l 1)
      | Inl (Unsupported _) \<Rightarrow> (2, 1)
      | Inl _ \<Rightarrow> (1, 1))"

definition process_chain :: "('w, 'c) blk_env \<Rightarrow> 'c \<Rightarrow> ('w \<times> blk_handler, unit) io" where
  "process_chain env chain =
     bind_io (on_fst (be_parse env chain)) (\<lambda>p.
     bind_io
       (case p of
          Inr rq \<Rightarrow>
            bind_io (execute env rq) (\<lambda>r.
            case status_of r of
              (status, len) \<Rightarrow>
                bind_io (on_fst (be_write_obj env status (rq_status_addr rq))) (\<lambda>_. ret len))
        | Inl _ \<Rightarrow> ret 0) (\<lambda>len.
     zoom bh_irq (\<lambda>i b. b\<lparr>bh_irq := i\<rparr>) (finish_chain (be_queue env) (be_irq env) chain len)))"

definition process_queue :: "('w, 'c) blk_env \<Rightarrow> ('w \<times> blk_handler, unit) io" where
  "process_queue env = queue_loop (be_queue env) (process_chain env)"

text \<open>
  The event handler. The event is the set of events as its mask and the number it was registered
  with; \<open>remove\<close> removes the descriptor from the event loop.
\<close>

definition EVENT_IN :: u32 where "EVENT_IN = 1"
definition IOEVENT_DATA :: u32 where "IOEVENT_DATA = 0"

record 'w ev_ops =
  ev_read :: "('w, unit) io"
  ev_remove :: "('w, unit) io"
  ev_add :: "u32 \<Rightarrow> u32 \<Rightarrow> ('w, unit) io"

definition expect_io :: "('w, 'a) io \<Rightarrow> string \<Rightarrow> ('w, 'a) io" where
  "expect_io m msg = bind_io (attempt m) (\<lambda>r. case r of Inl _ \<Rightarrow> lift_res (panic msg) | Inr x \<Rightarrow> ret x)"

definition blk_process :: "('w, 'c) blk_env \<Rightarrow> 'w ev_ops \<Rightarrow> u32 \<Rightarrow> u32 \<Rightarrow> ('w \<times> blk_handler, unit) io" where
  "blk_process env ev event_set data =
     bind_io
       (if event_set \<noteq> EVENT_IN then ret True
        else if data \<noteq> IOEVENT_DATA then ret True
        else
          bind_io (on_fst (attempt (ev_read ev))) (\<lambda>r.
          case r of
            Inl _ \<Rightarrow> ret True
          | Inr _ \<Rightarrow> bind_io (attempt (process_queue env)) (\<lambda>q. ret (\<not> is_ok q)))) (\<lambda>err.
     if err then on_fst (expect_io (ev_remove ev) ''Failed to remove fd from event handling loop'') else ret ())"

definition blk_init :: "'w ev_ops \<Rightarrow> ('w \<times> blk_handler, unit) io" where
  "blk_init ev = on_fst (expect_io (ev_add ev IOEVENT_DATA EVENT_IN) ''Failed to init block queue handler'')"

section \<open>Memory and vectors\<close>

text \<open>
  \<open>gather\<close> are the bytes a vector of memory areas covers, in order; \<open>scatter\<close> writes bytes into the areas one
  after the other. \<open>iov_ok env p L M\<close> is the documented behaviour of \<^verbatim>\<open>process_vm_writev\<close> and \<^verbatim>\<open>process_vm_readv\<close>
  between the memory \<open>L\<close> of vmsh and the memory \<open>M\<close> of process \<open>p\<close>: the number returned is the number of bytes
  transferred, which may be less than asked for; on an error nothing is. \<^verbatim>\<open>msync\<close> changes no memory.
\<close>

definition gather :: "(u64 \<Rightarrow> u8) \<Rightarrow> iovec list \<Rightarrow> bytes" where
  "gather m iovs = concat (map (\<lambda>(a, l). map (\<lambda>k. m (a + of_nat k)) [0..<unat l]) iovs)"

fun scatter :: "(u64 \<Rightarrow> u8) \<Rightarrow> iovec list \<Rightarrow> bytes \<Rightarrow> u64 \<Rightarrow> u8" where
  "scatter m [] bs = m"
| "scatter m ((a, l) # iovs) bs = scatter (write_bytes m a (take (unat l) bs)) iovs (drop (unat l) bs)"

definition iov_bytes :: "iovec list \<Rightarrow> nat" where
  "iov_bytes iovs = sum_list (map (\<lambda>(a, l). unat l) iovs)"

definition iov_ok :: "('w, 'c) blk_env \<Rightarrow> pid \<Rightarrow> ('w \<Rightarrow> u64 \<Rightarrow> u8) \<Rightarrow> ('w \<Rightarrow> u64 \<Rightarrow> u8) \<Rightarrow> bool" where
  "iov_ok env p L M \<longleftrightarrow>
     (\<forall>li ri w w' r. be_vm_writev env p li ri w = Some (w', r) \<longrightarrow> L w' = L w \<and>
        (case r of
           Inl _ \<Rightarrow> M w' = M w
         | Inr n \<Rightarrow> unat n \<le> min (iov_bytes li) (iov_bytes ri) \<and> M w' = scatter (M w) ri (take (unat n) (gather (L w) li)))) \<and>
     (\<forall>li ri w w' r. be_vm_readv env p li ri w = Some (w', r) \<longrightarrow> M w' = M w \<and>
        (case r of
           Inl _ \<Rightarrow> L w' = L w
         | Inr n \<Rightarrow> unat n \<le> min (iov_bytes li) (iov_bytes ri) \<and> L w' = scatter (L w) li (take (unat n) (gather (M w) ri)))) \<and>
     (\<forall>a l w w' r. be_msync env a l w = Some (w', r) \<longrightarrow> L w' = L w \<and> M w' = M w)"

lemma iov_okD:
  assumes "iov_ok env p L M"
  shows "be_vm_writev env p li ri w = Some (w', Inr n) \<Longrightarrow> L w' = L w \<and> unat n \<le> iov_bytes li \<and>
      M w' = scatter (M w) ri (take (unat n) (gather (L w) li))"
    and "be_vm_readv env p li ri w = Some (w', Inr n) \<Longrightarrow> M w' = M w \<and> unat n \<le> iov_bytes ri \<and>
      L w' = scatter (L w) li (take (unat n) (gather (M w) ri))"
    and "be_msync env a l w = Some (w', r) \<Longrightarrow> L w' = L w \<and> M w' = M w"
  using assms unfolding iov_ok_def by (fastforce, fastforce, blast)

lemma length_gather [simp]: "length (gather m iovs) = iov_bytes iovs"
  by (induction iovs) (auto simp: gather_def iov_bytes_def)

lemma write_bytes_same: "write_bytes m a (map (\<lambda>k. m (a + of_nat k)) [0..<n]) = m"
  by (auto simp: write_bytes_def fun_eq_iff)

lemma scatter_gather: "scatter m iovs (gather m iovs) = m"
proof (induction iovs)
  case (Cons i iovs)
  obtain a l where i: "i = (a, l)" by (cases i)
  have g: "gather m (i # iovs) = map (\<lambda>k. m (a + of_nat k)) [0..<unat l] @ gather m iovs"
    by (simp add: gather_def i)
  show ?case by (simp only: g) (simp add: i write_bytes_same Cons)
qed (simp add: gather_def)

section \<open>The disk\<close>

text \<open>
  The disk is the content of the mapped file. The specification of a request takes the disk and the
  buffer of the guest to new ones: a read copies sectors to the buffer, a write the buffer to the
  sectors.
\<close>

definition disk_of :: "(u64 \<Rightarrow> u8) \<Rightarrow> mmap \<Rightarrow> bytes" where
  "disk_of m mm = map (\<lambda>i. m (mf_ptr mm + of_nat i)) [0..<unat (mf_len mm)]"

fun disk_spec :: "request_type \<Rightarrow> nat \<Rightarrow> bytes \<Rightarrow> bytes \<Rightarrow> bytes \<times> bytes" where
  "disk_spec RqIn sector disk buf = (disk, take (length buf) (drop (512 * sector) disk))"
| "disk_spec RqOut sector disk buf = (take (512 * sector) disk @ buf @ drop (512 * sector + length buf) disk, buf)"
| "disk_spec _ sector disk buf = (disk, buf)"

text \<open>The invariant of the handler, which \<^verbatim>\<open>_activate\<close> establishes.\<close>

definition wf_blk :: "blk_handler \<Rightarrow> bool" where
  "wf_blk b \<longleftrightarrow> bh_sectors b = drop_bit SECTOR_SHIFT (mf_len (bh_mmap b))"

definition guest_iovs :: "(u64 \<Rightarrow> string + u64) \<Rightarrow> (u64 \<times> u32) list \<Rightarrow> iovec list" where
  "guest_iovs host ds = map (\<lambda>(a, l). (projr (host a), ucast l)) ds"

lemma push_iovs_Inr:
  "push_iovs host ds iovs = (iovs', Inr ()) \<Longrightarrow> iovs' = iovs @ guest_iovs host ds"
  by (induction host ds iovs rule: push_iovs.induct) (auto simp: guest_iovs_def split: sum.splits)

lemma unat_ucast_u32: "unat (ucast (l :: u32) :: u64) = unat l"
  using unsigned_less[of l, where ?'a = nat] by (simp add: unsigned_ucast_eq take_bit_nat_eq_self)

lemma iov_bytes_guest: "iov_bytes (guest_iovs host ds) = sum_list (map (unat \<circ> snd) ds)"
proof (induction ds)
  case (Cons d ds)
  obtain a l where d: "d = (a, l)" by (cases d)
  have "unat (ucast l :: u64) = unat l" by (rule unat_ucast_u32)
  with Cons show ?case by (simp add: iov_bytes_def guest_iovs_def d)
qed (simp add: iov_bytes_def guest_iovs_def)

lemma access_bounds:
  assumes "wf_blk b" "check_access b (len div SECTOR_SIZE) sector = Inr ()" "len mod SECTOR_SIZE = 0"
  shows "unat (push_bit SECTOR_SHIFT sector) = 512 * unat sector"
    and "512 * unat sector + unat len \<le> unat (mf_len (bh_mmap b))"
proof -
  obtain n where n: "checked_add (len div SECTOR_SIZE) sector = Some n" "\<not> n > bh_sectors b"
    using assms(2) by (auto simp: check_access_def split: option.splits if_splits)
  then have "unat n = unat (len div SECTOR_SIZE) + unat sector"
    using unat_add_no_overflow[of "len div SECTOR_SIZE" sector] by (simp add: checked_add_Some)
  moreover have "unat (len div SECTOR_SIZE) = unat len div 512" by (simp add: SECTOR_SIZE_def unat_div)
  moreover have "unat n \<le> unat (mf_len (bh_mmap b)) div 512"
    using n(2) assms(1) by (simp add: wf_blk_def SECTOR_SHIFT_def word_le_nat_alt not_less unat_drop_bit)
  moreover have "unat len mod 512 = 0"
    using assms(3) by (simp add: SECTOR_SIZE_def unat_eq_0[symmetric] unat_mod del: unat_eq_0)
  ultimately show 2: "512 * unat sector + unat len \<le> unat (mf_len (bh_mmap b))"
    using div_mult_mod_eq[of "unat len" 512] div_times_less_eq_dividend[of "unat (mf_len (bh_mmap b))" 512] by linarith
  have "unat (mf_len (bh_mmap b)) < 2 ^ 64" using unsigned_less[of "mf_len (bh_mmap b)"] by simp
  with 2 have "unat sector * 2 ^ 9 < 2 ^ LENGTH(64)" by simp
  from unat_push_bit[OF this] show "unat (push_bit SECTOR_SHIFT sector) = 512 * unat sector"
    by (simp add: SECTOR_SHIFT_def)
qed

lemma disk_read:
  assumes "unat off + unat len \<le> unat (mf_len mm)"
  shows "gather m [(mf_ptr mm + off, len)] = take (unat len) (drop (unat off) (disk_of m mm))"
proof (rule nth_equalityI)
  fix i assume "i < length (gather m [(mf_ptr mm + off, len)])"
  then have i: "i < unat len" by (simp add: iov_bytes_def)
  have "(of_nat (unat off + i) :: u64) = off + of_nat i" by simp
  with i assms show "gather m [(mf_ptr mm + off, len)] ! i = take (unat len) (drop (unat off) (disk_of m mm)) ! i"
    by (simp add: gather_def disk_of_def add.assoc)
qed (use assms in \<open>simp add: iov_bytes_def disk_of_def\<close>)

lemma unat_index_diff:
  fixes i :: nat and off :: u64
  assumes "i < 2 ^ 64"
  shows "unat (of_nat i - off) = (if unat off \<le> i then i - unat off else 2 ^ 64 + i - unat off)"
proof -
  have u: "unat (of_nat i :: u64) = i" using assms by (simp add: unat_of_nat)
  have "unat off < 2 ^ 64" using unsigned_less[of off, where ?'a = nat] by simp
  then show ?thesis using u by (auto simp: unat_sub_if_size word_size not_le)
qed

lemma disk_write:
  assumes "unat off + length bs \<le> unat (mf_len mm)"
  shows "disk_of (write_bytes m (mf_ptr mm + off) bs) mm =
    take (unat off) (disk_of m mm) @ bs @ drop (unat off + length bs) (disk_of m mm)"
proof (rule nth_equalityI)
  fix i assume "i < length (disk_of (write_bytes m (mf_ptr mm + off) bs) mm)"
  then have i: "i < unat (mf_len mm)" by (simp add: disk_of_def)
  have l: "unat (mf_len mm) < 2 ^ 64" using unsigned_less[of "mf_len mm", where ?'a = nat] by simp
  have d: "unat (of_nat i - off) = (if unat off \<le> i then i - unat off else 2 ^ 64 + i - unat off)"
    using unat_index_diff[of i off] i l by simp
  consider "i < unat off" | "unat off \<le> i" "i < unat off + length bs" | "unat off + length bs \<le> i" by linarith
  then show "disk_of (write_bytes m (mf_ptr mm + off) bs) mm ! i =
      (take (unat off) (disk_of m mm) @ bs @ drop (unat off + length bs) (disk_of m mm)) ! i"
    using i assms l by cases (auto simp: disk_of_def write_bytes_def d nth_append)
qed (use assms in \<open>simp add: disk_of_def\<close>)

lemma bind_ex_Inr [io_simps]:
  "bind_ex m f w = Some (w', Inr (Inr y)) \<longleftrightarrow>
     (\<exists>w1 x. m w = Some (w1, Inr (Inr x)) \<and> f x w1 = Some (w', Inr (Inr y)))"
  by (auto simp: bind_ex_def bind_io_def ret_def split: option.splits sum.splits prod.splits)

lemma map_err_ex_Inr [io_simps]:
  "map_err_ex e m w = Some (w', Inr (Inr x)) \<longleftrightarrow> m w = Some (w', Inr x)"
  by (auto simp: map_err_ex_def bind_io_def attempt_def ret_def split: option.splits sum.splits prod.splits error.splits)

lemma prepare_iovs_Inr [io_simps]:
  "prepare_iovs env rq (w, b) = Some (s, Inr (Inr ())) \<longleftrightarrow>
     push_iovs (be_host_address env) (rq_data rq) [] = (bh_remote_iovs (snd s), Inr ()) \<and>
     s = (w, b\<lparr>bh_remote_iovs := bh_remote_iovs (snd s)\<rparr>)"
  by (cases s) (auto simp: prepare_iovs_def split: prod.splits)

text \<open>What has happened when a request succeeded.\<close>

lemmas execute_unfold = execute_def checked_shl_def SECTOR_SHIFT_def Let_def

lemma execute_In:
  assumes "execute env rq (w, b) = Some ((w', b'), Inr (Inr n))" "rq_type rq = RqIn"
  shows "rq_total_data_len rq mod SECTOR_SIZE = 0"
    and "check_access b (rq_total_data_len rq div SECTOR_SIZE) (rq_sector rq) = Inr ()"
    and "\<exists>k. n = ucast k \<and> rq_total_data_len rq \<le> 0xFFFFFFFF \<and>
      be_vm_writev env (bh_pid b) [(mf_ptr (bh_mmap b) + push_bit SECTOR_SHIFT (rq_sector rq), rq_total_data_len rq)]
        (guest_iovs (be_host_address env) (rq_data rq)) w = Some (w', Inr k)"
  using assms by (auto simp: execute_unfold io_simps not_less split: if_splits dest!: push_iovs_Inr)

lemma execute_Out:
  assumes "execute env rq (w, b) = Some ((w', b'), Inr (Inr n))" "rq_type rq = RqOut"
  shows "rq_total_data_len rq mod SECTOR_SIZE = 0"
    and "check_access b (rq_total_data_len rq div SECTOR_SIZE) (rq_sector rq) = Inr ()"
    and "\<exists>k. n = ucast k \<and>
      be_vm_readv env (bh_pid b) [(mf_ptr (bh_mmap b) + push_bit SECTOR_SHIFT (rq_sector rq), rq_total_data_len rq)]
        (guest_iovs (be_host_address env) (rq_data rq)) w = Some (w', Inr k)"
  using assms by (auto simp: execute_unfold io_simps split: if_splits dest!: push_iovs_Inr)

lemma execute_Flush:
  assumes "execute env rq (w, b) = Some ((w', b'), Inr (Inr n))" "rq_type rq = RqFlush"
  shows "\<exists>a l. be_msync env a l w = Some (w', Inr ())"
  using assms by (auto simp: execute_unfold io_simps split: if_splits)

lemma unat_ucast_eq_total:
  assumes "unat (ucast (k :: u64) :: u32) = n" "unat k \<le> n"
  shows "unat k = n"
proof -
  have "n = unat k mod 2 ^ 32" using assms(1) by (simp add: unsigned_ucast_eq take_bit_eq_mod)
  then show ?thesis using assms(2) mod_less_eq_dividend[of "unat k" "2 ^ 32"] by linarith
qed


section \<open>The queue is drained in order\<close>

text \<open>
  \<open>blk_total env obs\<close>: the operations on the memory of the guest and on the backing file return and leave what
  \<open>obs\<close> observes as it is, and the status of a request can be written. \<open>returns\<close> is the same for an operation
  of the handler.
\<close>

definition blk_total :: "('w, 'c) blk_env \<Rightarrow> ('w \<Rightarrow> 'o) \<Rightarrow> bool" where
  "blk_total env obs \<longleftrightarrow>
     (\<forall>p li ri w. \<exists>w' r. be_vm_writev env p li ri w = Some (w', r) \<and> \<not> panics r \<and> obs w' = obs w) \<and>
     (\<forall>p li ri w. \<exists>w' r. be_vm_readv env p li ri w = Some (w', r) \<and> \<not> panics r \<and> obs w' = obs w) \<and>
     (\<forall>a l w. \<exists>w' r. be_msync env a l w = Some (w', r) \<and> \<not> panics r \<and> obs w' = obs w) \<and>
     (\<forall>rq w. \<exists>w' x. be_disk_execute env rq w = Some (w', Inr x) \<and> obs w' = obs w) \<and>
     (\<forall>c w. \<exists>w' x. be_parse env c w = Some (w', Inr x) \<and> obs w' = obs w) \<and>
     (\<forall>v a w. \<exists>w'. be_write_obj env v a w = Some (w', Inr ()) \<and> obs w' = obs w)"

definition returns :: "('w \<Rightarrow> 'o) \<Rightarrow> ('w \<times> blk_handler, 'a) io \<Rightarrow> bool" where
  "returns obs m \<longleftrightarrow>
     (\<forall>w b. \<exists>w' b' x. m (w, b) = Some ((w', b'), Inr x) \<and> obs w' = obs w \<and> bh_irq b' = bh_irq b)"

named_theorems returns_intros \<open>composition of operations that return\<close>

lemma returns_ret [returns_intros]: "returns obs (ret x)"
  by (auto simp: returns_def ret_def)

lemma returns_bind [returns_intros]:
  assumes "returns obs m" "\<And>x. returns obs (f x)"
  shows "returns obs (bind_io m f)"
  unfolding returns_def
proof (intro allI)
  fix w b
  obtain w1 b1 x where 1: "m (w, b) = Some ((w1, b1), Inr x)" "obs w1 = obs w" "bh_irq b1 = bh_irq b"
    using assms(1) unfolding returns_def by blast
  obtain w2 b2 y where 2: "f x (w1, b1) = Some ((w2, b2), Inr y)" "obs w2 = obs w1" "bh_irq b2 = bh_irq b1"
    using assms(2)[of x] unfolding returns_def by blast
  from 1 2 show "\<exists>w' b' x. bind_io m f (w, b) = Some ((w', b'), Inr x) \<and> obs w' = obs w \<and> bh_irq b' = bh_irq b" by auto
qed

lemma returns_get_st [returns_intros]: "(\<And>w b. returns obs (f (w, b))) \<Longrightarrow> returns obs (bind_io get_st f)"
  by (auto simp: returns_def)

lemma returns_on_fst: "(\<And>w. \<exists>w' x. m w = Some (w', Inr x) \<and> obs w' = obs w) \<Longrightarrow> returns obs (on_fst m)"
  by (fastforce simp: returns_def on_fst_def)

lemma returns_map_err:
  assumes "\<And>w. \<exists>w' r. m w = Some (w', r) \<and> \<not> panics r \<and> obs w' = obs w"
  shows "returns obs (on_fst (map_err_ex e m))"
proof (rule returns_on_fst)
  fix w
  obtain w' r where "m w = Some (w', r)" "\<not> panics r" "obs w' = obs w" using assms by blast
  then show "\<exists>w' x. map_err_ex e m w = Some (w', Inr x) \<and> obs w' = obs w"
    by (cases r rule: panics.cases) (auto simp: map_err_ex_def bind_io_def attempt_def ret_def)
qed

lemma returns_bind_ex [returns_intros]:
  "returns obs m \<Longrightarrow> (\<And>x. returns obs (f x)) \<Longrightarrow> returns obs (bind_ex m f)"
  unfolding bind_ex_def by (intro returns_intros) (auto split: sum.splits intro: returns_intros)

lemma returns_prepare_iovs [returns_intros]: "returns obs (prepare_iovs env rq)"
  by (auto simp: returns_def prepare_iovs_def split: prod.splits)

lemma returns_execute:
  assumes "blk_total env obs"
  shows "returns obs (execute env rq)"
proof -
  note laws = assms[unfolded blk_total_def]
  have w: "returns obs (on_fst (map_err_ex e (be_vm_writev env p li ri)))" for e p li ri
    by (rule returns_map_err) (use laws in blast)
  have r: "returns obs (on_fst (map_err_ex e (be_vm_readv env p li ri)))" for e p li ri
    by (rule returns_map_err) (use laws in blast)
  have s: "returns obs (on_fst (map_err_ex e (be_msync env a l)))" for e a l
    by (rule returns_map_err) (use laws in blast)
  have d: "returns obs (on_fst (be_disk_execute env rq))"
    by (rule returns_on_fst) (use laws in blast)
  show ?thesis
    by (cases "rq_type rq"; simp add: execute_def checked_shl_def SECTOR_SHIFT_def Let_def)
      (auto intro!: returns_intros w r s d)
qed

lemma process_chain_takes:
  assumes "queue_ok (be_queue env) avail used" "blk_total env (\<lambda>w. (avail w, used w))"
    and "irq_ok (be_irq env) (\<lambda>w. (avail w, used w))"
  shows "takes (\<lambda>_. True) avail (\<lambda>w. map fst (used w)) (\<lambda>c. [q_head_index (be_queue env) c]) (\<lambda>b. irqs_left (bh_irq b))
    (process_chain env)"
  unfolding takes_def
proof (intro allI impI)
  fix c w and b :: blk_handler assume left: "0 < irqs_left (bh_irq b)"
  let ?obs = "\<lambda>w. (avail w, used w)"
  let ?body = "\<lambda>p. case p of
      Inr rq \<Rightarrow> bind_io (execute env rq) (\<lambda>r. case status_of r of (status, len) \<Rightarrow>
        bind_io (on_fst (be_write_obj env status (rq_status_addr rq))) (\<lambda>_. ret len))
    | Inl _ \<Rightarrow> ret 0"
  have wr: "returns ?obs (on_fst (be_write_obj env v a))" for v a
    by (rule returns_on_fst) (use assms(2) in \<open>auto simp: blk_total_def\<close>)
  have pa: "returns ?obs (on_fst (be_parse env c))"
    by (rule returns_on_fst) (use assms(2) in \<open>auto simp: blk_total_def\<close>)
  have "returns ?obs (?body p)" for p
    by (auto intro!: returns_intros returns_execute[OF assms(2)] wr split: sum.splits prod.splits)
  with pa have "returns ?obs (bind_io (on_fst (be_parse env c)) ?body)" by (rule returns_bind)
  then obtain w1 b1 len where b: "bind_io (on_fst (be_parse env c)) ?body (w, b) = Some ((w1, b1), Inr len)"
      "?obs w1 = ?obs w" "bh_irq b1 = bh_irq b"
    unfolding returns_def by blast
  have e: "process_chain env c (w, b) =
      zoom bh_irq (\<lambda>i b. b\<lparr>bh_irq := i\<rparr>) (finish_chain (be_queue env) (be_irq env) c len) (w1, b1)"
    unfolding process_chain_def bind_io_assoc[symmetric] using b(1) by simp
  obtain w2 h where f: "finish_chain (be_queue env) (be_irq env) c len (w1, bh_irq b1) = Some ((w2, h), Inr ())"
      "irqs_left (bh_irq b1) \<le> Suc (irqs_left h)" "avail w2 = avail w1"
      "used w2 = used w1 @ [(q_head_index (be_queue env) c, len)]"
    using finish_chain_run[OF assms(1,3), of "bh_irq b1" c len w1] left b(3) by auto
  show "\<exists>w' b'. process_chain env c (w, b) = Some ((w', b'), Inr ()) \<and>
      irqs_left (bh_irq b) \<le> Suc (irqs_left (bh_irq b')) \<and>
      avail w' = avail w \<and> map fst (used w') = map fst (used w) @ [q_head_index (be_queue env) c]"
    using f b(2,3) by (auto simp: e zoom_def)
qed

text \<open>
  C12: Processing the queue of the block device ends: if the driver adds no chains meanwhile, all available
  chains are taken and put into the used ring in the order in which they were made available, whatever
  requests they contain and whether or not they fail.
\<close>

theorem process_queue_in_order:
  assumes "queue_ok (be_queue env) avail used" "blk_total env (\<lambda>w. (avail w, used w))"
    and "irq_ok (be_irq env) (\<lambda>w. (avail w, used w))" "length (avail w) \<le> irqs_left (bh_irq b)"
  shows "\<exists>w' b'. process_queue env (w, b) = Some ((w', b'), Inr ()) \<and> avail w' = [] \<and>
    map fst (used w') = map fst (used w) @ map (q_head_index (be_queue env)) (avail w)"
  using queue_loop_all[OF assms(1) process_chain_takes[OF assms(1-3)] queue_keeps_used[OF assms(1)] assms(4)]
  by (simp add: process_queue_def list.pred_True)

section \<open>An example\<close>

text \<open>
  A guest and a disk in which all transfers are complete: the guest-physical memory is at 0x5000 in
  the hypervisor, and a chain carries its request. The disk has two sectors and 100 bytes that are
  ignored.
\<close>

record ram =
  ram_local :: "u64 \<Rightarrow> u8"
  ram_guest :: "u64 \<Rightarrow> u8"
  ram_avail :: "(u16 \<times> blk_request) list"
  ram_used :: "(u16 \<times> u32) list"

definition ram_count :: "iovec list \<Rightarrow> iovec list \<Rightarrow> u64" where
  "ram_count li ri = of_nat (min (iov_bytes li) (iov_bytes ri))"

definition ram_queue :: "(ram, u16 \<times> blk_request) queue_ops" where
  "ram_queue = \<lparr>
     q_disable_notification = ret (),
     q_enable_notification = (\<lambda>w. Some (w, Inr (ram_avail w \<noteq> []))),
     q_next = (\<lambda>w. Some (w\<lparr>ram_avail := tl (ram_avail w)\<rparr>, Inr (case ram_avail w of [] \<Rightarrow> None | c # _ \<Rightarrow> Some c))),
     q_head_index = fst,
     q_add_used = (\<lambda>h n w. Some (w\<lparr>ram_used := ram_used w @ [(h, n)]\<rparr>, Inr ())),
     q_needs_notification = ret True\<rparr>"

definition ram_env :: "(ram, u16 \<times> blk_request) blk_env" where
  "ram_env = \<lparr>
     be_irq = \<lparr>ie_now = ret 0, ie_irqfd_write = ret ()\<rparr>,
     be_queue = ram_queue,
     be_host_address = (\<lambda>a. Inr (a + 0x5000)),
     be_vm_writev = (\<lambda>p li ri w.
       Some (w\<lparr>ram_guest := scatter (ram_guest w) ri (take (unat (ram_count li ri)) (gather (ram_local w) li))\<rparr>, Inr (ram_count li ri))),
     be_vm_readv = (\<lambda>p li ri w.
       Some (w\<lparr>ram_local := scatter (ram_local w) li (take (unat (ram_count li ri)) (gather (ram_guest w) ri))\<rparr>, Inr (ram_count li ri))),
     be_msync = (\<lambda>a l. ret ()),
     be_disk_execute = (\<lambda>rq. ret (Inl (Unsupported 8))),
     be_parse = (\<lambda>c. ret (Inr (snd c))),
     be_write_obj = (\<lambda>v a. ret ())\<rparr>"

definition ram_blk :: blk_handler where
  "ram_blk = \<lparr>bh_sectors = 2, bh_mmap = \<lparr>mf_ptr = 0x10000, mf_len = 1124\<rparr>, bh_pid = 7, bh_remote_iovs = [],
     bh_irq = \<lparr>irq_status = 0, last_sent = 0, resent = 0, total_sent = 0, total_ack_timeouted = 0\<rparr>\<rparr>"

definition ram_request :: "request_type \<Rightarrow> blk_request" where
  "ram_request typ = \<lparr>rq_type = typ, rq_data = [(0x100, 256), (0x400, 256)], rq_sector = 1, rq_status_addr = 0x800,
     rq_total_data_len = 512\<rparr>"

definition ram0 :: ram where
  "ram0 = \<lparr>ram_local = ucast, ram_guest = (\<lambda>a. 1),
     ram_avail = [(3, ram_request RqOut), (1, ram_request (RqOther 8)), (2, ram_request RqIn)], ram_used = []\<rparr>"

lemma ram_count_le: "unat (ram_count li ri) \<le> min (iov_bytes li) (iov_bytes ri)"
  by (simp only: ram_count_def unat_of_nat mod_less_eq_dividend)

lemma ram_iov_ok: "iov_ok ram_env p ram_local ram_guest"
  using ram_count_le by (auto simp: iov_ok_def ram_env_def ret_def)

lemma ram_write:
  "\<exists>w. execute ram_env (ram_request RqOut) (ram0, ram_blk) =
     Some ((w, ram_blk\<lparr>bh_remote_iovs := [(0x5100, 256), (0x5400, 256)]\<rparr>), Inr (Inr 512))"
  by (simp add: execute_unfold ram_request_def ram_env_def ram_blk_def SECTOR_SIZE_def bind_ex_def bind_io_def ret_def get_st_def
      check_access_def checked_add_def prepare_iovs_def on_fst_def map_err_ex_def attempt_def ram_count_def iov_bytes_def)


lemma ram_laws:
  "queue_ok (be_queue ram_env) ram_avail ram_used"
  "blk_total ram_env (\<lambda>w. (ram_avail w, ram_used w))"
  "irq_ok (be_irq ram_env) (\<lambda>w. (ram_avail w, ram_used w))"
  by (auto simp: queue_ok_def blk_total_def irq_ok_def ram_env_def ram_queue_def ret_def)

theorem process_queue_in_order_witness:
  "\<exists>w b. process_queue ram_env (ram0, ram_blk) = Some ((w, b), Inr ()) \<and> ram_avail w = [] \<and>
     map fst (ram_used w) = [3, 1, 2]"
proof -
  have "length (ram_avail ram0) \<le> irqs_left (bh_irq ram_blk)" by (simp add: ram0_def ram_blk_def irqs_left_def)
  from process_queue_in_order[OF ram_laws this] show ?thesis
    by (auto simp: ram0_def ram_env_def ram_queue_def)
qed

end
