(* ===== verification/Console_Dev.thy ===== *)
theory Console_Dev
  imports Block_Dev
begin

text \<open>
  \<^verbatim>\<open>src/devices/virtio/console\<close>: the virtio console. What the guest transmits is written to the console output;
  input is read from a terminal if one was given. The descriptors of a chain (an iterator of \<^verbatim>\<open>virtio_queue\<close>), the
  memory of the guest and the two files are the record \<open>con_env\<close>.
\<close>

definition CONSOLE_DEVICE_ID :: u32 where "CONSOLE_DEVICE_ID = 3"
definition VIRTIO_CONSOLE_F_SIZE :: nat where "VIRTIO_CONSOLE_F_SIZE = 0"
definition RX_QUEUE_IDX :: u16 where "RX_QUEUE_IDX = 0"
definition TX_QUEUE_IDX :: u16 where "TX_QUEUE_IDX = 1"

text \<open>The configuration space is the packed structure \<^verbatim>\<open>virtio_console_config\<close> as bytes.\<close>

record virtio_console_config =
  vcc_cols :: u16
  vcc_rows :: u16
  vcc_max_nr_ports :: u32
  vcc_emerg_wr :: u32

definition console_config_bytes :: "virtio_console_config \<Rightarrow> bytes" where
  "console_config_bytes c =
     word_bytes 2 (vcc_cols c) @ word_bytes 2 (vcc_rows c) @ word_bytes 4 (vcc_max_nr_ports c) @ word_bytes 4 (vcc_emerg_wr c)"

definition console_config_space :: bytes where
  "console_config_space =
     console_config_bytes \<lparr>vcc_cols = 80, vcc_rows = 24, vcc_max_nr_ports = 2, vcc_emerg_wr = 0\<rparr>"

section \<open>Queues\<close>

record ('w, 'c) con_env =
  ce_irq :: "'w irq_env"
  ce_txq :: "('w, 'c) queue_ops"
  ce_rxq :: "('w, 'c) queue_ops"
  ce_desc :: "'c \<Rightarrow> ('w, ((u64 \<times> u32) \<times> 'c) option) io"
  ce_write_to :: "u64 \<Rightarrow> usize \<Rightarrow> ('w, usize) io"
  ce_write_slice :: "bytes \<Rightarrow> u64 \<Rightarrow> ('w, unit) io"
  ce_console_in :: "(nat \<Rightarrow> ('w, bytes) io) option"

text \<open>The counter of descriptors is a signed number of 32 bits.\<close>

definition incr_i32 :: "32 word \<Rightarrow> 32 word res" where
  "incr_i32 i = (if i = 0x7FFFFFFF then panic ''attempt to add with overflow'' else Inr (i + 1))"

partial_function (option) tx_chain ::
  "('w, 'c) con_env \<Rightarrow> 'c \<Rightarrow> 32 word \<Rightarrow> 'w \<Rightarrow> ('w \<times> (32 word) res) option" where
  "tx_chain env chain i w =
     bind_io (ce_desc env chain) (\<lambda>d w'.
     case d of
       None \<Rightarrow> ret i w'
     | Some ((addr, len), chain') \<Rightarrow>
         bind_io (ignore_io (ce_write_to env addr (ucast len))) (\<lambda>_ w''.
         bind_io (lift_res (incr_i32 i)) (\<lambda>j w3. tx_chain env chain' j w3) w'') w') w"

definition process_tx_chain :: "('w, 'c) con_env \<Rightarrow> 'c \<Rightarrow> ('w \<times> irq_state, unit) io" where
  "process_tx_chain env chain =
     bind_io (on_fst (tx_chain env chain 0)) (\<lambda>i.
     finish_chain (ce_txq env) (ce_irq env) chain i)"

definition process_txq :: "('w, 'c) con_env \<Rightarrow> ('w \<times> irq_state, unit) io" where
  "process_txq env = queue_loop (ce_txq env) (process_tx_chain env)"

definition RX_LEN :: nat where "RX_LEN = 128"

definition rx_chain :: "('w, 'c) con_env \<Rightarrow> 'c \<Rightarrow> ('w, usize) io" where
  "rx_chain env chain =
     bind_io (ce_desc env chain) (\<lambda>d.
     case d of
       None \<Rightarrow> ret 0
     | Some ((addr, len), _) \<Rightarrow>
         (case ce_console_in env of
            None \<Rightarrow> lift_res (panic ''programming error: rx chain cannot be processed if no pts is connected'')
          | Some pts_read \<Rightarrow>
              bind_io (attempt (pts_read RX_LEN)) (\<lambda>r.
              let buf = (case r of Inl _ \<Rightarrow> [] | Inr bs \<Rightarrow> bs) in
              bind_io (ignore_io (ce_write_slice env buf addr)) (\<lambda>_.
              ret (of_nat (length buf))))))"

definition process_rxq :: "('w, 'c) con_env \<Rightarrow> ('w \<times> irq_state, unit) io" where
  "process_rxq env =
     bind_io (on_fst (q_disable_notification (ce_rxq env))) (\<lambda>_.
     bind_io (on_fst (q_next (ce_rxq env))) (\<lambda>c.
     bind_io
       (case c of
          None \<Rightarrow> ret ()
        | Some chain \<Rightarrow>
            bind_io (on_fst (rx_chain env chain)) (\<lambda>count.
            finish_chain (ce_rxq env) (ce_irq env) chain (ucast count))) (\<lambda>_.
     bind_io (on_fst (q_enable_notification (ce_rxq env))) (\<lambda>_. ret ()))))"

section \<open>Events\<close>

definition con_handle_error :: "'w ev_ops \<Rightarrow> ('w \<times> irq_state, unit) io" where
  "con_handle_error ev = on_fst (expect_io (ev_remove ev) ''Failed to remove tx ioevent'')"

definition con_process :: "('w, 'c) con_env \<Rightarrow> 'w ev_ops \<Rightarrow> u32 \<Rightarrow> u32 \<Rightarrow> ('w \<times> irq_state, unit) io" where
  "con_process env ev event_set data =
     (if event_set \<noteq> EVENT_IN then con_handle_error ev
      else if (ucast data :: u16) = RX_QUEUE_IDX then
        bind_io (attempt (process_rxq env)) (\<lambda>r. if is_ok r then ret () else con_handle_error ev)
      else if (ucast data :: u16) = TX_QUEUE_IDX then
        bind_io (on_fst (attempt (ev_read ev))) (\<lambda>r.
        bind_io (if is_ok r then ret () else con_handle_error ev) (\<lambda>_.
        bind_io (attempt (process_txq env)) (\<lambda>r. if is_ok r then ret () else con_handle_error ev)))
      else con_handle_error ev)"

text \<open>Registration with the event manager: the terminal, if there is one, and the descriptor of the transmit queue.\<close>

definition con_init :: "('w, 'c) con_env \<Rightarrow> 'w ev_ops \<Rightarrow> 'w ev_ops \<Rightarrow> ('w \<times> irq_state, unit) io" where
  "con_init env ev_in ev_tx =
     bind_io
       (if ce_console_in env = None then ret ()
        else on_fst (expect_io (ev_add ev_in (ucast RX_QUEUE_IDX) EVENT_IN)
          ''Failed to register rx ioeventfd for console queue handler'')) (\<lambda>_.
     on_fst (expect_io (ev_add ev_tx (ucast TX_QUEUE_IDX) EVENT_IN)
       ''Failed to register tx ioeventfd for console queue handler''))"

section \<open>Everything transmitted is written\<close>

text \<open>
  \<open>chain_is env out obs chain bss\<close>: the descriptors of the chain cover the bytes \<open>bss\<close>, and writing a descriptor to
  the console appends its bytes to \<open>out\<close>; neither changes what \<open>obs\<close> observes.
\<close>

fun chain_is :: "('w, 'c) con_env \<Rightarrow> ('w \<Rightarrow> bytes) \<Rightarrow> ('w \<Rightarrow> 'o) \<Rightarrow> 'c \<Rightarrow> bytes list \<Rightarrow> bool" where
  "chain_is env out obs chain [] \<longleftrightarrow>
     (\<forall>w. \<exists>w'. ce_desc env chain w = Some (w', Inr None) \<and> out w' = out w \<and> obs w' = obs w)"
| "chain_is env out obs chain (bs # bss) \<longleftrightarrow>
     (\<exists>addr len chain'.
        (\<forall>w. \<exists>w'. ce_desc env chain w = Some (w', Inr (Some ((addr, len), chain'))) \<and> out w' = out w \<and> obs w' = obs w) \<and>
        (\<forall>w. \<exists>w' n. ce_write_to env addr (ucast len) w = Some (w', Inr n) \<and> out w' = out w @ bs \<and> obs w' = obs w) \<and>
        chain_is env out obs chain' bss)"

lemma tx_chain_writes:
  assumes "chain_is env out obs chain bss" "unat i + length bss < 2 ^ 31"
  shows "\<exists>w' n. tx_chain env chain i w = Some (w', Inr n) \<and> out w' = out w @ concat bss \<and> obs w' = obs w"
  using assms
proof (induction env out obs chain bss arbitrary: i w rule: chain_is.induct)
  case (1 env out obs chain)
  then obtain w' where "ce_desc env chain w = Some (w', Inr None)" "out w' = out w" "obs w' = obs w" by auto
  then show ?case by (subst tx_chain.simps) (simp add: bind_io_def ret_def)
next
  case (2 env out obs chain bs bss)
  obtain addr len chain' w1 where d: "ce_desc env chain w = Some (w1, Inr (Some ((addr, len), chain')))"
      "out w1 = out w" "obs w1 = obs w"
    and wr: "\<forall>w. \<exists>w' n. ce_write_to env addr (ucast len) w = Some (w', Inr n) \<and> out w' = out w @ bs \<and> obs w' = obs w"
    and c: "chain_is env out obs chain' bss"
    using 2(2) by (auto, blast)
  obtain w2 n where w2: "ce_write_to env addr (ucast len) w1 = Some (w2, Inr n)" "out w2 = out w1 @ bs" "obs w2 = obs w1"
    using wr by blast
  have b: "unat i < 0x7FFFFFFF" "unat (i + 1) = unat i + 1" using 2(3) by (auto simp: unat_word_ariths)
  then have "incr_i32 i = Inr (i + 1)" by (auto simp: incr_i32_def)
  then have step: "tx_chain env chain i w = tx_chain env chain' (i + 1) w2"
    by (subst tx_chain.simps) (simp add: bind_io_def d w2 lift_res_def)
  have "unat (i + 1) + length bss < 2 ^ 31" using 2(3) b(2) by simp
  from 2(1)[OF c this, of w2] show ?case using d w2 by (auto simp: step)
qed

lemma process_tx_chain_run:
  assumes "queue_ok (ce_txq env) avail used" "irq_ok (ce_irq env) (\<lambda>w. (avail w, used w))"
    and "chain_is env out (\<lambda>w. (avail w, used w)) c bss" "length bss < 2 ^ 31" "0 < irqs_left h"
  shows "\<exists>w' h' n w1. process_tx_chain env c (w, h) = Some ((w', h'), Inr ()) \<and> irqs_left h \<le> Suc (irqs_left h') \<and>
    avail w' = avail w \<and> used w' = used w @ [(q_head_index (ce_txq env) c, n)] \<and>
    out w1 = out w @ concat bss \<and> finish_chain (ce_txq env) (ce_irq env) c n (w1, h) = Some ((w', h'), Inr ())"
proof -
  obtain w1 n where t: "tx_chain env c 0 w = Some (w1, Inr n)" "out w1 = out w @ concat bss"
      "avail w1 = avail w" "used w1 = used w"
    using tx_chain_writes[OF assms(3), of 0 w] assms(4) by auto
  obtain w2 h2 where f: "finish_chain (ce_txq env) (ce_irq env) c n (w1, h) = Some ((w2, h2), Inr ())"
      "irqs_left h \<le> Suc (irqs_left h2)" "avail w2 = avail w1" "used w2 = used w1 @ [(q_head_index (ce_txq env) c, n)]"
    using finish_chain_run[OF assms(1,2,5), of c n w1] by auto
  have "process_tx_chain env c (w, h) = Some ((w2, h2), Inr ())"
    by (simp add: process_tx_chain_def bind_io_def on_fst_def t(1) f(1))
  then show ?thesis using t f by auto
qed

text \<open>Telling the driver does not write to the console.\<close>

definition tx_quiet :: "('w, 'c) con_env \<Rightarrow> ('w \<Rightarrow> bytes) \<Rightarrow> bool" where
  "tx_quiet env out \<longleftrightarrow> queue_keeps (ce_txq env) out \<and>
     (\<forall>c n. frames (\<lambda>s s'. out (fst s') = out (fst s)) (finish_chain (ce_txq env) (ce_irq env) c n))"

text \<open>
  C25: The console transmits everything: if the driver adds no chains meanwhile, processing the transmit queue
  ends, all available chains are used in order, and the bytes of their descriptors are appended to the
  output of the console in order.
\<close>

theorem process_txq_writes:
  assumes "queue_ok (ce_txq env) avail used" "irq_ok (ce_irq env) (\<lambda>w. (avail w, used w))" "tx_quiet env out"
    and "list_all (\<lambda>c. length (content c) < 2 ^ 31 \<and> chain_is env out (\<lambda>w. (avail w, used w)) c (content c)) (avail w)"
    and "length (avail w) \<le> irqs_left h"
  shows "\<exists>w' h'. process_txq env (w, h) = Some ((w', h'), Inr ()) \<and> avail w' = [] \<and>
    map fst (used w') = map fst (used w) @ map (q_head_index (ce_txq env)) (avail w) \<and>
    out w' = out w @ concat (map (\<lambda>c. concat (content c)) (avail w))"
proof -
  let ?ok = "\<lambda>c. length (content c) < 2 ^ 31 \<and> chain_is env out (\<lambda>w. (avail w, used w)) c (content c)"
  have run: "\<exists>w' h' n. process_tx_chain env c (w, h) = Some ((w', h'), Inr ()) \<and> irqs_left h \<le> Suc (irqs_left h') \<and>
      avail w' = avail w \<and> used w' = used w @ [(q_head_index (ce_txq env) c, n)] \<and> out w' = out w @ concat (content c)"
    if "?ok c" "0 < irqs_left h" for c w h
    using process_tx_chain_run[OF assms(1,2), of out c "content c" h w] that assms(3)
    by (fastforce simp: tx_quiet_def dest: framesD)
  have 1: "takes ?ok avail (\<lambda>w. map fst (used w)) (\<lambda>c. [q_head_index (ce_txq env) c]) irqs_left (process_tx_chain env)"
    unfolding takes_def
  proof (intro allI impI)
    fix c w h assume "?ok c" "0 < irqs_left h"
    from run[OF this, of w] show "\<exists>w' h'. process_tx_chain env c (w, h) = Some ((w', h'), Inr ()) \<and>
        irqs_left h \<le> Suc (irqs_left h') \<and> avail w' = avail w \<and>
        map fst (used w') = map fst (used w) @ [q_head_index (ce_txq env) c]"
      by (elim exE conjE) auto
  qed
  have 2: "takes ?ok avail out (\<lambda>c. concat (content c)) irqs_left (process_tx_chain env)"
    unfolding takes_def using run by blast
  show ?thesis
    using queue_loop_all[OF assms(1) 1 queue_keeps_used[OF assms(1)] assms(5,4)]
      queue_loop_all[OF assms(1) 2 _ assms(5,4)] assms(3)
    by (auto simp: process_txq_def tx_quiet_def)
qed

section \<open>An example\<close>

text \<open>A guest whose memory has at each address the low byte of the address; a chain is its head and its descriptors.\<close>

record tty =
  tty_avail :: "(u16 \<times> (u64 \<times> u32) list) list"
  tty_used :: "(u16 \<times> u32) list"
  tty_out :: bytes

definition tty_queue :: "(tty, u16 \<times> (u64 \<times> u32) list) queue_ops" where
  "tty_queue = \<lparr>
     q_disable_notification = ret (),
     q_enable_notification = (\<lambda>w. Some (w, Inr (tty_avail w \<noteq> []))),
     q_next = (\<lambda>w. Some (w\<lparr>tty_avail := tl (tty_avail w)\<rparr>, Inr (case tty_avail w of [] \<Rightarrow> None | c # _ \<Rightarrow> Some c))),
     q_head_index = fst,
     q_add_used = (\<lambda>h n w. Some (w\<lparr>tty_used := tty_used w @ [(h, n)]\<rparr>, Inr ())),
     q_needs_notification = ret False\<rparr>"

definition tty_env :: "(tty, u16 \<times> (u64 \<times> u32) list) con_env" where
  "tty_env = \<lparr>
     ce_irq = \<lparr>ie_now = ret 0, ie_irqfd_write = ret ()\<rparr>,
     ce_txq = tty_queue, ce_rxq = tty_queue,
     ce_desc = (\<lambda>(h, ds). ret (case ds of [] \<Rightarrow> None | d # ds' \<Rightarrow> Some (d, (h, ds')))),
     ce_write_to = (\<lambda>addr len w. Some (w\<lparr>tty_out := tty_out w @ gather ucast [(addr, len)]\<rparr>, Inr len)),
     ce_write_slice = (\<lambda>bs addr. ret ()),
     ce_console_in = None\<rparr>"

lemma tty_chain:
  "chain_is tty_env tty_out (\<lambda>w. (tty_avail w, tty_used w)) (h, ds) (map (\<lambda>(a, l). gather ucast [(a, ucast l)]) ds)"
  by (induction ds) (auto simp: tty_env_def ret_def)

lemma tty_laws:
  "queue_ok (ce_txq tty_env) tty_avail tty_used"
  "irq_ok (ce_irq tty_env) (\<lambda>w. (tty_avail w, tty_used w))"
  "tx_quiet tty_env tty_out"
  by (auto simp: queue_ok_def irq_ok_def tx_quiet_def queue_keeps_def frames_def finish_chain_def bind_io_def on_fst_def
      tty_env_def tty_queue_def ret_def)

definition tty0 :: tty where
  "tty0 = \<lparr>tty_avail = [(4, [(0x68, 2), (0x21, 1)]), (2, [(0x0A, 1)])], tty_used = [], tty_out = []\<rparr>"

definition irq0 :: irq_state where
  "irq0 = \<lparr>irq_status = 0, last_sent = 0, resent = 0, total_sent = 0, total_ack_timeouted = 0\<rparr>"

theorem process_txq_writes_witness:
  "\<exists>w h. process_txq tty_env (tty0, irq0) = Some ((w, h), Inr ()) \<and> tty_avail w = [] \<and> map fst (tty_used w) = [4, 2] \<and>
     tty_out w = [0x68, 0x69, 0x21, 0x0A]"
proof -
  let ?content = "\<lambda>c. map (\<lambda>(a, l). gather ucast [(a, ucast l)]) (snd c)"
  have a: "list_all (\<lambda>c. length (?content c) < 2 ^ 31 \<and>
      chain_is tty_env tty_out (\<lambda>w. (tty_avail w, tty_used w)) c (?content c)) (tty_avail tty0)"
    unfolding list_all_iff
  proof (intro ballI conjI)
    fix c assume "c \<in> set (tty_avail tty0)"
    then show "length (?content c) < 2 ^ 31" by (auto simp: tty0_def)
    show "chain_is tty_env tty_out (\<lambda>w. (tty_avail w, tty_used w)) c (?content c)"
      using tty_chain[of "fst c" "snd c"] by (simp only: prod.collapse)
  qed
  have "length (tty_avail tty0) \<le> irqs_left irq0" by (simp add: tty0_def irq0_def irqs_left_def)
  from process_txq_writes[OF tty_laws a this] show ?thesis
    by (simp add: tty0_def tty_env_def tty_queue_def gather_def upt_rec)
qed

end
