(* ===== verification/Virtio_Dev.thy ===== *)
theory Virtio_Dev
  imports Ioregion Console_Dev
begin

text \<open>
  \<^verbatim>\<open>src/devices/virtio/block/device.rs\<close> and \<^verbatim>\<open>src/devices/virtio/console/device.rs\<close>: creation, activation and reset of the two
  devices. The configuration of a virtio device and its queues (\<^verbatim>\<open>virtio_device\<close>, \<^verbatim>\<open>virtio_queue\<close>), the executor of
  \<^verbatim>\<open>virtio_blk\<close>, the bus and the event manager belong to crates; they are the record \<open>dev_env\<close>, as are the files. The
  error of an operation is named by the constructor of the error type of the device.
\<close>

section \<open>The environment of a device\<close>

record 'q virtio_config =
  vf_device_features :: u64
  vf_driver_features :: u64
  vf_device_activated :: bool
  vf_device_status :: u8
  vf_interrupt_status :: u8
  vf_queues :: "'q list"
  vf_config_space :: bytes

record ('w, 'q, 'b) dev_env =
  de_now :: "('w, nat) io"
  de_queue_new :: "u16 \<Rightarrow> 'q res"
  de_config_new :: "u64 \<Rightarrow> 'q list \<Rightarrow> bytes \<Rightarrow> 'q virtio_config"
  de_open :: "string \<Rightarrow> bool \<Rightarrow> bool \<Rightarrow> ('w, raw_fd) io"
  de_seek_end :: "raw_fd \<Rightarrow> ('w, u64) io"
  de_mmap :: "raw_fd \<Rightarrow> u64 \<Rightarrow> ('w, u64) io"
  de_munmap :: "u64 \<Rightarrow> u64 \<Rightarrow> ('w, unit) io"
  de_backend_new :: "raw_fd \<Rightarrow> u64 \<Rightarrow> ('w, 'b) io"
  de_backend_drop :: "'b \<Rightarrow> ('w, unit) io"
  de_register_mmio :: "u64 \<times> u64 \<Rightarrow> ('w, unit) io"

text \<open>The layouts of the structures of the KVM interface that the devices need.\<close>

record codecs =
  co_irqfd :: "kvm_irqfd codec"
  co_ioeventfd :: "kvm_ioeventfd_data codec"
  co_ioregion :: "kvm_ioregion codec"

definition map_err :: "('w, 'a) io \<Rightarrow> string \<Rightarrow> ('w, 'a) io" where
  "map_err m con = try_io m con"

definition irq_env_of :: "'w hv_env \<Rightarrow> ('w, 'q, 'b) dev_env \<Rightarrow> raw_fd \<Rightarrow> 'w irq_env" where
  "irq_env_of e de fd = \<lparr>ie_now = de_now de, ie_irqfd_write = le_eventfd_write (he_le e) fd 1\<rparr>"

definition he_irqfd :: "'w hv_env \<Rightarrow> codecs \<Rightarrow> u32 \<Rightarrow> ('w \<times> hypervisor, raw_fd) io" where
  "he_irqfd e co gsi = irqfd (he_os e) (he_le e) (he_iovec e) (he_msghdr e) (co_irqfd co) (he_me e) gsi"

definition io_event_drop :: "'w hv_env \<Rightarrow> codecs \<Rightarrow> io_event \<Rightarrow> ('w \<times> hypervisor, unit) io" where
  "io_event_drop e co i =
     (case i of IoEventFd f \<Rightarrow> io_event_fd_drop e (co_ioeventfd co) f | EventFd fd \<Rightarrow> on_fst (fd_drop e fd))"

definition opt_drop :: "('a \<Rightarrow> ('w, unit) io) \<Rightarrow> 'a option \<Rightarrow> ('w, unit) io" where
  "opt_drop d x = (case x of None \<Rightarrow> ret () | Some y \<Rightarrow> d y)"

definition maybe_ioregionfd ::
  "'w hv_env \<Rightarrow> codecs \<Rightarrow> bool \<Rightarrow> mmio_config \<Rightarrow> ('w \<times> hypervisor, io_region_fd option) io" where
  "maybe_ioregionfd e co use_ioregionfd cfg =
     (if use_ioregionfd then
        bind_io (io_region_fd_new e (co_ioregion co) (fst (mc_range cfg)) (snd (mc_range cfg))) (\<lambda>i. ret (Some i))
      else ret None)"

text \<open>The registration of a queue with a new table of event descriptors.\<close>

definition register_queue ::
  "'w hv_env \<Rightarrow> codecs \<Rightarrow> bool \<Rightarrow> mmio_config \<Rightarrow> u64 \<Rightarrow> ('w \<times> hypervisor, io_event \<times> uioefd) io" where
  "register_queue e co use_ioregionfd cfg idx s =
     map_option (\<lambda>((s', u), r). (s', bind_res r (\<lambda>i. Inr (i, u))))
       (io_event_register e (co_ioeventfd co) use_ioregionfd cfg idx (s, []))"

section \<open>The block device\<close>

definition BLOCK_DEVICE_ID :: u32 where "BLOCK_DEVICE_ID = 2"
definition VIRTIO_BLK_F_RO :: nat where "VIRTIO_BLK_F_RO = 5"
definition VIRTIO_BLK_F_FLUSH :: nat where "VIRTIO_BLK_F_FLUSH = 9"

definition bit64 :: "nat \<Rightarrow> u64" where
  "bit64 n = push_bit n 1"

definition blk_config_space :: "'w hv_env \<Rightarrow> ('w, 'q, 'b) dev_env \<Rightarrow> string \<Rightarrow> ('w, bytes) io" where
  "blk_config_space e de path =
     bind_io (map_err (de_open de path True False) ''OpenFile'') (\<lambda>file.
     bind_io (with_drop (map_err (de_seek_end de file) ''Seek'') (fd_drop e file)) (\<lambda>file_size.
     ret (word_bytes 8 (drop_bit SECTOR_SHIFT file_size))))"

record block_args =
  ba_mmio_cfg :: mmio_config
  ba_file_path :: string
  ba_read_only :: bool
  ba_root_device :: bool
  ba_advertise_flush :: bool

text \<open>
  The subscriber that handles the queue. Its interrupt state is shared with the device, and is the one
  in the handler once the device is active.
\<close>

record ('q, 'b) blk_subscriber =
  bq_inner :: blk_handler
  bq_queue :: 'q
  bq_disk :: 'b
  bq_ioeventfd :: io_event

record ('q, 'b) block_dev =
  bd_cfg :: "'q virtio_config"
  bd_mmio_cfg :: mmio_config
  bd_irq :: irq_state
  bd_irqfd :: raw_fd
  bd_ioregionfd :: "io_region_fd option"
  bd_ioeventfd :: "io_event option"
  bd_uioefd :: uioefd
  bd_file_path :: string
  bd_read_only :: bool
  bd_sub_id :: "nat option"
  bd_pid :: pid
  bd_handler :: "('q, 'b) blk_subscriber option"
  bd_root_device :: bool

definition blk_features :: "block_args \<Rightarrow> u64" where
  "blk_features a =
     (bit64 VIRTIO_F_VERSION_1 OR bit64 VIRTIO_F_IN_ORDER OR bit64 VIRTIO_F_RING_EVENT_IDX) OR
     (if ba_read_only a then bit64 VIRTIO_BLK_F_RO else 0) OR
     (if ba_advertise_flush a then bit64 VIRTIO_BLK_F_FLUSH else 0)"

text \<open>The fields of a device that own resources, in the order in which they are dropped.\<close>

definition dev_drop ::
  "'w hv_env \<Rightarrow> codecs \<Rightarrow> raw_fd \<Rightarrow> io_region_fd option \<Rightarrow> io_event option \<Rightarrow> uioefd \<Rightarrow> ('w \<times> hypervisor, unit) io" where
  "dev_drop e co fd ior ioe u =
     bind_io (on_fst (fd_drop e fd)) (\<lambda>_.
     bind_io (opt_drop (io_region_fd_drop e (co_ioregion co)) ior) (\<lambda>_.
     bind_io (opt_drop (io_event_drop e co) ioe) (\<lambda>_.
     on_fst (for_io (map snd u) (fd_drop e)))))"

text \<open>
  What both devices create in this order: the interrupt with its handler, the ioregionfd if it is used, and
  the event of the queue. What exists is dropped when a later step fails.
\<close>

definition new_events ::
  "'w hv_env \<Rightarrow> ('w, 'q, 'b) dev_env \<Rightarrow> codecs \<Rightarrow> bool \<Rightarrow> mmio_config \<Rightarrow> u8 \<Rightarrow> u64
    \<Rightarrow> ('w \<times> hypervisor, raw_fd \<times> irq_state \<times> io_region_fd option \<times> io_event \<times> uioefd) io" where
  "new_events e de co use_ioregionfd cfg status queue_idx =
     bind_io (map_err (he_irqfd e co (mc_gsi cfg)) ''Simple'') (\<lambda>irqfd.
     on_err
       (bind_io (on_fst (irq_ack_new (irq_env_of e de irqfd) status)) (\<lambda>irq.
        bind_io (map_err (maybe_ioregionfd e co use_ioregionfd cfg) ''Simple'') (\<lambda>ioregionfd.
        on_err
          (bind_io (map_err (register_queue e co use_ioregionfd cfg queue_idx) ''Simple'') (\<lambda>(ioeventfd, uioefd).
           ret (irqfd, irq, ioregionfd, ioeventfd, uioefd)))
          (opt_drop (io_region_fd_drop e (co_ioregion co)) ioregionfd))))
       (on_fst (fd_drop e irqfd)))"

definition block_new ::
  "'w hv_env \<Rightarrow> ('w, 'q, 'b) dev_env \<Rightarrow> codecs \<Rightarrow> bool \<Rightarrow> block_args \<Rightarrow> ('w \<times> hypervisor, ('q, 'b) block_dev) io" where
  "block_new e de co use_ioregionfd a =
     bind_io (lift_res (try_with (de_queue_new de QUEUE_MAX_SIZE) ''QueueCreation'')) (\<lambda>queue.
     bind_io (on_fst (blk_config_space e de (ba_file_path a))) (\<lambda>config_space.
     let cfg = de_config_new de (blk_features a) [queue] config_space; mmio_cfg = ba_mmio_cfg a in
     bind_io (new_events e de co use_ioregionfd mmio_cfg (vf_interrupt_status cfg) 0) (\<lambda>(irqfd, irq, ioregionfd, ioeventfd, uioefd).
     bind_io get_st (\<lambda>(_, h).
     on_err
       (bind_io (on_fst (map_err (de_register_mmio de (mc_range mmio_cfg)) ''Bus'')) (\<lambda>_.
        ret \<lparr>bd_cfg = cfg, bd_mmio_cfg = mmio_cfg, bd_irq = irq, bd_irqfd = irqfd, bd_ioregionfd = ioregionfd,
             bd_ioeventfd = Some ioeventfd, bd_uioefd = uioefd, bd_file_path = ba_file_path a,
             bd_read_only = ba_read_only a, bd_sub_id = None, bd_pid = hv_pid h, bd_handler = None, bd_root_device = ba_root_device a\<rparr>))
       (dev_drop e co irqfd ioregionfd (Some ioeventfd) uioefd)))))"

text \<open>The mapping of the backing file.\<close>

definition mmap_new :: "('w, 'q, 'b) dev_env \<Rightarrow> raw_fd \<Rightarrow> u64 \<Rightarrow> ('w, mmap) io" where
  "mmap_new de file len =
     (if len = 0 then lift_res (bail ''lenght is zero'')
      else
        bind_io (try_io (de_mmap de file len) ''mmap failed'') (\<lambda>ptr.
        ret \<lparr>mf_ptr = ptr, mf_len = len\<rparr>))"

definition mmap_drop :: "('w, 'q, 'b) dev_env \<Rightarrow> mmap \<Rightarrow> ('w, unit) io" where
  "mmap_drop de m = ignore_io (de_munmap de (mf_ptr m) (mf_len m))"

definition blk_subscriber_drop ::
  "'w hv_env \<Rightarrow> ('w, 'q, 'b) dev_env \<Rightarrow> codecs \<Rightarrow> ('q, 'b) blk_subscriber \<Rightarrow> ('w \<times> hypervisor, unit) io" where
  "blk_subscriber_drop e de co s =
     bind_io (on_fst (de_backend_drop de (bq_disk s))) (\<lambda>_.
     bind_io (on_fst (mmap_drop de (bh_mmap (bq_inner s)))) (\<lambda>_.
     io_event_drop e co (bq_ioeventfd s)))"

definition blk_open :: "'w hv_env \<Rightarrow> ('w, 'q, 'b) dev_env \<Rightarrow> ('q, 'b) block_dev \<Rightarrow> ('w, mmap \<times> 'b) io" where
  "blk_open e de d =
     bind_io (map_err (de_open de (bd_file_path d) True (\<not> bd_read_only d)) ''OpenFile'') (\<lambda>file.
     bind_io
       (on_err
          (bind_io (map_err (de_seek_end de file) ''Seek'') (\<lambda>disk_size.
           map_err (mmap_new de file disk_size) ''cannot mmap disk''))
          (fd_drop e file)) (\<lambda>mmap.
     let features = vf_driver_features (bd_cfg d) OR (if bd_read_only d then bit64 VIRTIO_BLK_F_RO else 0) in
     bind_io (on_err (map_err (de_backend_new de file features) ''Backend'') (mmap_drop de mmap)) (\<lambda>disk.
     ret (mmap, disk))))"

definition remove_first :: "'a list \<Rightarrow> ('a \<times> 'a list) res" where
  "remove_first xs = (case xs of [] \<Rightarrow> panic ''removal index (is 0) should be < len (is 0)'' | x # xs' \<Rightarrow> Inr (x, xs'))"

text \<open>\<open>add\<close> hands the subscriber to the event manager, which answers with its number.\<close>

definition blk_do_activate ::
  "'w hv_env \<Rightarrow> ('w, 'q, 'b) dev_env \<Rightarrow> codecs \<Rightarrow> (('q, 'b) blk_subscriber \<Rightarrow> ('w, nat) io)
    \<Rightarrow> (('w \<times> hypervisor) \<times> ('q, 'b) block_dev, unit) io" where
  "blk_do_activate e de co add =
     bind_io get_st (\<lambda>(_, d).
     if vf_device_activated (bd_cfg d) then lift_res (bail ''AlreadyActivated'')
     else if vf_driver_features (bd_cfg d) AND bit64 VIRTIO_F_VERSION_1 = 0 then lift_res (bail ''BadFeatures'')
     else
       bind_io (on_fst (on_fst (blk_open e de d))) (\<lambda>(mmap, disk).
       bind_io
         (on_err
            (bind_io (lift_res (remove_first (vf_queues (bd_cfg d)))) (\<lambda>(queue, queues).
             bind_io (upd_snd (\<lambda>d. d\<lparr>bd_cfg := (bd_cfg d)\<lparr>vf_queues := queues\<rparr>, bd_ioeventfd := None\<rparr>)) (\<lambda>_.
             case bd_ioeventfd d of
               None \<Rightarrow> lift_res (bail ''ioeventfd not set'')
             | Some fd \<Rightarrow>
                 ret \<lparr>bq_inner = \<lparr>bh_sectors = drop_bit SECTOR_SHIFT (mf_len mmap), bh_mmap = mmap, bh_pid = bd_pid d,
                        bh_remote_iovs = [], bh_irq = bd_irq d\<rparr>,
                      bq_queue = queue, bq_disk = disk, bq_ioeventfd = fd\<rparr>)))
            (on_fst (on_fst (bind_io (de_backend_drop de disk) (\<lambda>_. mmap_drop de mmap))))) (\<lambda>handler.
       bind_io (on_err (on_fst (on_fst (map_err (add handler) ''Endpoint''))) (on_fst (blk_subscriber_drop e de co handler))) (\<lambda>sub_id.
       upd_snd (\<lambda>d. d\<lparr>bd_sub_id := Some sub_id, bd_cfg := (bd_cfg d)\<lparr>vf_device_activated := True\<rparr>\<rparr>)))))"

text \<open>
  \<^verbatim>\<open>activate\<close> only adds a warning to the log. \<open>remove\<close> takes the subscriber from the event manager; it is kept in the
  device so that it is dropped with it.
\<close>

definition blk_activate where "blk_activate = blk_do_activate"

definition blk_do_reset ::
  "'w hv_env \<Rightarrow> ('w, 'q, 'b) dev_env \<Rightarrow> codecs \<Rightarrow> (nat \<Rightarrow> ('w, ('q, 'b) blk_subscriber) io)
    \<Rightarrow> (('w \<times> hypervisor) \<times> ('q, 'b) block_dev, unit) io" where
  "blk_do_reset e de co remove =
     bind_io get_st (\<lambda>(_, d).
     case bd_sub_id d of
       None \<Rightarrow> ret ()
     | Some sub_id \<Rightarrow>
         bind_io (upd_snd (\<lambda>d. d\<lparr>bd_sub_id := None\<rparr>)) (\<lambda>_.
         bind_io (on_fst (on_fst (map_err (remove sub_id) ''Endpoint''))) (\<lambda>handler.
         bind_io (upd_snd (\<lambda>d. d\<lparr>bd_handler := Some handler\<rparr>)) (\<lambda>_.
         on_fst (opt_drop (blk_subscriber_drop e de co) (bd_handler d))))))"

definition blk_reset ::
  "'w hv_env \<Rightarrow> ('w, 'q, 'b) dev_env \<Rightarrow> codecs \<Rightarrow> (nat \<Rightarrow> ('w, ('q, 'b) blk_subscriber) io)
    \<Rightarrow> (('w \<times> hypervisor) \<times> ('q, 'b) block_dev, unit) io" where
  "blk_reset e de co remove =
     bind_io (upd_snd (\<lambda>d. d\<lparr>bd_cfg := (bd_cfg d)\<lparr>vf_device_status := 0\<rparr>\<rparr>)) (\<lambda>_. blk_do_reset e de co remove)"

definition blk_queue_notify :: "'w hv_env \<Rightarrow> bool \<Rightarrow> ('q, 'b) block_dev \<Rightarrow> u32 \<Rightarrow> ('w, unit) io" where
  "blk_queue_notify e use_ioregionfd d val =
     (if use_ioregionfd then queue_notify (he_le e) (bd_uioefd d) val else ret ())"

section \<open>The console\<close>

record console_args =
  ca_mmio_cfg :: mmio_config
  ca_pts :: "string option"

text \<open>The output is standard output if no terminal is given.\<close>

record 'q con_subscriber =
  cq_irq :: irq_state
  cq_tx_fd :: io_event
  cq_rxq :: 'q
  cq_txq :: 'q
  cq_console_out :: "raw_fd option"
  cq_console_in :: "raw_fd option"

record 'q console_dev =
  cd_cfg :: "'q virtio_config"
  cd_mmio_cfg :: mmio_config
  cd_irq :: irq_state
  cd_irqfd :: raw_fd
  cd_ioregionfd :: "io_region_fd option"
  cd_uioefd :: uioefd
  cd_tx_fd :: "io_event option"
  cd_sub_id :: "nat option"
  cd_pts :: "string option"
  cd_handler :: "'q con_subscriber option"

definition con_features :: u64 where
  "con_features =
     bit64 VIRTIO_F_VERSION_1 OR bit64 VIRTIO_F_IN_ORDER OR bit64 VIRTIO_F_RING_EVENT_IDX OR bit64 VIRTIO_CONSOLE_F_SIZE"

definition console_new ::
  "'w hv_env \<Rightarrow> ('w, 'q, 'b) dev_env \<Rightarrow> codecs \<Rightarrow> bool \<Rightarrow> console_args \<Rightarrow> ('w \<times> hypervisor, 'q console_dev) io" where
  "console_new e de co use_ioregionfd a =
     bind_io (lift_res (try_with (de_queue_new de QUEUE_MAX_SIZE) ''QueueCreation'')) (\<lambda>q1.
     bind_io (lift_res (try_with (de_queue_new de QUEUE_MAX_SIZE) ''QueueCreation'')) (\<lambda>q2.
     let cfg = de_config_new de con_features [q1, q2] console_config_space; mmio_cfg = ca_mmio_cfg a in
     bind_io (new_events e de co use_ioregionfd mmio_cfg (vf_interrupt_status cfg) (ucast TX_QUEUE_IDX))
       (\<lambda>(irqfd, irq, ioregionfd, tx_fd, uioefd).
     on_err
       (bind_io (on_fst (map_err (de_register_mmio de (mc_range mmio_cfg)) ''Bus'')) (\<lambda>_.
        ret \<lparr>cd_cfg = cfg, cd_mmio_cfg = mmio_cfg, cd_irq = irq, cd_irqfd = irqfd, cd_ioregionfd = ioregionfd,
             cd_uioefd = uioefd, cd_tx_fd = Some tx_fd, cd_sub_id = None, cd_pts = ca_pts a, cd_handler = None\<rparr>))
       (bind_io (on_fst (fd_drop e irqfd)) (\<lambda>_.
        bind_io (opt_drop (io_region_fd_drop e (co_ioregion co)) ioregionfd) (\<lambda>_.
        bind_io (on_fst (for_io (map snd uioefd) (fd_drop e))) (\<lambda>_.
        io_event_drop e co tx_fd)))))))"

definition open_pts ::
  "'w hv_env \<Rightarrow> ('w, 'q, 'b) dev_env \<Rightarrow> string option \<Rightarrow> ('w, raw_fd option \<times> raw_fd option) io" where
  "open_pts e de pts =
     (case pts of
        None \<Rightarrow> ret (None, None)
      | Some path \<Rightarrow>
          bind_io (try_io (de_open de path True False) ''could not open read console'') (\<lambda>console_in.
          bind_io (on_err (try_io (de_open de path False True) ''could not open write console'') (fd_drop e console_in)) (\<lambda>console_out.
          ret (Some console_in, Some console_out))))"

definition con_files_drop :: "'w hv_env \<Rightarrow> raw_fd option \<Rightarrow> raw_fd option \<Rightarrow> ('w, unit) io" where
  "con_files_drop e console_out console_in =
     bind_io (opt_drop (fd_drop e) console_out) (\<lambda>_. opt_drop (fd_drop e) console_in)"

definition con_subscriber_drop :: "'w hv_env \<Rightarrow> codecs \<Rightarrow> 'q con_subscriber \<Rightarrow> ('w \<times> hypervisor, unit) io" where
  "con_subscriber_drop e co s =
     bind_io (io_event_drop e co (cq_tx_fd s)) (\<lambda>_.
     on_fst (con_files_drop e (cq_console_out s) (cq_console_in s)))"

text \<open>Both queues are taken with index 0: after the first removal the second queue has it.\<close>

definition con_do_activate ::
  "'w hv_env \<Rightarrow> ('w, 'q, 'b) dev_env \<Rightarrow> codecs \<Rightarrow> ('q con_subscriber \<Rightarrow> ('w, nat) io)
    \<Rightarrow> (('w \<times> hypervisor) \<times> 'q console_dev, unit) io" where
  "con_do_activate e de co add =
     bind_io get_st (\<lambda>(_, d).
     if vf_device_activated (cd_cfg d) then lift_res (bail ''AlreadyActivated'')
     else if vf_driver_features (cd_cfg d) AND bit64 VIRTIO_F_VERSION_1 = 0 then lift_res (bail ''BadFeatures'')
     else
       bind_io (on_fst (on_fst (open_pts e de (cd_pts d)))) (\<lambda>(console_in, console_out).
       bind_io
         (on_err
            (bind_io (lift_res (remove_first (vf_queues (cd_cfg d)))) (\<lambda>(rxq, queues).
             bind_io (lift_res (remove_first queues)) (\<lambda>(txq, queues').
             bind_io (upd_snd (\<lambda>d. d\<lparr>cd_cfg := (cd_cfg d)\<lparr>vf_queues := queues'\<rparr>, cd_tx_fd := None\<rparr>)) (\<lambda>_.
             case cd_tx_fd d of
               None \<Rightarrow> lift_res (bail ''no tx_fd set'')
             | Some tx_fd \<Rightarrow>
                 ret \<lparr>cq_irq = cd_irq d, cq_tx_fd = tx_fd, cq_rxq = rxq, cq_txq = txq, cq_console_out = console_out,
                      cq_console_in = console_in\<rparr>))))
            (on_fst (on_fst (con_files_drop e console_out console_in)))) (\<lambda>handler.
       bind_io (on_err (on_fst (on_fst (map_err (add handler) ''Endpoint''))) (on_fst (con_subscriber_drop e co handler))) (\<lambda>sub_id.
       upd_snd (\<lambda>d. d\<lparr>cd_sub_id := Some sub_id, cd_cfg := (cd_cfg d)\<lparr>vf_device_activated := True\<rparr>\<rparr>)))))"

definition con_reset ::
  "'w hv_env \<Rightarrow> codecs \<Rightarrow> (nat \<Rightarrow> ('w, 'q con_subscriber) io) \<Rightarrow> (('w \<times> hypervisor) \<times> 'q console_dev, unit) io" where
  "con_reset e co remove =
     bind_io (upd_snd (\<lambda>d. d\<lparr>cd_cfg := (cd_cfg d)\<lparr>vf_device_status := 0\<rparr>\<rparr>)) (\<lambda>_.
     bind_io get_st (\<lambda>(_, d).
     case cd_sub_id d of
       None \<Rightarrow> ret ()
     | Some sub_id \<Rightarrow>
         bind_io (upd_snd (\<lambda>d. d\<lparr>cd_sub_id := None\<rparr>)) (\<lambda>_.
         bind_io (on_fst (on_fst (map_err (remove sub_id) ''Endpoint''))) (\<lambda>handler.
         bind_io (upd_snd (\<lambda>d. d\<lparr>cd_handler := Some handler\<rparr>)) (\<lambda>_.
         on_fst (opt_drop (con_subscriber_drop e co) (cd_handler d)))))))"

definition con_queue_notify :: "'w hv_env \<Rightarrow> bool \<Rightarrow> 'q console_dev \<Rightarrow> u32 \<Rightarrow> ('w, unit) io" where
  "con_queue_notify e use_ioregionfd d val =
     (if use_ioregionfd then queue_notify (he_le e) (cd_uioefd d) val else ret ())"

section \<open>An active device is well-formed\<close>

lemma blk_open_Inr:
  assumes "blk_open e de d w = Some (w', Inr (mm, disk))"
  shows "mf_len mm \<noteq> 0 \<and> (\<exists>file w1 w2. de_seek_end de file w1 = Some (w2, Inr (mf_len mm)))"
  using assms by (auto simp: blk_open_def map_err_def mmap_new_def io_simps Let_def split: if_splits; metis)


text \<open>A disk of two sectors and 100 bytes; the driver has accepted version 1. The event manager counts the subscribers.\<close>

definition dev_ex :: "('w, u16, unit) dev_env" where
  "dev_ex = \<lparr>de_now = ret 0, de_queue_new = Inr,
     de_config_new = (\<lambda>f qs cs. \<lparr>vf_device_features = f, vf_driver_features = 0, vf_device_activated = False,
       vf_device_status = 0, vf_interrupt_status = 0, vf_queues = qs, vf_config_space = cs\<rparr>),
     de_open = (\<lambda>p r w. ret 5), de_seek_end = (\<lambda>fd. ret 1124), de_mmap = (\<lambda>fd l. ret 0x10000), de_munmap = (\<lambda>a l. ret ()),
     de_backend_new = (\<lambda>fd f. ret ()), de_backend_drop = (\<lambda>b. ret ()), de_register_mmio = (\<lambda>r. ret ())\<rparr>"

definition blk_ex :: "(u16, unit) block_dev" where
  "blk_ex = \<lparr>bd_cfg = \<lparr>vf_device_features = 0, vf_driver_features = bit64 32, vf_device_activated = False, vf_device_status = 4,
       vf_interrupt_status = 0, vf_queues = [256], vf_config_space = []\<rparr>,
     bd_mmio_cfg = \<lparr>mc_range = (0xD0000000, 0x1000), mc_gsi = 6\<rparr>,
     bd_irq = irq0, bd_irqfd = 9, bd_ioregionfd = None, bd_ioeventfd = Some (EventFd 10), bd_uioefd = [], bd_file_path = ''disk.img'',
     bd_read_only = False, bd_sub_id = None, bd_pid = 7, bd_handler = None, bd_root_device = True\<rparr>"

definition add_ex :: "(u16, unit) blk_subscriber \<Rightarrow> (nat, nat) io" where
  "add_ex s n = Some (Suc n, Inr n)"

lemma bit64_32: "bit64 32 \<noteq> 0"
  by (simp add: bit64_def push_bit_of_1)


end
