(* ===== verification/Kernel.thy ===== *)
theory Kernel
  imports Guest_Mem
begin

text \<open>
  \<^verbatim>\<open>src/kernel.rs\<close>: finding the symbols a Linux kernel exports in a read-only section of its memory. The
  section is a list of bytes and positions in it are natural numbers, since a Rust slice has less
  than 2 to the 63 bytes; addresses of the guest are words. Messages to the log are left out.
\<close>

type_synonym nrange = "nat \<times> nat"

definition LINUX_KERNEL_KASLR_RANGE :: range where
  "LINUX_KERNEL_KASLR_RANGE = (0xFFFFFFFF80000000, 0xFFFFFFFFC0000000)"

definition windows :: "nat \<Rightarrow> 'a list \<Rightarrow> 'a list list" where
  "windows n xs = map (\<lambda>i. take n (drop i xs)) [0..<Suc (length xs) - n]"

definition find_subsequence :: "bytes \<Rightarrow> bytes \<Rightarrow> nat option" where
  "find_subsequence haystack needle = position (\<lambda>w. w = needle) (windows (length needle) haystack)"

definition not_printable :: "u8 \<Rightarrow> bool" where
  "not_printable byte \<longleftrightarrow> \<not> (0x20 < byte \<and> byte < 0x7E)"

definition round_up :: "nat \<Rightarrow> nat \<Rightarrow> nat" where
  "round_up num align = (num + align - 1) div align * align"

definition init_task :: bytes where
  "init_task = [0x69, 0x6e, 0x69, 0x74, 0x5f, 0x74, 0x61, 0x73, 0x6b]"

definition gap_window :: "bytes \<Rightarrow> bool" where
  "gap_window b \<longleftrightarrow> not_printable (b ! 0) \<and> not_printable (b ! 1)"

definition find_ksymtab_strings_section :: "bytes \<Rightarrow> nrange option" where
  "find_ksymtab_strings_section mem =
     (case find_subsequence mem init_task of None \<Rightarrow> None | Some idx \<Rightarrow>
      case position gap_window (rev (windows 2 (take idx mem))) of None \<Rightarrow> None | Some start_offset \<Rightarrow>
      let start = round_up (idx - start_offset) 4 in
      case position gap_window (windows 2 (drop idx mem)) of None \<Rightarrow> None | Some end_offset \<Rightarrow>
      Some (start, idx + end_offset + 1))"

section \<open>The symbol table\<close>

record kernel_symbol =
  ks_value_offset :: "32 word"
  ks_name_offset :: "32 word"

record kernel_symbol_4_18 =
  kl_value :: u64
  kl_name :: u64

definition SIZE_KERNEL_SYMBOL :: nat where "SIZE_KERNEL_SYMBOL = 12"
definition SIZE_KERNEL_SYMBOL_5_3 :: nat where "SIZE_KERNEL_SYMBOL_5_3 = 8"
definition SIZE_KERNEL_SYMBOL_4_18 :: nat where "SIZE_KERNEL_SYMBOL_4_18 = 16"

definition cast_kernel_sym :: "bytes \<Rightarrow> kernel_symbol" where
  "cast_kernel_sym mem = \<lparr>ks_value_offset = field 0 4 mem, ks_name_offset = field 4 4 mem\<rparr>"

definition nat_sub :: "nat \<Rightarrow> nat \<Rightarrow> nat res" where
  "nat_sub a b = (if b \<le> a then Inr (a - b) else panic ''attempt to subtract with overflow'')"

definition in_range :: "nrange \<Rightarrow> usize \<Rightarrow> bool" where
  "in_range r i \<longleftrightarrow> fst r \<le> unat i \<and> unat i < snd r"

definition check_single_kernel_sym :: "bytes \<Rightarrow> nat \<Rightarrow> nat \<Rightarrow> nrange \<Rightarrow> usize option res" where
  "check_single_kernel_sym mem ii sym_size strings_range =
     bind_res (nat_sub ii sym_size) (\<lambda>start.
     bind_res (slice_range mem start ii) (\<lambda>bs.
     Inr (case checked_add (of_nat start) (scast (ks_name_offset (cast_kernel_sym bs))) of
            None \<Rightarrow> None
          | Some s \<Rightarrow>
              (case checked_add s 4 of
                 None \<Rightarrow> None
               | Some name_idx \<Rightarrow> if in_range strings_range name_idx then Some name_idx else None))))"

definition check_kernel_sym :: "bytes \<Rightarrow> nrange \<Rightarrow> nat \<Rightarrow> nat \<Rightarrow> nat option res" where
  "check_kernel_sym mem strings_range sym_size ii =
     (if ii < 2 * sym_size then Inr None
      else
        bind_res (check_single_kernel_sym mem ii sym_size strings_range) (\<lambda>r1.
        case r1 of None \<Rightarrow> Inr None | Some addr1 \<Rightarrow>
        bind_res (check_single_kernel_sym mem (ii - sym_size) sym_size strings_range) (\<lambda>r2.
        case r2 of None \<Rightarrow> Inr None | Some addr2 \<Rightarrow>
        Inr (if addr1 \<noteq> addr2 then Some sym_size else None))))"

definition get_kernel_symbol_legacy :: "bytes \<Rightarrow> kernel_symbol_4_18" where
  "get_kernel_symbol_legacy mem = \<lparr>kl_value = field 0 8 mem, kl_name = field 8 8 mem\<rparr>"

definition virt_range :: "nrange \<Rightarrow> usize \<Rightarrow> range res" where
  "virt_range r mem_base =
     bind_res (chk_add (of_nat (fst r)) mem_base) (\<lambda>s.
     bind_res (chk_add (of_nat (snd r)) mem_base) (\<lambda>e. Inr (s, e)))"

definition check_kernel_sym_legacy :: "bytes \<Rightarrow> usize \<Rightarrow> nrange \<Rightarrow> nat \<Rightarrow> nat option res" where
  "check_kernel_sym_legacy mem mem_base strings_range ii =
     (let sym_size = SIZE_KERNEL_SYMBOL_4_18 in
      if ii < sym_size then Inr None
      else
        bind_res (slice_range mem (ii - sym_size) ii) (\<lambda>bs.
        bind_res (virt_range strings_range mem_base) (\<lambda>vr.
        let name = kl_name (get_kernel_symbol_legacy bs) in
        if fst vr \<le> name \<and> name < snd vr then
          bind_res (nat_sub ii (2 * sym_size)) (\<lambda>a.
          bind_res (slice_range mem a (ii - sym_size)) (\<lambda>bs2.
          let name2 = kl_name (get_kernel_symbol_legacy bs2) in
          Inr (if fst vr \<le> name2 \<and> name2 < snd vr then Some sym_size else None)))
        else Inr None)))"

definition sym_size_at :: "bytes \<Rightarrow> usize \<Rightarrow> nrange \<Rightarrow> nat \<Rightarrow> nat option res" where
  "sym_size_at mem mem_base strings_range ii =
     bind_res (check_kernel_sym mem strings_range SIZE_KERNEL_SYMBOL ii) (\<lambda>r1.
     if r1 \<noteq> None then Inr r1 else
     bind_res (check_kernel_sym mem strings_range SIZE_KERNEL_SYMBOL_5_3 ii) (\<lambda>r2.
     if r2 \<noteq> None then Inr r2 else check_kernel_sym_legacy mem mem_base strings_range ii))"

text \<open>The loop \<^verbatim>\<open>(0..strings_range.start + 1).rev().step_by(4)\<close>.\<close>

fun ksymtab_scan :: "bytes \<Rightarrow> usize \<Rightarrow> nrange \<Rightarrow> nat \<Rightarrow> (nat \<times> nat) option res" where
  "ksymtab_scan mem mem_base strings_range ii =
     bind_res (sym_size_at mem mem_base strings_range ii) (\<lambda>r.
     case r of
       Some sym_size \<Rightarrow> Inr (Some (ii, sym_size))
     | None \<Rightarrow> if 4 \<le> ii then ksymtab_scan mem mem_base strings_range (ii - 4) else Inr None)"

definition get_ksymtab_start :: "bytes \<Rightarrow> usize \<Rightarrow> nrange \<Rightarrow> (nat \<times> nat) option res" where
  "get_ksymtab_start mem mem_base strings_range =
     ksymtab_scan mem mem_base strings_range (fst strings_range)"

declare ksymtab_scan.simps [simp del]

definition apply_offset :: "usize \<Rightarrow> 32 word \<Rightarrow> usize res" where
  "apply_offset addr offset =
     (if offset <s 0
      then if offset = 0x80000000 then panic ''attempt to negate with overflow'' else chk_sub addr (scast (- offset))
      else chk_sub addr (scast offset))"

text \<open>Well-formed UTF-8, as \<^verbatim>\<open>CStr::to_str\<close> requires it.\<close>

definition utf8_cont :: "u8 \<Rightarrow> bool" where
  "utf8_cont b \<longleftrightarrow> 0x80 \<le> b \<and> b \<le> 0xBF"

fun utf8_ok :: "bytes \<Rightarrow> bool" where
  "utf8_ok [] = True"
| "utf8_ok (a # bs) =
     (if a < 0x80 then utf8_ok bs
      else case bs of
        [] \<Rightarrow> False
      | b # cs \<Rightarrow>
          if 0xC2 \<le> a \<and> a \<le> 0xDF then utf8_cont b \<and> utf8_ok cs
          else (case cs of
            [] \<Rightarrow> False
          | c # ds \<Rightarrow>
              if 0xE0 \<le> a \<and> a \<le> 0xEF then
                utf8_cont b \<and> (a = 0xE0 \<longrightarrow> 0xA0 \<le> b) \<and> (a = 0xED \<longrightarrow> b \<le> 0x9F) \<and> utf8_cont c \<and> utf8_ok ds
              else (case ds of
                [] \<Rightarrow> False
              | d # es \<Rightarrow>
                  0xF0 \<le> a \<and> a \<le> 0xF4 \<and> utf8_cont b \<and> (a = 0xF0 \<longrightarrow> 0x90 \<le> b) \<and> (a = 0xF4 \<longrightarrow> b \<le> 0x8F) \<and>
                  utf8_cont c \<and> utf8_cont d \<and> utf8_ok es)))"

definition symbol_name :: "bytes \<Rightarrow> nat \<Rightarrow> bytes res" where
  "symbol_name mem idx =
     bind_res (slice_from mem idx) (\<lambda>rest.
     bind_res (require_with (position (\<lambda>c. c = 0) rest) ''symbol name does not end'') (\<lambda>len.
     bind_res (slice_range mem idx (idx + len + 1)) (\<lambda>name.
     if utf8_ok (butlast name) then Inr (butlast name) else bail ''invalid encoding for symbol name'')))"

text \<open>
  The loops \<^verbatim>\<open>for ii in (0..start + 1).rev().step_by(sym_size)\<close>: the next position is the start of the
  symbol, as its computation at the head of the body does not pass below 0.
\<close>

function legacy_symbols :: "bytes \<Rightarrow> usize \<Rightarrow> range \<Rightarrow> nat \<Rightarrow> nat \<Rightarrow> (bytes \<rightharpoonup> usize) \<Rightarrow> (bytes \<rightharpoonup> usize) res" where
  "legacy_symbols mem mem_base vr sym_size ii syms =
     (if sym_size = 0 then panic ''assertion failed: step != 0''
      else if ii < sym_size then panic ''attempt to subtract with overflow''
      else
        bind_res (slice_range mem (ii - sym_size) ii) (\<lambda>bs.
        let sym = get_kernel_symbol_legacy bs in
        if \<not> (fst vr \<le> kl_name sym \<and> kl_name sym < snd vr) then Inr syms
        else
          bind_res (chk_sub (kl_name sym) mem_base) (\<lambda>idx.
          bind_res (symbol_name mem (unat idx)) (\<lambda>name.
          legacy_symbols mem mem_base vr sym_size (ii - sym_size) (syms(name \<mapsto> kl_value sym))))))"
  by pat_completeness auto
termination by (relation "measure (\<lambda>(_, _, _, _, ii, _). ii)") auto

function prel_symbols :: "bytes \<Rightarrow> usize \<Rightarrow> nrange \<Rightarrow> nat \<Rightarrow> nat \<Rightarrow> (bytes \<rightharpoonup> usize) \<Rightarrow> (bytes \<rightharpoonup> usize) res" where
  "prel_symbols mem mem_base strings sym_size ii syms =
     (if sym_size = 0 then panic ''assertion failed: step != 0''
      else if ii < sym_size then panic ''attempt to subtract with overflow''
      else
        let sym_start = ii - sym_size in
        bind_res (slice_range mem sym_start ii) (\<lambda>bs.
        let sym = cast_kernel_sym bs in
        case checked_add (of_nat sym_start) 4 of None \<Rightarrow> Inr syms | Some s \<Rightarrow>
        case checked_add s (scast (ks_name_offset sym)) of None \<Rightarrow> Inr syms | Some name_idx \<Rightarrow>
        if \<not> in_range strings name_idx then Inr syms
        else
          bind_res (chk_add mem_base (of_nat sym_start)) (\<lambda>addr.
          bind_res (apply_offset addr (ks_value_offset sym)) (\<lambda>value_ptr.
          bind_res (symbol_name mem (unat name_idx)) (\<lambda>name.
          prel_symbols mem mem_base strings sym_size sym_start (syms(name \<mapsto> value_ptr)))))))"
  by pat_completeness auto
termination by (relation "measure (\<lambda>(_, _, _, _, ii, _). ii)") auto

declare legacy_symbols.simps [simp del] prel_symbols.simps [simp del]

definition get_kernel_symbols :: "bytes \<Rightarrow> usize \<Rightarrow> nrange \<Rightarrow> (bytes \<rightharpoonup> usize) res" where
  "get_kernel_symbols mem mem_base ksymtab_strings =
     bind_res (get_ksymtab_start mem mem_base ksymtab_strings) (\<lambda>r.
     bind_res (require_with r ''no ksymtab found'') (\<lambda>(start, sym_size).
     if sym_size = SIZE_KERNEL_SYMBOL_4_18 then
       bind_res (virt_range ksymtab_strings mem_base) (\<lambda>vr.
       legacy_symbols mem mem_base vr sym_size start Map.empty)
     else prel_symbols mem mem_base ksymtab_strings sym_size start Map.empty))"

section \<open>The kernel\<close>

record kernel =
  kn_range :: range
  kn_memory_sections :: "mapped_memory list"
  kn_symbols :: "bytes \<rightharpoonup> usize"
  kn_largest_gap :: range

definition space_before :: "kernel \<Rightarrow> usize res" where
  "space_before k = chk_sub (fst (kn_range k)) (fst LINUX_KERNEL_KASLR_RANGE)"

definition space_after :: "kernel \<Rightarrow> usize res" where
  "space_after k = chk_sub (snd LINUX_KERNEL_KASLR_RANGE) (snd (kn_range k))"

text \<open>The closure given to \<^verbatim>\<open>find_map\<close>: nothing, an error or symbols.\<close>

definition section_symbols ::
  "(usize \<Rightarrow> usize \<Rightarrow> bytes res) \<Rightarrow> mapped_memory \<Rightarrow> (bytes \<rightharpoonup> usize) res option res" where
  "section_symbols read_bytes s =
     (if mm_prot s \<noteq> PROT_READ then Inr None
      else
        bind_res (host_addr (mm_phys_start s)) (\<lambda>mem_base.
        case read_bytes mem_base (mm_len s) of
          Inl (Panic e) \<Rightarrow> Inl (Panic e)
        | Inl (Err e) \<Rightarrow> Inr (Some (Inl (Err (''failed to read linux kernel from hypervisor memory'' # e))))
        | Inr mem \<Rightarrow>
            (case find_ksymtab_strings_section mem of
               None \<Rightarrow> Inr None
             | Some strings_range \<Rightarrow>
                 bind_res (pa_add (mm_phys_start s) (of_nat (fst strings_range))) (\<lambda>_.
                 bind_res (nat_sub (snd strings_range) 1) (\<lambda>last.
                 bind_res (pa_add (mm_phys_start s) (of_nat last)) (\<lambda>_.
                 bind_res (slice_range mem (fst strings_range) (snd strings_range)) (\<lambda>_.
                 case get_kernel_symbols mem (mm_virt_start s) strings_range of
                   Inl (Panic e) \<Rightarrow> Inl (Panic e)
                 | Inl (Err e) \<Rightarrow> Inr (Some (Inl (Err (''failed to parse kernel symbols'' # e))))
                 | Inr syms \<Rightarrow> Inr (Some (Inr syms)))))))))"

fun find_map_res :: "('a \<Rightarrow> 'b option res) \<Rightarrow> 'a list \<Rightarrow> 'b option res" where
  "find_map_res f [] = Inr None"
| "find_map_res f (x # xs) = bind_res (f x) (\<lambda>r. case r of None \<Rightarrow> find_map_res f xs | Some y \<Rightarrow> Inr (Some y))"

definition find_kernel :: "reader \<Rightarrow> (usize \<Rightarrow> usize \<Rightarrow> bytes res) \<Rightarrow> guest_mem \<Rightarrow> kernel res" where
  "find_kernel rd read_bytes gm =
     bind_res (try_with (find_kernel_sections rd gm LINUX_KERNEL_KASLR_RANGE)
       ''could not find Linux kernel in VM memory'') (\<lambda>(memory_sections, largest_gap).
     if memory_sections = [] then bail ''no sections found''
     else
       let kernel_last = last memory_sections; kernel_start = mm_virt_start (hd memory_sections) in
       bind_res (chk_add (mm_virt_start kernel_last) (mm_len kernel_last)) (\<lambda>kernel_end.
       bind_res (find_map_res (section_symbols read_bytes) memory_sections) (\<lambda>found.
       bind_res (require_with found ''could not find section with kernel symbols'') (\<lambda>r.
       bind_res r (\<lambda>symbols.
       Inr \<lparr>kn_range = (kernel_start, kernel_end), kn_memory_sections = memory_sections,
            kn_symbols = symbols, kn_largest_gap = largest_gap\<rparr>)))))"

section \<open>The section with the names\<close>

lemma length_windows [simp]: "length (windows n xs) = Suc (length xs) - n"
  by (simp add: windows_def)

lemma nth_windows: "i < Suc (length xs) - n \<Longrightarrow> windows n xs ! i = take n (drop i xs)"
  by (simp add: windows_def)

text \<open>No name of the section can be at a position with two bytes that are not printable.\<close>

definition gap_at :: "bytes \<Rightarrow> nat \<Rightarrow> bool" where
  "gap_at mem j \<longleftrightarrow> not_printable (mem ! j) \<and> not_printable (mem ! Suc j)"

lemma gap_window_nth: "Suc i < length xs \<Longrightarrow> gap_window (windows 2 xs ! i) \<longleftrightarrow> gap_at xs i"
  by (simp add: nth_windows gap_window_def gap_at_def)

lemma forward_gap:
  assumes "position gap_window (windows 2 (drop idx mem)) = Some k"
  shows "idx + k + 1 < length mem" and "gap_at mem (idx + k)" and "\<forall>j. idx \<le> j \<and> j < idx + k \<longrightarrow> \<not> gap_at mem j"
proof -
  have k: "Suc k < length mem - idx" "gap_window (windows 2 (drop idx mem) ! k)"
    "\<forall>j<k. \<not> gap_window (windows 2 (drop idx mem) ! j)"
    using assms by (auto simp: position_Some_iff)
  have g: "gap_window (windows 2 (drop idx mem) ! j) \<longleftrightarrow> gap_at mem (idx + j)" if "j \<le> k" for j
    using that k(1) by (simp add: gap_window_nth gap_at_def)
  show "idx + k + 1 < length mem" "gap_at mem (idx + k)" using k g[of k] by auto
  show "\<forall>j. idx \<le> j \<and> j < idx + k \<longrightarrow> \<not> gap_at mem j"
    using k(3) g by (metis add_diff_cancel_left' le_add_diff_inverse less_imp_le nat_add_left_cancel_less)
qed

lemma backward_gap:
  assumes "position gap_window (rev (windows 2 (take idx mem))) = Some k" "idx \<le> length mem"
  shows "k + 2 \<le> idx" and "gap_at mem (idx - k - 2)" and "\<forall>j. idx - k - 2 < j \<and> j + 2 \<le> idx \<longrightarrow> \<not> gap_at mem j"
proof -
  let ?w = "windows 2 (take idx mem)"
  have len: "length ?w = idx - 1" using assms(2) by simp
  have k: "k < idx - 1" "gap_window (rev ?w ! k)" "\<forall>j<k. \<not> gap_window (rev ?w ! j)"
    using assms len by (auto simp: position_Some_iff)
  have g: "gap_window (rev ?w ! j) \<longleftrightarrow> gap_at mem (idx - j - 2)" if "j \<le> k" for j
  proof -
    have "rev ?w ! j = ?w ! (idx - j - 2)"
      using that k(1) len by (simp add: rev_nth numeral_2_eq_2 Suc_diff_Suc)
    then show ?thesis
      using that k(1) assms(2) gap_window_nth[of "idx - j - 2" "take idx mem"] by (simp add: gap_at_def)
  qed
  show "k + 2 \<le> idx" "gap_at mem (idx - k - 2)" using k g[of k] by auto
  show "\<forall>j. idx - k - 2 < j \<and> j + 2 \<le> idx \<longrightarrow> \<not> gap_at mem j"
  proof (intro allI impI)
    fix j assume j: "idx - k - 2 < j \<and> j + 2 \<le> idx"
    then have "idx - j - 2 < k" "idx - (idx - j - 2) - 2 = j" by auto
    then show "\<not> gap_at mem j" using k(3) g[of "idx - j - 2"] by auto
  qed
qed

lemma init_task_printable: "b \<in> set init_task \<Longrightarrow> \<not> not_printable b"
  by (auto simp: init_task_def not_printable_def)

lemma length_init_task: "length init_task = 9"
  by (simp add: init_task_def)

lemma find_subsequence_Some:
  "find_subsequence mem needle = Some idx \<Longrightarrow> take (length needle) (drop idx mem) = needle \<and> idx + length needle \<le> length mem"
  by (auto simp: find_subsequence_def position_Some_iff nth_windows)

lemma round_up_4: "4 dvd round_up n 4" "n \<le> round_up n 4" "round_up n 4 < n + 4"
  by (auto simp: round_up_def)

text \<open>
  The section of names found around \<^verbatim>\<open>init_task\<close> lies inside the memory, contains the whole name, is aligned to 4
  bytes, and is a maximal region without two adjacent bytes that are not printable: it starts within the 4 bytes after
  one such pair and ends with the first byte of the next pair.
\<close>

theorem ksymtab_strings_bounds:
  assumes "find_ksymtab_strings_section mem = Some (s, e)"
  shows "\<exists>idx b. take 9 (drop idx mem) = init_task \<and> 2 \<le> b \<and> b \<le> idx \<and> b \<le> s \<and> s < b + 4 \<and> 4 dvd s \<and>
    idx + 10 \<le> e \<and> e < length mem \<and> gap_at mem (b - 2) \<and> gap_at mem (e - 1) \<and>
    (\<forall>j. b - 2 < j \<and> j < e - 1 \<longrightarrow> \<not> gap_at mem j)"
proof -
  obtain idx p k where idx: "find_subsequence mem init_task = Some idx"
    and p: "position gap_window (rev (windows 2 (take idx mem))) = Some p"
    and k: "position gap_window (windows 2 (drop idx mem)) = Some k"
    and s: "s = round_up (idx - p) 4" and e: "e = idx + k + 1"
    using assms by (auto simp: find_ksymtab_strings_section_def Let_def split: option.splits)
  have it: "take 9 (drop idx mem) = init_task" "idx + 9 \<le> length mem"
    using find_subsequence_Some[OF idx] by (simp_all add: length_init_task)
  have pr: "\<not> not_printable (mem ! (idx + j))" if "j < 9" for j
  proof -
    have "mem ! (idx + j) = init_task ! j" using it that by (metis add_leE nth_drop nth_take)
    moreover have "init_task ! j \<in> set init_task" using that by (intro nth_mem) (simp add: length_init_task)
    ultimately show ?thesis using init_task_printable by simp
  qed
  note fw = forward_gap[OF k] and bw = backward_gap[OF p]
  have le: "idx \<le> length mem" using it(2) by simp
  have "9 \<le> k" using fw(2) pr[of k] by (meson gap_at_def not_le)
  moreover have "\<not> gap_at mem (idx - 1)" using pr[of 0] bw(1)[OF le] by (simp add: gap_at_def)
  then have "\<not> gap_at mem j" if "idx - p - 2 < j" "j < e - 1" for j
    using that fw(3) bw(3)[OF le] bw(1)[OF le] e
    by (cases "j + 2 \<le> idx"; cases "j = idx - 1") auto
  ultimately show ?thesis
    using it bw(1,2)[OF le] fw(1,2) round_up_4[of "idx - p"] s e
    by (intro exI[of _ idx] exI[of _ "idx - p"]) auto
qed

section \<open>The symbols\<close>

text \<open>
  What the symbol table means: each field of an entry is the distance of its target from the field itself. A
  table is read downwards from its end \<open>ii\<close> and is over at the first entry whose name is not in the section of names.
\<close>

definition prel_name :: "bytes \<Rightarrow> nat \<Rightarrow> int" where
  "prel_name mem a = int a + 4 + sint (ks_name_offset (cast_kernel_sym (drop a mem)))"

definition in_strings :: "nrange \<Rightarrow> int \<Rightarrow> bool" where
  "in_strings r z \<longleftrightarrow> int (fst r) \<le> z \<and> z < int (snd r)"

definition cstr_at :: "bytes \<Rightarrow> nat \<Rightarrow> bytes \<Rightarrow> bool" where
  "cstr_at mem i nm \<longleftrightarrow> 0 \<notin> set nm \<and> take (length nm + 1) (drop i mem) = nm @ [0]"

definition entry_of :: "bytes \<Rightarrow> usize \<Rightarrow> nrange \<Rightarrow> nat \<Rightarrow> bytes \<times> usize \<Rightarrow> bool" where
  "entry_of mem base r a e \<longleftrightarrow>
     in_strings r (prel_name mem a) \<and> cstr_at mem (nat (prel_name mem a)) (fst e) \<and>
     (let off = ks_value_offset (cast_kernel_sym (drop a mem)) in
      sint off \<le> 0 \<longrightarrow> snd e = base + of_nat a + scast off)"

fun table_at :: "bytes \<Rightarrow> usize \<Rightarrow> nrange \<Rightarrow> nat \<Rightarrow> nat \<Rightarrow> (bytes \<times> usize) list \<Rightarrow> bool" where
  "table_at mem base r sz ii [] \<longleftrightarrow> sz \<le> ii \<and> \<not> in_strings r (prel_name mem (ii - sz))"
| "table_at mem base r sz ii (e # es) \<longleftrightarrow>
     sz \<le> ii \<and> entry_of mem base r (ii - sz) e \<and> table_at mem base r sz (ii - sz) es"

lemma cast_take: "8 \<le> n \<Longrightarrow> cast_kernel_sym (take n xs) = cast_kernel_sym xs"
  by (simp add: cast_kernel_sym_def field_def drop_take)

lemma symbol_name_Inr: "symbol_name mem i = Inr nm \<Longrightarrow> cstr_at mem i nm"
proof -
  assume "symbol_name mem i = Inr nm"
  then obtain len where len: "position (\<lambda>c. c = 0) (drop i mem) = Some len"
    and nm: "nm = butlast (take (len + 1) (drop i mem))"
    by (auto simp: symbol_name_def res_simps split: if_splits)
  have l: "len < length (drop i mem)" "drop i mem ! len = 0" "\<forall>j<len. drop i mem ! j \<noteq> 0"
    using len by (auto simp: position_Some_iff)
  then have tk: "take (len + 1) (drop i mem) = take len (drop i mem) @ [0]"
    by (simp add: take_Suc_conv_app_nth)
  then have "nm = take len (drop i mem)" using nm by simp
  then show ?thesis
    using l tk by (auto simp: cstr_at_def in_set_conv_nth)
qed

lemma sint_uminus: "sint (- (off :: 32 word)) = signed_take_bit 31 (- sint off)"
  by transfer (simp add: signed_take_bit_minus)

lemma sint_min:
  assumes "sint (off :: 32 word) = - (2 ^ 31)"
  shows "off = 0x80000000"
proof -
  have "off = word_of_int (sint off)" by simp
  also have "\<dots> = 0x80000000" unfolding assms by code_simp
  finally show ?thesis .
qed

lemma scast_uminus:
  assumes "(off :: 32 word) \<noteq> 0x80000000"
  shows "(scast (- off) :: usize) = - scast off"
proof -
  have "sint off \<noteq> - (2 ^ 31)" using assms sint_min by blast
  then have "signed_take_bit 31 (- sint off) = - sint off"
    using sint_ge[of off] sint_lt[of off] by (intro signed_take_bit_int_eq_self) simp_all
  then show ?thesis by (simp only: scast_eq sint_uminus wi_hom_neg)
qed

lemma apply_offset_Inr:
  assumes "apply_offset addr off = Inr v" "sint off \<le> 0"
  shows "v = addr + scast off"
proof (cases "sint off = 0")
  case True
  then have "off = 0" by (metis signed_0 signed_word_eqI)
  then show ?thesis using assms(1) by (auto simp: apply_offset_def res_simps)
next
  case False
  then have "off <s 0" using assms(2) by (simp add: word_sless_alt)
  then have "off \<noteq> 0x80000000" "v = addr - scast (- off)"
    using assms(1) by (auto simp: apply_offset_def res_simps split: if_splits)
  then show ?thesis by (simp add: scast_uminus)
qed

text \<open>The index of a name computed with checks for overflow, against the position meant.\<close>

definition name_idx :: "nat \<Rightarrow> 32 word \<Rightarrow> usize option" where
  "name_idx a off = Option.bind (checked_add (of_nat a) 4) (\<lambda>s. checked_add s (scast off))"

lemma uint_sext: "uint (scast (off :: 32 word) :: usize) = (if 0 \<le> sint off then sint off else 2 ^ 64 + sint off)"
proof -
  have m: "uint (scast off :: usize) = sint off mod 2 ^ 64" by (simp only: scast_eq uint_word_of_int len_num0 len_bit0 len_num1)  simp
  have b: "- (2 ^ 31) \<le> sint off" "sint off < 2 ^ 31" using sint_ge[of off] sint_lt[of off] by simp_all
  show ?thesis
  proof (cases "0 \<le> sint off")
    case True
    then show ?thesis using b by (simp add: m)
  next
    case False
    have "sint off mod 2 ^ 64 = (sint off + 2 ^ 64) mod 2 ^ 64" by (rule mod_add_self2[symmetric])
    also have "\<dots> = sint off + 2 ^ 64" using b False by (intro mod_pos_pos_trivial) simp_all
    finally show ?thesis using False by (simp add: m)
  qed
qed

lemma of_nat_idx:
  assumes "a + 4 \<le> n" "n < 2 ^ 63"
  shows "uint (of_nat a :: usize) = int a" and "uint (of_nat a + 4 :: usize) = int a + 4"
proof -
  have b: "a < 2^64" "int a + 4 < 2^64" using assms by simp_all
  have "uint (of_nat a :: usize) = int (take_bit 64 a)" by (simp add: unsigned_of_nat of_nat_take_bit)
  then show u: "uint (of_nat a :: usize) = int a" using take_bit_nat_eq_self[OF b(1)] by simp
  have "uint (of_nat a :: usize) + uint (4 :: usize) < 2 ^ LENGTH(64)" using b(2) u by simp
  then show "uint (of_nat a + 4 :: usize) = int a + 4" using u uint_add_lem[of "of_nat a :: usize" 4] by simp
qed

lemma name_idx_alt:
  assumes "a + 4 \<le> n" "n < 2 ^ 63"
  shows "name_idx a off = (if int a + 4 + uint (scast off :: usize) < 2 ^ 64 then Some (of_nat a + 4 + scast off) else None)"
    using of_nat_idx[OF assms] assms by (simp add: name_idx_def checked_add_def)

lemma name_idx_uint:
  assumes "a + 4 \<le> n" "n < 2 ^ 63" "name_idx a off = Some i"
  shows "uint i = int a + 4 + uint (scast off :: usize)"
proof -
  have "int a + 4 + uint (scast off :: usize) < 2 ^ 64" "i = of_nat a + 4 + scast off"
    using assms(3) by (auto simp: name_idx_alt[OF assms(1,2)] split: if_splits)
  then show ?thesis using uint_add_lem[of "of_nat a + 4 :: usize" "scast off"] of_nat_idx[OF assms(1,2)] by simp
qed

lemma in_range_uint: "in_range r i \<longleftrightarrow> in_strings r (uint i)"
proof -
  have "int (unat i) = uint i" by simp
  then show ?thesis unfolding in_range_def in_strings_def by linarith
qed

lemma name_idx_in_range:
  assumes "a + 4 \<le> fst r" "fst r < 2 ^ 63" "snd r < 2 ^ 63"
  shows "name_idx a off = Some i \<Longrightarrow> in_range r i \<Longrightarrow> uint i = int a + 4 + sint off"
    and "(\<exists>i. name_idx a off = Some i \<and> in_range r i) \<longleftrightarrow> in_strings r (int a + 4 + sint off)"
proof -
  note u = name_idx_uint[OF assms(1,2)] and alt = name_idx_alt[OF assms(1,2)]
  have r: "int (fst r) < 2 ^ 63" "int (snd r) < 2 ^ 63" "int a + 4 \<le> int (fst r)" using assms by simp_all
  have off: "- (2 ^ 31) \<le> sint off" "sint off < 2 ^ 31" using sint_ge[of off] sint_lt[of off] by simp_all
  show idx: "uint i = int a + 4 + sint off" if "name_idx a off = Some i" "in_range r i" for i
  proof -
    have i: "uint i = int a + 4 + uint (scast off :: usize)" "uint i < int (snd r)"
      using u[OF that(1)] that(2) by (simp_all only: in_range_uint in_strings_def)
    have "0 \<le> sint off"
    proof (rule ccontr)
      assume "\<not> 0 \<le> sint off"
      then have "uint i = int a + 4 + (2 ^ 64 + sint off)" using i(1) by (simp only: uint_sext if_False)
      then show False using i(2) r off by simp
    qed
    then show ?thesis using i(1) by (simp only: uint_sext if_True)
  qed
  show "(\<exists>i. name_idx a off = Some i \<and> in_range r i) \<longleftrightarrow> in_strings r (int a + 4 + sint off)"
  proof
    assume "\<exists>i. name_idx a off = Some i \<and> in_range r i"
    then obtain i where i: "name_idx a off = Some i" "in_range r i" by blast
    show "in_strings r (int a + 4 + sint off)" using idx[OF i] i(2) by (simp only: in_range_uint)
  next
    assume h: "in_strings r (int a + 4 + sint off)"
    then have nn: "0 \<le> sint off" using r unfolding in_strings_def by linarith
    then have ux: "uint (scast off :: usize) = sint off" by (simp only: uint_sext if_True)
    have "int a + 4 + sint off < 2 ^ 64" using h r by (simp add: in_strings_def)
    then have "int a + 4 + uint (scast off :: usize) < 2 ^ 64" by (simp only: ux)
    then obtain i where i: "name_idx a off = Some i" by (simp only: alt if_True)
    have "uint i = int a + 4 + sint off" using u[OF i] ux by (simp only:)
    then have "in_range r i" using h by (simp only: in_range_uint)
    then show "\<exists>i. name_idx a off = Some i \<and> in_range r i" using i by blast
  qed
qed

lemma case_option_bind:
  "(case Option.bind m f of None \<Rightarrow> z | Some i \<Rightarrow> g i) =
     (case m of None \<Rightarrow> z | Some s \<Rightarrow> case f s of None \<Rightarrow> z | Some i \<Rightarrow> g i)"
  by (cases m) auto

lemma prel_symbols_step:
  "prel_symbols mem base r sz ii syms =
     (if sz = 0 then panic ''assertion failed: step != 0''
      else if ii < sz then panic ''attempt to subtract with overflow''
      else
        bind_res (slice_range mem (ii - sz) ii) (\<lambda>bs.
        case name_idx (ii - sz) (ks_name_offset (cast_kernel_sym bs)) of
          None \<Rightarrow> Inr syms
        | Some i \<Rightarrow>
            if \<not> in_range r i then Inr syms
            else
              bind_res (chk_add base (of_nat (ii - sz))) (\<lambda>addr.
              bind_res (apply_offset addr (ks_value_offset (cast_kernel_sym bs))) (\<lambda>v.
              bind_res (symbol_name mem (unat i)) (\<lambda>name.
              prel_symbols mem base r sz (ii - sz) (syms(name \<mapsto> v)))))))"
  by (subst prel_symbols.simps) (simp only: name_idx_def Let_def case_option_bind)

lemma prel_symbols_table:
  assumes "prel_symbols mem base r sz ii syms = Inr syms'"
    and "8 \<le> sz" "ii \<le> fst r" "fst r < 2 ^ 63" "snd r < 2 ^ 63"
  shows "\<exists>es. table_at mem base r sz ii es \<and> syms' = syms ++ map_of (rev es)"
  using assms
proof (induction ii arbitrary: syms rule: less_induct)
  case (less ii)
  have le: "sz \<le> ii" and sl: "ii \<le> length mem"
    and bs: "slice_range mem (ii - sz) ii = Inr (take sz (drop (ii - sz) mem))"
    using less.prems(1,2) by (auto simp: prel_symbols_step res_simps split: if_splits)
  let ?sym = "cast_kernel_sym (drop (ii - sz) mem)"
  have cs: "cast_kernel_sym (take sz (drop (ii - sz) mem)) = ?sym" using less.prems(2) by (rule cast_take)
  have a4: "(ii - sz) + 4 \<le> fst r" using le less.prems(2,3) by simp
  note ni = name_idx_in_range[OF a4 less.prems(4,5), of "ks_name_offset ?sym", folded prel_name_def]
  show ?case
  proof (cases "in_strings r (prel_name mem (ii - sz))")
    case False
    then have "\<not> (\<exists>i. name_idx (ii - sz) (ks_name_offset ?sym) = Some i \<and> in_range r i)"
      using ni(2) by (simp add: prel_name_def)
    then have "syms' = syms"
      using less.prems(1,2) le by (auto simp: prel_symbols_step[of mem base r sz ii] bs cs split: option.splits if_splits)
    then show ?thesis using le False by (intro exI[of _ "[]"]) simp
  next
    case True
    then obtain i where i: "name_idx (ii - sz) (ks_name_offset ?sym) = Some i" "in_range r i"
      using ni(2) by (auto simp: prel_name_def)
    obtain addr v nm where ad: "chk_add base (of_nat (ii - sz)) = Inr addr" "apply_offset addr (ks_value_offset ?sym) = Inr v"
      and nm: "symbol_name mem (unat i) = Inr nm"
      and rec: "prel_symbols mem base r sz (ii - sz) (syms(nm \<mapsto> v)) = Inr syms'"
      using less.prems(1,2) le i by (auto simp: prel_symbols_step[of mem base r sz ii] bs cs bind_res_Inr)
    obtain es where es: "table_at mem base r sz (ii - sz) es" "syms' = syms(nm \<mapsto> v) ++ map_of (rev es)"
    proof -
      have "ii - sz < ii" "ii - sz \<le> fst r" using less.prems(2,3) le by simp_all
      from less.IH[OF this(1) rec less.prems(2) this(2) less.prems(4,5)] that show thesis by blast
    qed
    have "unat i = nat (uint i)" by simp
    then have "unat i = nat (prel_name mem (ii - sz))" using ni(1)[OF i] by (simp only: prel_name_def)
    then have "entry_of mem base r (ii - sz) (nm, v)"
      using True symbol_name_Inr[OF nm] apply_offset_Inr[OF ad(2)] chk_add_eq_wrap[OF ad(1)] by (simp add: entry_of_def Let_def)
    then show ?thesis using le es by (intro exI[of _ "(nm, v) # es"]) (simp add: map_add_assoc)
  qed
qed

lemma sym_size_at_Some: "sym_size_at mem base r ii = Inr (Some sz) \<Longrightarrow> sz \<in> {8, 12, 16}"
  by (auto simp: sym_size_at_def check_kernel_sym_def check_kernel_sym_legacy_def SIZE_KERNEL_SYMBOL_def
      SIZE_KERNEL_SYMBOL_5_3_def SIZE_KERNEL_SYMBOL_4_18_def bind_res_Inr Let_def split: if_splits option.splits)

lemma ksymtab_scan_Some:
  "ksymtab_scan mem base r ii = Inr (Some (start, sz)) \<Longrightarrow> start \<le> ii \<and> sz \<in> {8, 12, 16}"
proof (induction ii rule: less_induct)
  case (less ii)
  note scan = less.prems[unfolded ksymtab_scan.simps[of mem base r ii]]
  obtain x where x: "sym_size_at mem base r ii = Inr x"
    using scan by (auto simp: bind_res_Inr)
  show ?case
  proof (cases x)
    case None
    then have "4 \<le> ii" "ksymtab_scan mem base r (ii - 4) = Inr (Some (start, sz))"
      using scan x by (simp_all split: if_splits)
    then show ?thesis using less.IH[of "ii - 4"] by auto
  next
    case (Some y)
    then have "start = ii" "sz = y" using scan x by simp_all
    then show ?thesis using sym_size_at_Some x Some by blast
  qed
qed


section \<open>An example\<close>

text \<open>A section with the symbols \<^verbatim>\<open>pq\<close> and \<^verbatim>\<open>init_task\<close>.\<close>

definition kernel_ex :: bytes where
  "kernel_ex = replicate 12 0 @
     word_bytes 4 (- 8 :: 32 word) @ word_bytes 4 (20 :: 32 word) @ replicate 4 0 @
     word_bytes 4 (- 16 :: 32 word) @ word_bytes 4 (11 :: 32 word) @ replicate 4 0 @
     [0x70, 0x71, 0] @ init_task @ [0, 0, 0]"

lemma kernel_ex_strings: "find_ksymtab_strings_section kernel_ex = Some (36, 49)"
  by code_simp

lemma kernel_ex_start: "get_ksymtab_start kernel_ex 0xFFFFFFFF81000000 (36, 49) = Inr (Some (36, 12))"
  by code_simp

lemma kernel_ex_run:
  "(case get_kernel_symbols kernel_ex 0xFFFFFFFF81000000 (36, 49) of
      Inr syms \<Rightarrow> syms init_task = Some 0xFFFFFFFF81000008 | Inl e \<Rightarrow> False)"
  by code_simp

theorem ksymtab_strings_bounds_witness:
  "\<exists>idx. take 9 (drop idx kernel_ex) = init_task \<and> idx + 10 \<le> 49 \<and> gap_at kernel_ex 48 \<and> 49 < length kernel_ex"
proof -
  obtain idx where "take 9 (drop idx kernel_ex) = init_task" "idx + 10 \<le> 49" "49 < length kernel_ex" "gap_at kernel_ex (49 - 1)"
    using ksymtab_strings_bounds[OF kernel_ex_strings] by (elim exE conjE)
  then show ?thesis by (intro exI[of _ idx]) simp
qed


text \<open>A positive offset, as that of a variable behind the table, is subtracted as well.\<close>

lemma positive_offset_subtracted: "apply_offset 0x2000 0x10 = Inr 0x1ff0"
  by code_simp

end
