(* ===== verification/Loader.thy ===== *)
theory Loader
  imports Phys_Alloc Kernel
begin

text \<open>
  \<^verbatim>\<open>src/loader.rs\<close>: loading the stage 1 binary into the guest. What the crates \<^verbatim>\<open>elfloader\<close> and \<^verbatim>\<open>xmas_elf\<close> read from the binary is
  an argument: the sections with the symbols, and the callbacks \<^verbatim>\<open>load\<close> makes on the loader, in order.
\<close>

datatype binding = Weak | OtherBinding

record elf_sym =
  es_name :: "bytes res"
  es_shndx :: u16
  es_value :: u64

record dyn_sym =
  ds_binding :: "binding res"
  ds_name :: "bytes res"

datatype section_data = DynSymbolTable64 "dyn_sym list" | SymbolTable64 "elf_sym list" | OtherSection

record elf_header =
  eh_virtual_addr :: u64
  eh_mem_size :: u64
  eh_execute :: bool
  eh_write :: bool

datatype reloc_type = R_AMD64_RELATIVE | R_AMD64_GLOB_DAT | OtherReloc

record reloc_entry =
  re_rtype :: reloc_type
  re_offset :: u64
  re_index :: u32
  re_addend :: "u64 option"

datatype elf_call = Allocate "elf_header list" | Load u64 bytes | Relocate reloc_entry

record elf_file =
  ef_section :: "string \<Rightarrow> section_data res option"
  ef_calls :: "elf_call list"

record loadable =
  ld_content :: bytes
  ld_mapping :: mapped_memory
  ld_virt_offset :: usize

record loader =
  lo_kernel :: kernel
  lo_virt_mem :: "(phys_mem \<times> virt_mem) option"
  lo_load_offsets :: "usize list"
  lo_loadables :: "loadable list"
  lo_binary :: bytes
  lo_lib_syms :: "bytes \<rightharpoonup> usize"
  lo_dyn_syms :: "dyn_sym list"
  lo_vmsh_stage1_args :: usize
  lo_string_arg_size :: usize
  lo_init_func :: usize

definition ascii :: "string \<Rightarrow> bytes" where
  "ascii s = map of_char s"

fun find_loadable :: "loadable list \<Rightarrow> usize \<Rightarrow> nat option res" where
  "find_loadable [] addr = Inr None"
| "find_loadable (l # ls) addr =
     bind_res (mm_contains (ld_mapping l) addr) (\<lambda>b.
     if b then Inr (Some 0) else bind_res (find_loadable ls addr) (\<lambda>r. Inr (map_option Suc r)))"

definition SHN_UNDEF :: u16 where "SHN_UNDEF = 0"

fun collect_syms :: "usize \<Rightarrow> elf_sym list \<Rightarrow> (bytes \<rightharpoonup> usize) \<Rightarrow> (bytes \<rightharpoonup> usize) res" where
  "collect_syms vbase [] m = Inr m"
| "collect_syms vbase (s # ss) m =
     (if es_shndx s = SHN_UNDEF then collect_syms vbase ss m
      else
        bind_res (try_with (es_name s) ''cannot get name of function'') (\<lambda>name.
        bind_res (chk_add vbase (es_value s)) (\<lambda>v. collect_syms vbase ss (m(name \<mapsto> v)))))"

definition loader_new :: "(bytes \<Rightarrow> elf_file res) \<Rightarrow> bytes \<Rightarrow> kernel \<Rightarrow> usize \<Rightarrow> loader res" where
  "loader_new elf_binary binary kern return_address =
     bind_res (try_with (elf_binary binary) ''cannot parse elf binary'') (\<lambda>elf.
     bind_res (require_with (ef_section elf ''.dynsym'') ''binary has no .dynsym section'') (\<lambda>d.
     bind_res d (\<lambda>dyn_symbol_table.
     case dyn_symbol_table of
       DynSymbolTable64 dyn_syms \<Rightarrow>
         bind_res (require_with (ef_section elf ''.symtab'') ''binary has no .symtab section'') (\<lambda>t.
         bind_res t (\<lambda>symbol_table.
         case symbol_table of
           SymbolTable64 sym_entries \<Rightarrow>
             bind_res (collect_syms (fst (kn_largest_gap kern)) sym_entries Map.empty) (\<lambda>syms0.
             let syms = syms0(ascii ''VMSH_STAGE1_PC'' \<mapsto> return_address) in
             bind_res (require_with (syms (ascii ''_init_vmsh'')) ''no _init_vmsh symbol found'') (\<lambda>init_func.
             bind_res (require_with (syms (ascii ''VMSH_STAGE1_ARGS'')) ''no cleanup_vmsh_stage1 symbol found'') (\<lambda>args.
             Inr \<lparr>lo_kernel = kern, lo_virt_mem = None, lo_load_offsets = [], lo_loadables = [], lo_binary = binary,
                  lo_lib_syms = syms, lo_dyn_syms = dyn_syms, lo_vmsh_stage1_args = args, lo_string_arg_size = 0,
                  lo_init_func = init_func\<rparr>)))
         | _ \<Rightarrow> bail ''expected .symtab to be a SymbolTable64''))
     | _ \<Rightarrow> bail ''expected .dynsym to be a DynSymbolTable64'')))"

definition vbase :: "loader \<Rightarrow> usize" where
  "vbase lo = fst (kn_largest_gap (lo_kernel lo))"

definition resolve_symbol :: "bytes \<Rightarrow> (bytes \<rightharpoonup> usize) \<Rightarrow> (bytes \<rightharpoonup> usize) \<Rightarrow> usize option" where
  "resolve_symbol name syms lib_syms =
     (case syms name of
        Some v \<Rightarrow> Some v
      | None \<Rightarrow>
          (case lib_syms name of
             Some v \<Rightarrow> Some v
           | None \<Rightarrow>
               if name = ascii ''usleep_range_state'' then syms (ascii ''usleep_range'')
               else if name = ascii ''_printk'' then syms (ascii ''printk'')
               else None))"

section \<open>Callbacks of the ELF loader\<close>

definition header_alloc :: "usize \<Rightarrow> elf_header \<Rightarrow> virt_alloc_req res" where
  "header_alloc vb h =
     (let prot = PROT_READ;
          prot = (if eh_execute h then prot OR PROT_EXEC else prot);
          prot = (if eh_write h then prot OR PROT_WRITE else prot);
          virtual_addr = eh_virtual_addr h;
          start = page_start virtual_addr in
      bind_res (chk_add vb start) (\<lambda>virt_start.
      bind_res (chk_sub virtual_addr start) (\<lambda>virt_offset.
      bind_res (chk_add virtual_addr (eh_mem_size h)) (\<lambda>e.
      bind_res (page_align e) (\<lambda>ae.
      bind_res (chk_sub ae start) (\<lambda>len.
      Inr \<lparr>va_virt_start = virt_start, va_virt_offset = virt_offset, va_len = len, va_prot = prot\<rparr>))))))"

definition plan_allocs :: "loader \<Rightarrow> elf_header list \<Rightarrow> virt_alloc_req list res" where
  "plan_allocs lo headers =
     bind_res (map_res (header_alloc (vbase lo)) headers) (\<lambda>unsorted.
     let allocs = sort_key va_virt_start unsorted in
     if allocs = [] then bail ''elf has no section''
     else
       bind_res (va_virt_end (last allocs)) (\<lambda>last_addr.
       bind_res (chk_add last_addr (lo_string_arg_size lo)) (\<lambda>e.
       if \<not> (fst LINUX_KERNEL_KASLR_RANGE \<le> e \<and> e < snd LINUX_KERNEL_KASLR_RANGE)
       then bail ''virtual memory allocation does not fit into kernel aslr range''
       else Inr (allocs @ [\<lparr>va_virt_start = last_addr, va_virt_offset = 0, va_len = lo_string_arg_size lo,
                           va_prot = PROT_READ OR PROT_WRITE\<rparr>]))))"

text \<open>Dropping a \<^verbatim>\<open>VirtMem\<close>: the old page tables are written back, then the memory is removed.\<close>

definition drop_virt ::
  "'w os \<Rightarrow> kvm_userspace_memory_region codec \<Rightarrow> 'w writer \<Rightarrow> thread_id \<Rightarrow> (phys_mem \<times> virt_mem) option
    \<Rightarrow> ('w \<times> hypervisor, unit) io" where
  "drop_virt os c wr me m =
     (case m of
        None \<Rightarrow> ret ()
      | Some (pm, vm) \<Rightarrow>
          bind_io (on_fst (\<lambda>w. Some (virt_mem_drop wr vm w, Inr ()))) (\<lambda>_.
          bind_io get_st (\<lambda>(_, h). on_fst (phys_mem_drop os c me (hv_tracee h) pm))))"

definition elf_error :: "('w, 'a) io \<Rightarrow> string \<Rightarrow> ('w, 'a) io" where
  "elf_error m msg = bind_io (attempt m) (\<lambda>r. lift_res (case r of Inl (Err _) \<Rightarrow> bail msg | _ \<Rightarrow> r))"

definition lo_allocate ::
  "'w os \<Rightarrow> 'w kenv \<Rightarrow> kvm_userspace_memory_region codec \<Rightarrow> ('w \<Rightarrow> reader) \<Rightarrow> 'w writer
    \<Rightarrow> (page_table list \<Rightarrow> page_table list) \<Rightarrow> thread_id \<Rightarrow> elf_header list
    \<Rightarrow> ((('w \<times> hypervisor) \<times> phys_mem_allocator) \<times> loader, unit) io" where
  "lo_allocate os env c rd wr ord me headers =
     bind_io get_st (\<lambda>(_, lo).
     bind_io (lift_res (plan_allocs lo headers)) (\<lambda>allocs.
     bind_io (elf_error (on_fst (virt_alloc os env c rd wr ord me allocs)) ''cannot allocate memory'') (\<lambda>m.
     bind_io (on_fst (on_fst (drop_virt os c wr me (lo_virt_mem lo)))) (\<lambda>_.
     upd_snd (\<lambda>lo. lo\<lparr>lo_virt_mem := Some m, lo_load_offsets := map va_virt_offset allocs\<rparr>)))))"

definition lo_load :: "u64 \<Rightarrow> bytes \<Rightarrow> loader \<Rightarrow> loader res" where
  "lo_load base region lo =
     bind_res (chk_add (vbase lo) base) (\<lambda>start.
     bind_res (chk_add start (of_nat (length region))) (\<lambda>_.
     bind_res (require_with (lo_virt_mem lo) ''BUG: no virtual memory was allocated'') (\<lambda>(_, mem).
     bind_res (require_with (position (\<lambda>m. mm_virt_start m = page_start start) (vm_mappings mem))
       ''BUG: received loadable that was not allocated before'') (\<lambda>idx.
     bind_res (index_res (lo_load_offsets lo) idx) (\<lambda>off.
     Inr (lo\<lparr>lo_loadables := lo_loadables lo @
       [\<lparr>ld_content = region, ld_mapping = vm_mappings mem ! idx, ld_virt_offset = off\<rparr>]\<rparr>))))))"

text \<open>\<^verbatim>\<open>content[start..start + 8].copy_from_slice(..)\<close>\<close>

definition put_bytes :: "nat \<Rightarrow> bytes \<Rightarrow> bytes \<Rightarrow> bytes res" where
  "put_bytes start bs content =
     bind_res (slice_range content start (start + length bs)) (\<lambda>_.
     Inr (take start content @ bs @ drop (start + length bs) content))"

definition patch :: "nat \<Rightarrow> usize \<Rightarrow> usize \<Rightarrow> loader \<Rightarrow> loader res" where
  "patch i start dest lo =
     (let l = lo_loadables lo ! i in
      bind_res (put_bytes (unat start) (word_bytes 8 dest) (ld_content l)) (\<lambda>bs.
      Inr (lo\<lparr>lo_loadables := (lo_loadables lo)[i := l\<lparr>ld_content := bs\<rparr>]\<rparr>)))"

definition lo_relocate :: "reloc_entry \<Rightarrow> loader \<Rightarrow> loader res" where
  "lo_relocate entry lo =
     bind_res (chk_add (vbase lo) (re_offset entry)) (\<lambda>addr.
     bind_res (find_loadable (lo_loadables lo) addr) (\<lambda>found.
     bind_res (require_with found ''no loadable found for relocation address'') (\<lambda>i.
     let l = lo_loadables lo ! i in
     bind_res (chk_add (mm_virt_start (ld_mapping l)) (ld_virt_offset l)) (\<lambda>base.
     bind_res (chk_sub addr base) (\<lambda>start.
     case re_rtype entry of
       R_AMD64_RELATIVE \<Rightarrow>
         bind_res (require_with (re_addend entry) ''UnsupportedRelocationEntry'') (\<lambda>addend.
         bind_res (chk_add (vbase lo) addend) (\<lambda>dest_addr. patch i start dest_addr lo))
     | R_AMD64_GLOB_DAT \<Rightarrow>
         bind_res (require_with (re_addend entry) ''UnsupportedRelocationEntry'') (\<lambda>addend.
         bind_res (index_res (lo_dyn_syms lo) (unat (re_index entry))) (\<lambda>sym.
         bind_res (ds_binding sym) (\<lambda>b.
         if b = Weak then Inr lo
         else
           bind_res (ds_name sym) (\<lambda>sym_name.
           bind_res (require_with (resolve_symbol sym_name (kn_symbols (lo_kernel lo)) (lo_lib_syms lo))
             ''cannot find symbol'') (\<lambda>symbol.
           bind_res (chk_add symbol addend) (\<lambda>dest_addr. patch i start dest_addr lo))))))
     | OtherReloc \<Rightarrow> bail ''UnsupportedRelocationEntry'')))))"

text \<open>\<open>binary.load(self)\<close> makes the callbacks and stops at the first error.\<close>

definition on_loader :: "(loader \<Rightarrow> loader res) \<Rightarrow> ('s \<times> loader, unit) io" where
  "on_loader f = bind_io get_st (\<lambda>(_, lo). bind_io (lift_res (f lo)) (\<lambda>lo'. upd_snd (\<lambda>_. lo')))"

fun elf_callback ::
  "'w os \<Rightarrow> 'w kenv \<Rightarrow> kvm_userspace_memory_region codec \<Rightarrow> ('w \<Rightarrow> reader) \<Rightarrow> 'w writer
    \<Rightarrow> (page_table list \<Rightarrow> page_table list) \<Rightarrow> thread_id \<Rightarrow> elf_call
    \<Rightarrow> ((('w \<times> hypervisor) \<times> phys_mem_allocator) \<times> loader, unit) io" where
  "elf_callback os env c rd wr ord me (Allocate headers) = lo_allocate os env c rd wr ord me headers"
| "elf_callback os env c rd wr ord me (Load base region) = on_loader (lo_load base region)"
| "elf_callback os env c rd wr ord me (Relocate entry) = on_loader (lo_relocate entry)"

section \<open>Arguments of stage 1\<close>

definition MAX_DEVICES :: nat where "MAX_DEVICES = 3"
definition MAX_ARGV :: nat where "MAX_ARGV = 256"

datatype device_state = Undefined | Initializing | Ready | Terminating | DevError

primrec device_state_nr :: "device_state \<Rightarrow> u32" where
  "device_state_nr Undefined = 0"
| "device_state_nr Initializing = 1"
| "device_state_nr Ready = 2"
| "device_state_nr Terminating = 3"
| "device_state_nr DevError = 4"

text \<open>Offsets of the fields of \<^verbatim>\<open>Stage1Args\<close> and its size, as laid out by \<^verbatim>\<open>repr(C)\<close>.\<close>

definition ARGS_DEVICE_ADDRS :: nat where "ARGS_DEVICE_ADDRS = 0"
definition ARGS_ARGV :: nat where "ARGS_ARGV = 8 * MAX_DEVICES"
definition ARGS_IRQ_NUM :: nat where "ARGS_IRQ_NUM = ARGS_ARGV + 8 * MAX_ARGV"
definition ARGS_DEVICE_STATUS :: nat where "ARGS_DEVICE_STATUS = ARGS_IRQ_NUM + 8"
definition ARGS_DRIVER_STATUS :: nat where "ARGS_DRIVER_STATUS = ARGS_DEVICE_STATUS + 4"
definition SIZE_STAGE1_ARGS :: nat where "SIZE_STAGE1_ARGS = ARGS_DRIVER_STATUS + 4"

text \<open>The strings, one after the other with a byte 0 each, and their addresses.\<close>

fun layout_strings :: "usize \<Rightarrow> bytes list \<Rightarrow> bytes \<Rightarrow> (bytes \<times> usize list) res" where
  "layout_strings virt_start [] strings = Inr (strings, [])"
| "layout_strings virt_start (arg # args) strings =
     bind_res (chk_add (of_nat (length strings)) virt_start) (\<lambda>ptr.
     bind_res (layout_strings virt_start args (strings @ arg @ [0])) (\<lambda>(all, ptrs). Inr (all, ptr # ptrs)))"

text \<open>The fields of the structure written into the section, whose bytes before \<open>start\<close> and after the structure stay.\<close>

definition set_stage1_args :: "nat \<Rightarrow> usize list \<Rightarrow> usize list \<Rightarrow> usize \<Rightarrow> bytes \<Rightarrow> bytes res" where
  "set_stage1_args start argv mmio_ranges irq_num content =
     (if MAX_ARGV < length argv then panic ''range end index out of range for slice''
      else
        bind_res (put_bytes (start + ARGS_ARGV) (concat (map (word_bytes 8) argv)) content) (\<lambda>content.
        if MAX_DEVICES < length mmio_ranges then panic ''range end index out of range for slice''
        else
          bind_res (put_bytes (start + ARGS_DEVICE_ADDRS) (concat (map (word_bytes 8) mmio_ranges)) content) (\<lambda>content.
          bind_res (put_bytes (start + ARGS_DEVICE_STATUS) (word_bytes 4 (device_state_nr Initializing)) content) (\<lambda>content.
          put_bytes (start + ARGS_IRQ_NUM) (word_bytes 8 irq_num) content))))"

definition write_stage1_args ::
  "bytes list \<Rightarrow> usize \<Rightarrow> u64 list \<Rightarrow> loader \<Rightarrow> (loader \<times> usize \<times> usize) res" where
  "write_stage1_args command irq_num mmio_ranges lo =
     bind_res (require_with (lo_virt_mem lo) ''no virtual memory assigned'') (\<lambda>(_, virt_mem).
     bind_res (if vm_mappings virt_mem = [] then bail ''no virtual mappings found'' else Inr (last (vm_mappings virt_mem)))
       (\<lambda>string_mapping.
     bind_res (layout_strings (mm_virt_start string_mapping) command []) (\<lambda>(strings, ptrs).
     let loadables = lo_loadables lo @ [\<lparr>ld_content = strings, ld_mapping = string_mapping, ld_virt_offset = 0\<rparr>];
         argv = ptrs @ [0];
         addr = lo_vmsh_stage1_args lo in
     bind_res (find_loadable loadables addr) (\<lambda>found.
     bind_res (require_with found ''could not find elf loadable for vmsh_stage1_args'') (\<lambda>i.
     let l = loadables ! i in
     bind_res (chk_add (mm_virt_start (ld_mapping l)) (ld_virt_offset l)) (\<lambda>base.
     bind_res (chk_sub addr base) (\<lambda>start.
     bind_res (chk_add start (of_nat SIZE_STAGE1_ARGS)) (\<lambda>range_end.
     bind_res (if unat range_end \<le> length (ld_content l) then Inr (ld_content l)
               else if mm_len (ld_mapping l) < range_end then panic ''attempt to subtract with overflow''
               else Inr (ld_content l @ replicate (unat range_end - length (ld_content l)) 0)) (\<lambda>content.
     bind_res (set_stage1_args (unat start) argv mmio_ranges irq_num content) (\<lambda>content'.
     bind_res (chk_sub addr (mm_virt_start (ld_mapping l))) (\<lambda>d.
     bind_res (host_addr (mm_phys_start (ld_mapping l))) (\<lambda>h.
     bind_res (chk_add d h) (\<lambda>host_offset.
     bind_res (chk_add host_offset (of_nat ARGS_DEVICE_STATUS)) (\<lambda>device_status.
     bind_res (chk_add host_offset (of_nat ARGS_DRIVER_STATUS)) (\<lambda>driver_status.
     Inr (lo\<lparr>lo_loadables := loadables[i := l\<lparr>ld_content := content'\<rparr>]\<rparr>, device_status, driver_status))))))))))))))))"

section \<open>Loading\<close>

fun upload_iov :: "loadable list \<Rightarrow> usize \<Rightarrow> ((usize \<times> bytes) list \<times> usize) res" where
  "upload_iov [] len = Inr ([], len)"
| "upload_iov (l # ls) len =
     bind_res (chk_add len (of_nat (length (ld_content l)))) (\<lambda>len'.
     bind_res (host_addr (mm_phys_start (ld_mapping l))) (\<lambda>h.
     bind_res (chk_add h (ld_virt_offset l)) (\<lambda>base.
     bind_res (upload_iov ls len') (\<lambda>(iov, n). Inr ((base, ld_content l) # iov, n)))))"

definition upload_binary :: "(pid \<Rightarrow> (usize \<times> bytes) list \<Rightarrow> ('w, usize) io) \<Rightarrow> ((('w \<times> hypervisor) \<times> 'a) \<times> loader, unit) io" where
  "upload_binary writev =
     bind_io get_st (\<lambda>(((_, h), _), lo).
     bind_io (lift_res (upload_iov (lo_loadables lo) 0)) (\<lambda>(iov, len).
     bind_io (try_io (on_fst (on_fst (on_fst (writev (hv_pid h) iov)))) ''cannot write to process'') (\<lambda>written.
     lift_res (if written \<noteq> len then bail ''short write'' else Inr ()))))"

definition load_binary ::
  "'w os \<Rightarrow> 'w kenv \<Rightarrow> kvm_userspace_memory_region codec \<Rightarrow> ('w \<Rightarrow> reader) \<Rightarrow> 'w writer
    \<Rightarrow> (page_table list \<Rightarrow> page_table list) \<Rightarrow> thread_id \<Rightarrow> (pid \<Rightarrow> (usize \<times> bytes) list \<Rightarrow> ('w, usize) io)
    \<Rightarrow> (bytes \<Rightarrow> elf_file res) \<Rightarrow> bytes list \<Rightarrow> usize \<Rightarrow> u64 list
    \<Rightarrow> ((('w \<times> hypervisor) \<times> phys_mem_allocator) \<times> loader, (phys_mem \<times> virt_mem) \<times> usize \<times> usize) io" where
  "load_binary os env c rd wr ord me writev elf_binary command irq_num mmio_ranges =
     bind_io get_st (\<lambda>(_, lo0).
     bind_io (lift_res (try_with (elf_binary (lo_binary lo0)) ''cannot parse elf binary'')) (\<lambda>binary.
     bind_io (lift_res (sum_res (map (\<lambda>c. of_nat (length c + 1)) command) 0)) (\<lambda>n.
     bind_io (lift_res (page_align n)) (\<lambda>string_arg_size.
     bind_io (upd_snd (\<lambda>lo. lo\<lparr>lo_string_arg_size := string_arg_size\<rparr>)) (\<lambda>_.
     bind_io (try_io (for_io (ef_calls binary) (elf_callback os env c rd wr ord me)) ''cannot load elf binary'') (\<lambda>_.
     bind_io get_st (\<lambda>(_, lo).
     bind_io (lift_res (try_with (write_stage1_args command irq_num mmio_ranges lo) ''failed to write stage1 arguments''))
       (\<lambda>(lo', device_status, driver_status).
     bind_io (upd_snd (\<lambda>_. lo')) (\<lambda>_.
     bind_io (try_io (upload_binary writev) ''failed to upload binary to vm'') (\<lambda>_.
     bind_io (lift_res (require_with (lo_virt_mem lo') ''BUG, no virtual memory assigned'')) (\<lambda>mem.
     bind_io (upd_snd (\<lambda>lo. lo\<lparr>lo_virt_mem := None\<rparr>)) (\<lambda>_.
     ret (mem, device_status, driver_status)))))))))))))"

section \<open>Stage 1 in the guest\<close>

text \<open>\<^verbatim>\<open>src/stage1.rs\<close>. The loader, and with it memory that was allocated, is dropped when \<^verbatim>\<open>Stage1::new\<close> fails.\<close>

record stage1 =
  s1_virt_mem :: "phys_mem \<times> virt_mem"
  s1_device_status :: "usize option"
  s1_driver_status :: "usize option"
  s1_regs :: regs

definition device_status_update :: "'w os \<Rightarrow> usize \<Rightarrow> device_state \<Rightarrow> ('w \<times> hypervisor, unit) io" where
  "device_status_update os addr state =
     bind_io get_st (\<lambda>(_, h).
     try_io (on_fst (process_write os (hv_pid h) addr (word_bytes 4 (device_state_nr state))))
       ''failed to write state field to hypervisor memory'')"

definition driver_status_check :: "'w os \<Rightarrow> device_state codec \<Rightarrow> usize \<Rightarrow> ('w \<times> hypervisor, device_state) io" where
  "driver_status_check os c addr =
     bind_io get_st (\<lambda>(_, h).
     bind_io (on_fst (process_read os (hv_pid h) addr (unat (cd_size c)))) (\<lambda>bs. ret (cd_dec c bs)))"

definition stage1_new ::
  "'w os \<Rightarrow> 'w kenv \<Rightarrow> kvm_userspace_memory_region codec \<Rightarrow> kvm_regs codec \<Rightarrow> ('w \<Rightarrow> reader) \<Rightarrow> 'w writer
    \<Rightarrow> (page_table list \<Rightarrow> page_table list) \<Rightarrow> thread_id \<Rightarrow> ('w \<Rightarrow> usize \<Rightarrow> usize \<Rightarrow> bytes res)
    \<Rightarrow> (pid \<Rightarrow> (usize \<times> bytes) list \<Rightarrow> ('w, usize) io) \<Rightarrow> (bytes \<Rightarrow> elf_file res) \<Rightarrow> bytes \<Rightarrow> bytes list \<Rightarrow> usize \<Rightarrow> u64 list
    \<Rightarrow> (('w \<times> hypervisor) \<times> phys_mem_allocator, stage1) io" where
  "stage1_new os env c cr rd wr ord me read_bytes writev elf_binary STAGE1_LIB command irq_num mmio_ranges =
     bind_io get_st (\<lambda>((w, h), a).
     bind_io (lift_res (find_kernel (rd w) (read_bytes w) (al_guest_mem a))) (\<lambda>kern.
     bind_io (lift_res (index_res (hv_vcpus h) 0)) (\<lambda>v.
     bind_io (try_io (on_fst (get_regs os cr me v)) ''failed to get vm registers'') (\<lambda>regs.
     bind_io (lift_res (try_with (loader_new elf_binary STAGE1_LIB kern (reg_ip regs)) ''cannot load stage1'')) (\<lambda>lo s.
     (case load_binary os env c rd wr ord me writev elf_binary command irq_num mmio_ranges (s, lo) of
        None \<Rightarrow> None
      | Some ((s1, lo'), Inl e) \<Rightarrow>
          on_err (lift_res (try_with (Inl e) ''cannot load stage1'')) (on_fst (drop_virt os c wr me (lo_virt_mem lo'))) s1
      | Some ((s1, lo'), Inr (virt_mem, device_status, driver_status)) \<Rightarrow>
          (if is_userspace regs
           then on_err (lift_res (bail ''vcpu was stopped in userspace. This is not supported''))
                  (on_fst (drop_virt os c wr me (Some virt_mem))) s1
           else ret \<lparr>s1_virt_mem = virt_mem, s1_device_status = Some device_status,
                     s1_driver_status = Some driver_status, s1_regs = set_ip (lo_init_func lo) regs\<rparr> s1)))))))"

text \<open>
  The loop of the thread that waits for the driver; \<open>should_stop\<close> reads the flag, and the world also
  changes while the thread sleeps, as \<open>sleep\<close> says.
\<close>

partial_function (option) stage1_thread ::
  "'w os \<Rightarrow> device_state codec \<Rightarrow> ('w \<times> hypervisor, bool) io \<Rightarrow> ('w \<times> hypervisor, unit) io \<Rightarrow> usize
    \<Rightarrow> 'w \<times> hypervisor \<Rightarrow> (('w \<times> hypervisor) \<times> unit res) option" where
  "stage1_thread os c should_stop sleep driver_status s =
     bind_io (try_io (driver_status_check os c driver_status) ''cannot check driver state'') (\<lambda>st s1.
     if st = Terminating then Some (s1, bail ''guest driver is in unexpecting terminating state'')
     else if st = DevError then Some (s1, bail ''guest driver failed with error'')
     else if st = Ready then Some (s1, Inr ())
     else
       bind_io should_stop (\<lambda>stop s2.
       if stop then Some (s2, Inr ())
       else bind_io sleep (\<lambda>_ s3. stage1_thread os c should_stop sleep driver_status s3) s2) s1) s"

section \<open>Patched bytes\<close>

lemma put_bytes_Inr:
  assumes "put_bytes start bs c = Inr c'"
  shows "length c' = length c" and "start + length bs \<le> length c" and "c' = take start c @ bs @ drop (start + length bs) c"
  using assms by (auto simp: put_bytes_def res_simps)

lemma put_bytes_nth:
  assumes "put_bytes start bs c = Inr c'" "k < length c"
  shows "c' ! k = (if start \<le> k \<and> k < start + length bs then bs ! (k - start) else c ! k)"
  using put_bytes_Inr[OF assms(1)] assms(2) by (auto simp: nth_append min_def)

lemma put_bytes_hit:
  assumes "put_bytes start bs c = Inr c'" "start \<le> off" "off + n \<le> start + length bs"
  shows "field off n c' = field (off - start) n bs"
proof -
  have "take n (drop off c') = take n (drop (off - start) bs)"
    using put_bytes_Inr[OF assms(1)] assms(2,3) by (auto simp: drop_append take_append min_def)
  then show ?thesis by (simp add: field_def)
qed

lemma put_bytes_miss:
  assumes "put_bytes start bs c = Inr c'" "off + n \<le> start \<or> start + length bs \<le> off"
  shows "field off n c' = field off n c"
proof -
  have "take n (drop off c') = take n (drop off c)"
  proof (rule nth_equalityI)
    fix k assume "k < length (take n (drop off c'))"
    then show "take n (drop off c') ! k = take n (drop off c) ! k"
      using put_bytes_Inr[OF assms(1)] put_bytes_nth[OF assms(1), of "off + k"] assms(2) by auto
  qed (simp add: put_bytes_Inr(1)[OF assms(1)])
  then show ?thesis by (simp add: field_def)
qed

lemma length_concat_words [simp]: "length (concat (map (word_bytes n) xs)) = n * length xs"
  by (induction xs) auto

lemma field_concat_words:
  "k < length xs \<Longrightarrow> field (8 * k) 8 (concat (map (word_bytes 8) xs)) = (xs ! k :: u64)"
proof (induction xs arbitrary: k)
  case (Cons x xs)
  then show ?case by (cases k) simp_all
qed simp

section \<open>Properties\<close>

text \<open>What the memory for a segment must be: whole pages around its addresses, with its rights.\<close>

definition holds_segment :: "usize \<Rightarrow> elf_header \<Rightarrow> virt_alloc_req \<Rightarrow> bool" where
  "holds_segment vb h a \<longleftrightarrow>
     unat (va_virt_start a) + unat (va_virt_offset a) = unat vb + unat (eh_virtual_addr h) \<and>
     unat (va_virt_offset a) + unat (eh_mem_size h) \<le> unat (va_len a) \<and>
     unat (va_virt_offset a) < 4096 \<and> is_page_aligned (va_len a) \<and>
     prot_contains (va_prot a) PROT_READ \<and> (prot_contains (va_prot a) PROT_EXEC \<longleftrightarrow> eh_execute h) \<and>
     (prot_contains (va_prot a) PROT_WRITE \<longleftrightarrow> eh_write h)"

lemma header_alloc_holds:
  assumes "header_alloc vb h = Inr a"
  shows "holds_segment vb h a"
proof -
  let ?v = "eh_virtual_addr h"
  obtain vs off e ae len where vs: "chk_add vb (page_start ?v) = Inr vs" and off: "chk_sub ?v (page_start ?v) = Inr off"
    and e: "chk_add ?v (eh_mem_size h) = Inr e" and ae: "page_align e = Inr ae" and len: "chk_sub ae (page_start ?v) = Inr len"
    and a: "va_virt_start a = vs" "va_virt_offset a = off" "va_len a = len"
      "va_prot a = (let prot = PROT_READ; prot = (if eh_execute h then prot OR PROT_EXEC else prot)
        in if eh_write h then prot OR PROT_WRITE else prot)"
    using assms by (auto simp: header_alloc_def Let_def bind_res_Inr)
  have ps: "unat (page_start ?v) = unat ?v div 4096 * 4096" by (rule unat_page_start)
  have o: "unat off = unat ?v mod 4096"
    using unat_chk_sub[OF off] ps by (simp add: minus_div_mult_eq_mod)
  have ge: "unat (page_start ?v) \<le> unat ae" using len by (simp add: chk_sub_Inr word_le_nat_alt)
  have "unat ?v + unat (eh_mem_size h) \<le> unat ae"
    using unat_chk_add[OF e] page_align_aligned(2)[OF ae] by (simp add: word_le_nat_alt)
  moreover have "4096 dvd unat len"
    using unat_chk_sub[OF len] page_align_aligned(1)[OF ae] ps ge by (simp add: is_page_aligned_iff dvd_diff_nat)
  moreover have "unat ?v = unat ?v div 4096 * 4096 + unat ?v mod 4096" by simp
  ultimately have "unat off + unat (eh_mem_size h) \<le> unat len" "is_page_aligned len" "unat vs + unat off = unat vb + unat ?v"
    using unat_chk_add[OF vs] unat_chk_sub[OF len] o ps ge unfolding is_page_aligned_iff by linarith+
  moreover have "prot_contains (va_prot a) PROT_READ" "prot_contains (va_prot a) PROT_EXEC \<longleftrightarrow> eh_execute h"
    "prot_contains (va_prot a) PROT_WRITE \<longleftrightarrow> eh_write h"
    unfolding a(4)
    by (cases "eh_execute h"; cases "eh_write h";
        simp add: prot_contains_def PROT_READ_def PROT_EXEC_def PROT_WRITE_def)+
  ultimately show ?thesis using o by (simp add: holds_segment_def a)
qed

text \<open>
  The plan of the memory for the binary has for every loadable segment a region of whole pages that contains it at the base
  address of the loader and has the rights of the segment; the regions are sorted, the strings follow the last one,
  and everything ends inside the range of addresses of the kernel.
\<close>

theorem plan_allocs_cover:
  assumes "plan_allocs lo headers = Inr allocs"
  shows "\<exists>as str. allocs = as @ [str] \<and> sorted (map va_virt_start as) \<and> length as = length headers \<and>
    (\<forall>h \<in> set headers. \<exists>a \<in> set as. holds_segment (vbase lo) h a) \<and>
    unat (va_virt_start str) = unat (va_virt_start (last as)) + unat (va_len (last as)) \<and>
    va_len str = lo_string_arg_size lo \<and>
    unat (va_virt_start str) + unat (va_len str) < unat (snd LINUX_KERNEL_KASLR_RANGE)"
proof -
  obtain us where us: "map_res (header_alloc (vbase lo)) headers = Inr us"
    using assms by (cases "map_res (header_alloc (vbase lo)) headers") (simp_all add: plan_allocs_def)
  define as where "as = sort_key va_virt_start us"
  obtain last_addr e where l: "chk_add (va_virt_start (last as)) (va_len (last as)) = Inr last_addr"
    and e: "chk_add last_addr (lo_string_arg_size lo) = Inr e" "e < snd LINUX_KERNEL_KASLR_RANGE"
    and allocs: "allocs = as @ [\<lparr>va_virt_start = last_addr, va_virt_offset = 0,
      va_len = lo_string_arg_size lo, va_prot = PROT_READ OR PROT_WRITE\<rparr>]"
    using assms by (auto simp: plan_allocs_def us Let_def va_virt_end_def as_def bind_res_Inr split: if_splits)
  have all: "list_all2 (\<lambda>h a. header_alloc (vbase lo) h = Inr a) headers us" using us by (simp add: map_res_Inr_iff)
  have "\<exists>a \<in> set us. holds_segment (vbase lo) h a" if "h \<in> set headers" for h
    using list_all2_conv_all_nth[THEN iffD1, OF all] that header_alloc_holds by (metis in_set_conv_nth)
  moreover have "set as = set us" "sorted (map va_virt_start as)" "length as = length headers"
    using list_all2_lengthD[OF all] by (simp_all add: as_def)
  ultimately show ?thesis
    using unat_chk_add[OF l] unat_chk_add[OF e(1)] e(2)
    by (intro exI[of _ as] exI[of _ "last allocs"]) (simp add: allocs word_less_nat_alt)
qed

text \<open>The address a relocation must store, and the address at which the content of a loadable starts.\<close>

definition reloc_dest :: "reloc_entry \<Rightarrow> loader \<Rightarrow> usize \<Rightarrow> bool" where
  "reloc_dest entry lo dest \<longleftrightarrow> (\<exists>addend. re_addend entry = Some addend \<and>
     (case re_rtype entry of
        R_AMD64_RELATIVE \<Rightarrow> unat dest = unat (vbase lo) + unat addend
      | R_AMD64_GLOB_DAT \<Rightarrow>
          (\<exists>name s. ds_name (lo_dyn_syms lo ! unat (re_index entry)) = Inr name \<and>
             resolve_symbol name (kn_symbols (lo_kernel lo)) (lo_lib_syms lo) = Some s \<and> unat dest = unat s + unat addend)
      | OtherReloc \<Rightarrow> False))"

definition ld_base :: "loadable \<Rightarrow> nat" where
  "ld_base l = unat (mm_virt_start (ld_mapping l)) + unat (ld_virt_offset l)"

lemma find_loadable_Some:
  "find_loadable ls addr = Inr (Some i) \<Longrightarrow>
     i < length ls \<and> mm_contains (ld_mapping (ls ! i)) addr = Inr True \<and>
     (\<forall>j<i. mm_contains (ld_mapping (ls ! j)) addr = Inr False)"
proof (induction ls arbitrary: i)
  case (Cons l ls)
  obtain b where b: "mm_contains (ld_mapping l) addr = Inr b" using Cons.prems by (auto simp: bind_res_Inr)
  show ?case
  proof (cases b)
    case True
    then show ?thesis using Cons.prems b by simp
  next
    case False
    then obtain k where "find_loadable ls addr = Inr (Some k)" "i = Suc k"
      using Cons.prems b by (auto simp: bind_res_Inr)
    then show ?thesis using Cons.IH[of k] b False by (auto simp: less_Suc_eq_0_disj)
  qed
qed simp

text \<open>The loadable patched by \<open>patch\<close>, byte by byte in the address space of the guest.\<close>

lemma patch_Inr:
  assumes "patch i start dest lo = Inr lo'"
  shows "\<exists>c. lo' = lo\<lparr>lo_loadables := (lo_loadables lo)[i := (lo_loadables lo ! i)\<lparr>ld_content := c\<rparr>]\<rparr> \<and>
    length c = length (ld_content (lo_loadables lo ! i)) \<and> unat start + 8 \<le> length c \<and>
    (\<forall>k < length c. c ! k = (if unat start \<le> k \<and> k < unat start + 8 then word_bytes 8 dest ! (k - unat start)
                             else ld_content (lo_loadables lo ! i) ! k))"
proof -
  obtain c where c: "put_bytes (unat start) (word_bytes 8 dest) (ld_content (lo_loadables lo ! i)) = Inr c"
    and lo': "lo' = lo\<lparr>lo_loadables := (lo_loadables lo)[i := (lo_loadables lo ! i)\<lparr>ld_content := c\<rparr>]\<rparr>"
    using assms by (auto simp: patch_def Let_def bind_res_Inr)
  show ?thesis
    using lo' put_bytes_Inr[OF c] put_bytes_nth[OF c] by (intro exI[of _ c]) auto
qed

lemma relocate_cases:
  assumes "lo_relocate entry lo = Inr lo'"
  obtains (weak) "lo' = lo" "re_rtype entry = R_AMD64_GLOB_DAT"
      "ds_binding (lo_dyn_syms lo ! unat (re_index entry)) = Inr Weak"
  | (patched) addr i base start dest where "chk_add (vbase lo) (re_offset entry) = Inr addr"
      "find_loadable (lo_loadables lo) addr = Inr (Some i)"
      "chk_add (mm_virt_start (ld_mapping (lo_loadables lo ! i))) (ld_virt_offset (lo_loadables lo ! i)) = Inr base"
      "chk_sub addr base = Inr start" "reloc_dest entry lo dest" "patch i start dest lo = Inr lo'"
proof -
  obtain addr i base start where a: "chk_add (vbase lo) (re_offset entry) = Inr addr"
      "find_loadable (lo_loadables lo) addr = Inr (Some i)"
      "chk_add (mm_virt_start (ld_mapping (lo_loadables lo ! i))) (ld_virt_offset (lo_loadables lo ! i)) = Inr base"
      "chk_sub addr base = Inr start"
    using assms by (auto simp: lo_relocate_def Let_def bind_res_Inr require_with_Inr)
  show thesis
  proof (cases "re_rtype entry")
    case R_AMD64_RELATIVE
    then obtain addend dest where "re_addend entry = Some addend" "chk_add (vbase lo) addend = Inr dest" "patch i start dest lo = Inr lo'"
      using assms a by (auto simp: lo_relocate_def Let_def bind_res_Inr require_with_Inr)
    then show thesis using patched[OF a] R_AMD64_RELATIVE by (auto simp: reloc_dest_def dest!: unat_chk_add)
  next
    case R_AMD64_GLOB_DAT
    then obtain addend b where d: "re_addend entry = Some addend" "ds_binding (lo_dyn_syms lo ! unat (re_index entry)) = Inr b"
      using assms a by (auto simp: lo_relocate_def Let_def bind_res_Inr require_with_Inr index_res_Inr)
    show thesis
    proof (cases "b = Weak")
      case True
      then have "lo' = lo" using assms a d R_AMD64_GLOB_DAT by (auto simp: lo_relocate_def Let_def bind_res_Inr index_res_Inr)
      then show thesis using weak d True R_AMD64_GLOB_DAT by simp
    next
      case False
      then obtain name s dest where "ds_name (lo_dyn_syms lo ! unat (re_index entry)) = Inr name"
        "resolve_symbol name (kn_symbols (lo_kernel lo)) (lo_lib_syms lo) = Some s" "chk_add s addend = Inr dest"
        "patch i start dest lo = Inr lo'"
        using assms a d R_AMD64_GLOB_DAT by (auto simp: lo_relocate_def Let_def bind_res_Inr require_with_Inr index_res_Inr)
      then show thesis
        using patched[OF a] d R_AMD64_GLOB_DAT by (auto simp: reloc_dest_def dest!: unat_chk_add)
    qed
  next
    case OtherReloc
    then show thesis using assms a by (auto simp: lo_relocate_def Let_def)
  qed
qed

text \<open>
  C33: A relocation that succeeds either skips a weak symbol or stores, as 8 bytes in little endian, exactly the address
  the entry asks for at the address of the entry, in the first loadable whose memory contains it; all other bytes of the
  loadable and everything else of the loader stay.
\<close>

theorem relocate_effect:
  assumes "lo_relocate entry lo = Inr lo'"
  shows "lo' = lo \<and> re_rtype entry = R_AMD64_GLOB_DAT \<and> ds_binding (lo_dyn_syms lo ! unat (re_index entry)) = Inr Weak \<or>
    (\<exists>i c dest. i < length (lo_loadables lo) \<and> reloc_dest entry lo dest \<and>
       mm_contains (ld_mapping (lo_loadables lo ! i)) (vbase lo + re_offset entry) = Inr True \<and>
       lo' = lo\<lparr>lo_loadables := (lo_loadables lo)[i := (lo_loadables lo ! i)\<lparr>ld_content := c\<rparr>]\<rparr> \<and>
       length c = length (ld_content (lo_loadables lo ! i)) \<and>
       (\<forall>k < length c. let a = ld_base (lo_loadables lo ! i) + k; t = unat (vbase lo) + unat (re_offset entry) in
          c ! k = (if t \<le> a \<and> a < t + 8 then word_bytes 8 dest ! (a - t) else ld_content (lo_loadables lo ! i) ! k)))"
  using assms
proof (cases rule: relocate_cases)
  case (patched addr i base start dest)
  obtain c where c: "lo' = lo\<lparr>lo_loadables := (lo_loadables lo)[i := (lo_loadables lo ! i)\<lparr>ld_content := c\<rparr>]\<rparr>"
      "length c = length (ld_content (lo_loadables lo ! i))"
      "\<forall>k < length c. c ! k = (if unat start \<le> k \<and> k < unat start + 8 then word_bytes 8 dest ! (k - unat start)
                               else ld_content (lo_loadables lo ! i) ! k)"
    using patch_Inr[OF patched(6)] by blast
  note f = find_loadable_Some[OF patched(2)]
  have t: "unat addr = unat (vbase lo) + unat (re_offset entry)" "addr = vbase lo + re_offset entry"
    using unat_chk_add[OF patched(1)] chk_add_eq_wrap[OF patched(1)] by simp_all
  have b: "unat base = ld_base (lo_loadables lo ! i)" using unat_chk_add[OF patched(3)] by (simp add: ld_base_def)
  have "unat base \<le> unat addr" using patched(4) by (simp add: chk_sub_Inr word_le_nat_alt)
  then have st: "unat start + ld_base (lo_loadables lo ! i) = unat (vbase lo) + unat (re_offset entry)"
    using unat_chk_sub[OF patched(4)] t(1) b by simp
  have "(unat start \<le> k \<and> k < unat start + 8) = (unat (vbase lo) + unat (re_offset entry) \<le> ld_base (lo_loadables lo ! i) + k \<and>
      ld_base (lo_loadables lo ! i) + k < unat (vbase lo) + unat (re_offset entry) + 8)"
    "k - unat start = ld_base (lo_loadables lo ! i) + k - (unat (vbase lo) + unat (re_offset entry))" for k
    using st by auto
  then show ?thesis using f c patched(5) t(2) by (intro disjI2 exI[of _ i] exI[of _ c] exI[of _ dest]) (simp add: Let_def)
qed simp

text \<open>The pointers built for the arguments lead to the arguments, each with a byte 0 at its end.\<close>

lemma layout_strings_Inr:
  assumes "layout_strings vs command strings = Inr (all, ptrs)" "length all < 2 ^ 64"
  shows "(\<exists>tail. all = strings @ tail) \<and> length ptrs = length command \<and>
    (\<forall>k < length command. unat vs \<le> unat (ptrs ! k) \<and>
       take (length (command ! k) + 1) (drop (unat (ptrs ! k) - unat vs) all) = command ! k @ [0])"
  using assms(1)
proof (induction command arbitrary: strings ptrs)
  case (Cons arg args)
  obtain ptr ptrs' where p: "chk_add (of_nat (length strings)) vs = Inr ptr"
    and r: "layout_strings vs args (strings @ arg @ [0]) = Inr (all, ptrs')" and ptrs: "ptrs = ptr # ptrs'"
    using Cons.prems by (auto simp: bind_res_Inr split: prod.splits)
  note IH = Cons.IH[OF r]
  obtain tail where tail: "all = strings @ arg @ [0] @ tail" using IH by auto
  have "length strings < 2 ^ 64" using assms(2) tail by simp
  then have ptr: "unat ptr = length strings + unat vs"
    using unat_chk_add[OF p] by (simp add: unat_of_nat)
  have "take (length arg + 1) (drop (unat ptr - unat vs) all) = arg @ [0]" by (simp add: ptr tail)
  then show ?case using IH ptr tail by (auto simp: ptrs less_Suc_eq_0_disj)
qed simp

lemma length_layout_strings:
  "layout_strings vs command strings = Inr (all, ptrs) \<Longrightarrow>
     length all = length strings + sum_list (map (\<lambda>c. length c + 1) command)"
proof (induction command arbitrary: strings ptrs)
  case (Cons arg args)
  then show ?case by (auto simp: bind_res_Inr split: prod.splits dest!: Cons.IH)
qed simp

lemmas args_offsets = ARGS_DEVICE_ADDRS_def ARGS_ARGV_def ARGS_IRQ_NUM_def ARGS_DEVICE_STATUS_def ARGS_DRIVER_STATUS_def
  MAX_DEVICES_def MAX_ARGV_def

lemma set_stage1_args_fields:
  assumes "set_stage1_args start argv mmio irq c = Inr c'"
  shows "length c' = length c" and "k < length argv \<Longrightarrow> field (start + ARGS_ARGV + 8 * k) 8 c' = argv ! k"
    and "k < length mmio \<Longrightarrow> field (start + ARGS_DEVICE_ADDRS + 8 * k) 8 c' = mmio ! k"
    and "field (start + ARGS_IRQ_NUM) 8 c' = irq"
    and "field (start + ARGS_DEVICE_STATUS) 4 c' = device_state_nr Initializing"
    and "field (start + ARGS_DRIVER_STATUS) 4 c' = (field (start + ARGS_DRIVER_STATUS) 4 c :: u32)"
proof -
  obtain c1 c2 c3 where n: "length argv \<le> 256" "length mmio \<le> 3"
    and 1: "put_bytes (start + ARGS_ARGV) (concat (map (word_bytes 8) argv)) c = Inr c1"
    and 2: "put_bytes (start + ARGS_DEVICE_ADDRS) (concat (map (word_bytes 8) mmio)) c1 = Inr c2"
    and 3: "put_bytes (start + ARGS_DEVICE_STATUS) (word_bytes 4 (device_state_nr Initializing)) c2 = Inr c3"
    and 4: "put_bytes (start + ARGS_IRQ_NUM) (word_bytes 8 irq) c3 = Inr c'"
    using assms by (auto simp: set_stage1_args_def bind_res_Inr MAX_ARGV_def MAX_DEVICES_def split: if_splits)
  note puts = 1[unfolded args_offsets] 2[unfolded args_offsets] 3[unfolded args_offsets] 4[unfolded args_offsets]
  note fields = puts[THEN put_bytes_hit] puts[THEN put_bytes_miss]
  show "length c' = length c"
    using put_bytes_Inr(1)[OF 1] put_bytes_Inr(1)[OF 2] put_bytes_Inr(1)[OF 3] put_bytes_Inr(1)[OF 4] by simp
  show "field (start + ARGS_ARGV + 8 * k) 8 c' = argv ! k" if "k < length argv"
    using n that by (simp add: args_offsets fields field_concat_words)
  show "field (start + ARGS_DEVICE_ADDRS + 8 * k) 8 c' = mmio ! k" if "k < length mmio"
    using n that by (simp add: args_offsets fields field_concat_words)
  show "field (start + ARGS_IRQ_NUM) 8 c' = irq"
    using n field_hit[of 8 irq "[]"] by (simp add: args_offsets fields)
  show "field (start + ARGS_DEVICE_STATUS) 4 c' = device_state_nr Initializing"
    using n field_hit[of 4 "device_state_nr Initializing" "[]"] by (simp add: args_offsets fields)
  show "field (start + ARGS_DRIVER_STATUS) 4 c' = (field (start + ARGS_DRIVER_STATUS) 4 c :: u32)"
    using n by (simp add: args_offsets fields)
qed

lemma put_bytes_ok: "start + length bs \<le> length c \<Longrightarrow> \<exists>c'. put_bytes start bs c = Inr c' \<and> length c' = length c"
  by (auto simp: put_bytes_def slice_range_def)

text \<open>With at most 256 pointers and 3 devices the arguments fit into the structure.\<close>

lemma set_stage1_args_ok:
  assumes "length argv \<le> MAX_ARGV" "length mmio \<le> MAX_DEVICES" "start + SIZE_STAGE1_ARGS \<le> length c"
  shows "\<exists>c'. set_stage1_args start argv mmio irq c = Inr c'"
proof -
  note sizes = assms[unfolded SIZE_STAGE1_ARGS_def args_offsets]
  obtain c1 where 1: "put_bytes (start + ARGS_ARGV) (concat (map (word_bytes 8) argv)) c = Inr c1" "length c1 = length c"
    using sizes put_bytes_ok[of "start + ARGS_ARGV" "concat (map (word_bytes 8) argv)" c] by (auto simp: args_offsets)
  obtain c2 where 2: "put_bytes (start + ARGS_DEVICE_ADDRS) (concat (map (word_bytes 8) mmio)) c1 = Inr c2" "length c2 = length c"
    using sizes 1 put_bytes_ok[of "start + ARGS_DEVICE_ADDRS" "concat (map (word_bytes 8) mmio)" c1] by (auto simp: args_offsets)
  obtain c3 where 3: "put_bytes (start + ARGS_DEVICE_STATUS) (word_bytes 4 (device_state_nr Initializing)) c2 = Inr c3" "length c3 = length c"
    using sizes 2 put_bytes_ok[of "start + ARGS_DEVICE_STATUS" "word_bytes 4 (device_state_nr Initializing)" c2] by (auto simp: args_offsets)
  have "\<exists>c'. put_bytes (start + ARGS_IRQ_NUM) (word_bytes 8 irq) c3 = Inr c'"
    using sizes 3 put_bytes_ok[of "start + ARGS_IRQ_NUM" "word_bytes 8 irq" c3] by (auto simp: args_offsets)
  then show ?thesis using assms(1,2) 1(1) 2(1) 3(1) by (auto simp: set_stage1_args_def)
qed

lemma write_stage1_args_cases:
  assumes "write_stage1_args command irq mmio lo = Inr (lo', dev, drv)"
  obtains pm vm strings ptrs lds i l base start c0 c d h ho where "lo_virt_mem lo = Some (pm, vm)"
    "layout_strings (mm_virt_start (last (vm_mappings vm))) command [] = Inr (strings, ptrs)"
    "lds = lo_loadables lo @ [\<lparr>ld_content = strings, ld_mapping = last (vm_mappings vm), ld_virt_offset = 0\<rparr>]"
    "find_loadable lds (lo_vmsh_stage1_args lo) = Inr (Some i)" "l = lds ! i"
    "chk_add (mm_virt_start (ld_mapping l)) (ld_virt_offset l) = Inr base"
    "chk_sub (lo_vmsh_stage1_args lo) base = Inr start"
    "set_stage1_args (unat start) (ptrs @ [0]) mmio irq c0 = Inr c"
    "chk_sub (lo_vmsh_stage1_args lo) (mm_virt_start (ld_mapping l)) = Inr d"
    "host_addr (mm_phys_start (ld_mapping l)) = Inr h" "chk_add d h = Inr ho"
    "chk_add ho (of_nat ARGS_DEVICE_STATUS) = Inr dev" "chk_add ho (of_nat ARGS_DRIVER_STATUS) = Inr drv"
    "lo' = lo\<lparr>lo_loadables := lds[i := l\<lparr>ld_content := c\<rparr>]\<rparr>"
proof -
  obtain pm vm where vm: "lo_virt_mem lo = Some (pm, vm)" "vm_mappings vm \<noteq> []"
    using assms(1) by (auto simp: write_stage1_args_def bind_res_Inr require_with_Inr split: if_splits)
  let ?sm = "last (vm_mappings vm)"
  obtain strings ptrs where ls: "layout_strings (mm_virt_start ?sm) command [] = Inr (strings, ptrs)"
    using assms(1) vm by (auto simp: write_stage1_args_def bind_res_Inr)
  define lds where "lds = lo_loadables lo @ [\<lparr>ld_content = strings, ld_mapping = ?sm, ld_virt_offset = 0\<rparr>]"
  obtain i where i: "find_loadable lds (lo_vmsh_stage1_args lo) = Inr (Some i)"
    using assms(1) vm ls by (auto simp: write_stage1_args_def bind_res_Inr require_with_Inr Let_def lds_def)
  define l where "l = lds ! i"
  show thesis
    using assms(1) vm ls i that[OF vm(1) ls lds_def i l_def]
    by (auto simp: write_stage1_args_def bind_res_Inr Let_def lds_def[symmetric] l_def[symmetric])
qed


section \<open>An example\<close>

definition loader_ex_mapping :: "usize \<Rightarrow> mapped_memory" where
  "loader_ex_mapping off = \<lparr>mm_phys_start = \<lparr>pa_value = 0x100000 + off, pa_host_offset = 0\<rparr>,
     mm_virt_start = 0xFFFFFFFFA0000000 + off, mm_len = 0x1000, mm_prot = 3\<rparr>"

definition loader_ex :: loader where
  "loader_ex = \<lparr>
     lo_kernel = \<lparr>kn_range = (0xFFFFFFFF81000000, 0xFFFFFFFF82000000), kn_memory_sections = [],
       kn_symbols = [ascii ''printk'' \<mapsto> 0xFFFFFFFF81001000], kn_largest_gap = (0xFFFFFFFFA0000000, 0xFFFFFFFFB0000000)\<rparr>,
     lo_virt_mem = Some (\<lparr>pm_mem = \<lparr>hm_ptr = 0, hm_pid = 7, hm_size = 1\<rparr>, pm_ioctl_arg = \<lparr>hm_ptr = 0, hm_pid = 7, hm_size = 32\<rparr>,
         pm_guest_phys_addr = \<lparr>pa_value = 0x100000, pa_host_offset = 0\<rparr>\<rparr>,
       \<lparr>vm_old_tables = [], vm_mappings = [loader_ex_mapping 0, loader_ex_mapping 0x1000]\<rparr>),
     lo_load_offsets = [0, 0],
     lo_loadables = [\<lparr>ld_content = replicate 32 0, ld_mapping = loader_ex_mapping 0, ld_virt_offset = 0\<rparr>],
     lo_binary = [], lo_lib_syms = Map.empty,
     lo_dyn_syms = [\<lparr>ds_binding = Inr OtherBinding, ds_name = Inr (ascii ''_printk'')\<rparr>],
     lo_vmsh_stage1_args = 0xFFFFFFFFA0000010, lo_string_arg_size = 0x1000, lo_init_func = 0xFFFFFFFFA0000004\<rparr>"

definition reloc_ex :: reloc_entry where
  "reloc_ex = \<lparr>re_rtype = R_AMD64_GLOB_DAT, re_offset = 8, re_index = 0, re_addend = Some 4\<rparr>"

lemma reloc_ex_run: "(case lo_relocate reloc_ex loader_ex of Inr lo' \<Rightarrow> True | Inl e \<Rightarrow> False)"
  by code_simp

theorem relocate_effect_witness:
  "\<exists>c dest. reloc_dest reloc_ex loader_ex dest \<and> length c = 32 \<and> c ! 9 = word_bytes 8 dest ! 1 \<and> c ! 16 = 0"
proof -
  obtain lo' where r: "lo_relocate reloc_ex loader_ex = Inr lo'" using reloc_ex_run by (auto split: sum.splits)
  have ld: "lo_loadables loader_ex = [\<lparr>ld_content = replicate 32 0, ld_mapping = loader_ex_mapping 0, ld_virt_offset = 0\<rparr>]"
    "vbase loader_ex = 0xFFFFFFFFA0000000" "mm_virt_start (loader_ex_mapping 0) = 0xFFFFFFFFA0000000"
    by (simp_all add: loader_ex_def vbase_def loader_ex_mapping_def)
  have nw: "ds_binding (lo_dyn_syms loader_ex ! unat (re_index reloc_ex)) \<noteq> Inr Weak"
    by (simp add: loader_ex_def reloc_ex_def)
  obtain c dest where c: "reloc_dest reloc_ex loader_ex dest" "length c = 32"
      "\<forall>k < length c. let a = unat (0xFFFFFFFFA0000000 :: usize) + k; t = unat (0xFFFFFFFFA0000000 :: usize) + unat (re_offset reloc_ex) in
          c ! k = (if t \<le> a \<and> a < t + 8 then word_bytes 8 dest ! (a - t) else replicate 32 0 ! k)"
    using relocate_effect[OF r] nw by (auto simp: ld ld_base_def simp del: unsigned_numeral)
  have "c ! 9 = word_bytes 8 dest ! 1" "c ! 16 = 0"
    using c(2) c(3)[rule_format, of 9] c(3)[rule_format, of 16] by (simp_all add: reloc_ex_def Let_def)
  then show ?thesis using c(1,2) by blast
qed

lemma args_ex_run: "\<exists>r. write_stage1_args [[0x2f, 0x62], [0x78]] 6 [0xd0000000] loader_ex = Inr r"
proof -
  have find: "find_loadable (lo_loadables loader_ex @ xs) 0xFFFFFFFFA0000010 = Inr (Some 0)" for xs
    by (simp add: loader_ex_def loader_ex_mapping_def mm_contains_def chk_add_def)
  have lay: "layout_strings 0xFFFFFFFFA0001000 [[0x2f, 0x62], [0x78]] [] =
      Inr ([0x2f, 0x62, 0, 0x78, 0], [0xFFFFFFFFA0001000, 0xFFFFFFFFA0001003])" by code_simp
  define content :: bytes where "content = replicate 32 0 @ replicate 2072 0"
  have len: "length (replicate 32 0 :: bytes) = 32" "length content = 2104" by (simp_all add: content_def)
  obtain c where c: "set_stage1_args 16 ([0xFFFFFFFFA0001000, 0xFFFFFFFFA0001003] @ [0]) [0xd0000000] 6 content = Inr c"
    using set_stage1_args_ok[of "[0xFFFFFFFFA0001000, 0xFFFFFFFFA0001003] @ [0]" "[0xd0000000]" 16 content 6] len
    by (auto simp: SIZE_STAGE1_ARGS_def args_offsets)
  have ex: "lo_vmsh_stage1_args loader_ex = 0xFFFFFFFFA0000010" "\<exists>pm. lo_virt_mem loader_ex = Some (pm,
      \<lparr>vm_old_tables = [], vm_mappings = [loader_ex_mapping 0, loader_ex_mapping 0x1000]\<rparr>)"
    by (simp_all add: loader_ex_def)
  have nth: "(lo_loadables loader_ex @ xs) ! 0 = \<lparr>ld_content = replicate 32 0, ld_mapping = loader_ex_mapping 0, ld_virt_offset = 0\<rparr>" for xs
    by (simp add: loader_ex_def)
  have mm: "mm_virt_start (loader_ex_mapping 0x1000) = 0xFFFFFFFFA0001000" "mm_virt_start (loader_ex_mapping 0) = 0xFFFFFFFFA0000000"
    "mm_len (loader_ex_mapping 0) = 0x1000" "host_addr (mm_phys_start (loader_ex_mapping 0)) = Inr 0x100000"
    by (simp_all add: loader_ex_mapping_def host_addr_def chk_add_def)
  have nums: "chk_add 0xFFFFFFFFA0000000 0 = (Inr 0xFFFFFFFFA0000000 :: usize res)" "chk_sub 0xFFFFFFFFA0000010 0xFFFFFFFFA0000000 = (Inr 16 :: usize res)"
    "chk_add 16 (of_nat SIZE_STAGE1_ARGS) = (Inr 2104 :: usize res)" "chk_add 16 0x100000 = (Inr 0x100010 :: usize res)"
    "chk_add 0x100010 (of_nat ARGS_DEVICE_STATUS) = (Inr 0x100830 :: usize res)"
    "chk_add 0x100010 (of_nat ARGS_DRIVER_STATUS) = (Inr 0x100834 :: usize res)"
    by (simp_all add: chk_add_def chk_sub_def SIZE_STAGE1_ARGS_def args_offsets)
  show ?thesis
    using find lay c ex(2)
    by (auto simp: write_stage1_args_def Let_def ex(1) mm nums nth[simplified] len(1) content_def[symmetric] del: exI)
qed


definition header_ex :: elf_header where
  "header_ex = \<lparr>eh_virtual_addr = 0x1040, eh_mem_size = 0x2000, eh_execute = True, eh_write = False\<rparr>"

lemma plan_ex_run: "(case plan_allocs loader_ex [header_ex] of Inr allocs \<Rightarrow> True | Inl e \<Rightarrow> False)"
  by code_simp

theorem plan_allocs_cover_witness:
  "\<exists>a. holds_segment (vbase loader_ex) header_ex a"
proof -
  obtain allocs where "plan_allocs loader_ex [header_ex] = Inr allocs" using plan_ex_run by (auto split: sum.splits)
  from plan_allocs_cover[OF this] show ?thesis by auto
qed

end
