(* ===== verification/Devices.thy ===== *)
theory Devices
  imports Virtio_Dev Loader
begin

text \<open>
  \<^verbatim>\<open>src/devices/mmio.rs\<close>, \<^verbatim>\<open>src/devices/mod.rs\<close>, \<^verbatim>\<open>src/devices/threads.rs\<close> and \<^verbatim>\<open>src/interrutable_thread.rs\<close>: the MMIO accesses of the
  guest are given to the devices, by threads that run until they are told to stop. The bus of \<^verbatim>\<open>vm_device\<close> is the
  record \<open>bus\<close>. A variable that several threads share is a \<open>cell\<close> of the world; its mutex is always free
  when it is taken and is left out.
\<close>

section \<open>Shared variables\<close>

record ('w, 'a) cell =
  cell_get :: "'w \<Rightarrow> 'a"
  cell_put :: "'a \<Rightarrow> 'w \<Rightarrow> 'w"

definition read_cell :: "('w, 'a) cell \<Rightarrow> ('w, 'a) io" where
  "read_cell c w = Some (w, Inr (cell_get c w))"

definition write_cell :: "('w, 'a) cell \<Rightarrow> 'a \<Rightarrow> ('w, unit) io" where
  "write_cell c x w = Some (cell_put c x w, Inr ())"

definition in_cell :: "('w, 'a) cell \<Rightarrow> ('w \<times> 'a, 'b) io \<Rightarrow> ('w, 'b) io" where
  "in_cell c m w = map_option (\<lambda>((w', x), r). (cell_put c x w', r)) (m (w, cell_get c w))"

text \<open>An operation on a value of its own, which is dropped afterwards.\<close>

definition with_local :: "'s \<Rightarrow> ('w \<times> 's, 'a) io \<Rightarrow> ('w, 'a) io" where
  "with_local x m w = map_option (\<lambda>((w', _), r). (w', r)) (m (w, x))"

section \<open>MMIO\<close>

record 'w bus =
  bus_read :: "u64 \<Rightarrow> nat \<Rightarrow> ('w, bytes) io"
  bus_write :: "u64 \<Rightarrow> bytes \<Rightarrow> ('w, unit) io"

definition handle_mmio_rw :: "'w os \<Rightarrow> kvm_abi \<Rightarrow> 'w bus \<Rightarrow> ('w \<times> mmio_rw, unit) io" where
  "handle_mmio_rw os abi bus =
     bind_io get_st (\<lambda>(_, m).
     bind_io (lift_res (mmio_data m)) (\<lambda>data.
     if mw_is_write m then on_fst (try_io (bus_write bus (mw_addr m) data) ''write to mmio device failed'')
     else
       bind_io (lift_res (slice_range (replicate MMIO_RW_DATA_MAX (0 :: u8)) 0 (length data))) (\<lambda>slice.
       bind_io (on_fst (try_io (bus_read bus (mw_addr m) (length slice)) ''read from mmio device failed'')) (\<lambda>slice.
       answer_read os abi slice))))"

definition handle_ioregion_rw :: "'w lenv \<Rightarrow> 'w bus \<Rightarrow> raw_io_region_fd \<Rightarrow> ioregionfd_cmd \<Rightarrow> ('w, unit) io" where
  "handle_ioregion_rw le bus i rw =
     bind_io (lift_res (chk_add (kr_guest_paddr (rr_ioregion i)) (ic_offset rw))) (\<lambda>addr.
     try_io
       (case info_cmd (ic_info rw) of
          CmdWrite \<Rightarrow>
            bind_io (try_io (bus_write bus addr (cmd_data rw)) ''write to mmio device failed'') (\<lambda>_.
            rr_write le i 0)
        | CmdRead \<Rightarrow>
            bind_io (try_io (bus_read bus addr (length (cmd_data rw))) ''read from mmio device failed'') (\<lambda>data.
            rr_write_slice le i data))
       ''cannot handle ioregion command'')"

section \<open>The devices of a virtual machine\<close>

text \<open>
  \<^verbatim>\<open>convert\<close>: the mappings of the hypervisor as regions of guest memory, in the order of their guest addresses.
  \<open>build_raw\<close>, \<open>region_new\<close> and \<open>from_regions\<close> are the constructors of \<^verbatim>\<open>vm_memory\<close>. Regions with the same guest address, the
  order of which the unstable sort leaves open, overlap and are refused by \<open>from_regions\<close>.
\<close>

fun convert_regions ::
  "(u64 \<Rightarrow> u64 \<Rightarrow> prot_flags \<Rightarrow> map_flags \<Rightarrow> 'r res) \<Rightarrow> (pid \<Rightarrow> 'r \<Rightarrow> u64 \<Rightarrow> 'g res) \<Rightarrow> pid \<Rightarrow> mapping list
    \<Rightarrow> (u64 \<times> 'g) list res" where
  "convert_regions build_raw region_new p [] = Inr []"
| "convert_regions build_raw region_new p (m # ms) =
     bind_res (chk_sub (mp_end m) (mp_start m)) (\<lambda>len.
     bind_res (try_with (build_raw (mp_start m) len (mp_prot_flags m) (mp_map_flags m)) ''cannot instanciate MmapRegion'') (\<lambda>r.
     bind_res (try_with (region_new p r (mp_phys_addr m)) ''cannot allocate guest region'') (\<lambda>g.
     bind_res (convert_regions build_raw region_new p ms) (\<lambda>gs.
     Inr ((mp_phys_addr m, g) # gs)))))"

definition convert ::
  "(u64 \<Rightarrow> u64 \<Rightarrow> prot_flags \<Rightarrow> map_flags \<Rightarrow> 'r res) \<Rightarrow> (pid \<Rightarrow> 'r \<Rightarrow> u64 \<Rightarrow> 'g res) \<Rightarrow> (pid \<Rightarrow> 'g list \<Rightarrow> 'm res) \<Rightarrow> pid
    \<Rightarrow> mapping list \<Rightarrow> 'm res" where
  "convert build_raw region_new from_regions p ms =
     bind_res (convert_regions build_raw region_new p ms) (\<lambda>gs.
     try_with (from_regions p (map snd (sort_key fst gs))) ''GuestMemoryMmap error'')"

record ('q, 'b) device_context =
  dc_blkdev :: "('q, 'b) block_dev"
  dc_console :: "'q console_dev"
  dc_first_mmio_addr :: u64
  dc_last_mmio_addr :: u64

definition mmio_addrs :: "('q, 'b) device_context \<Rightarrow> u64 list" where
  "mmio_addrs c = [fst (mc_range (bd_mmio_cfg (dc_blkdev c))), fst (mc_range (cd_mmio_cfg (dc_console c)))]"

text \<open>\<open>rng\<close> and \<open>range_last\<close> are \<^verbatim>\<open>MmioRange::new\<close> and \<^verbatim>\<open>MmioRange::last\<close>.\<close>

definition mmio_ranges ::
  "(u64 \<Rightarrow> u64 \<Rightarrow> (u64 \<times> u64) res) \<Rightarrow> usize \<Rightarrow> ('s \<times> phys_mem_allocator, mmio_config \<times> mmio_config) io" where
  "mmio_ranges rng irq_num =
     bind_io (alloc_mmio_range rng 0x1000) (\<lambda>r1.
     bind_io (alloc_mmio_range rng 0x1000) (\<lambda>r2.
     ret (\<lparr>mc_range = r1, mc_gsi = ucast irq_num\<rparr>, \<lparr>mc_range = r2, mc_gsi = ucast irq_num\<rparr>)))"

definition device_context_new ::
  "'w hv_env \<Rightarrow> 'w kenv \<Rightarrow> ('w, 'q, 'b) dev_env \<Rightarrow> codecs \<Rightarrow> bool \<Rightarrow> (pid \<Rightarrow> mapping list \<Rightarrow> 'm res)
    \<Rightarrow> (u64 \<Rightarrow> u64 \<Rightarrow> (u64 \<times> u64) res) \<Rightarrow> (u64 \<times> u64 \<Rightarrow> u64) \<Rightarrow> usize \<Rightarrow> string \<Rightarrow> string option
    \<Rightarrow> (('w \<times> hypervisor) \<times> phys_mem_allocator, ('q, 'b) device_context) io" where
  "device_context_new e env de co use_ioregionfd conv rng range_last irq_num backing pts =
     bind_io (on_fst (try_io (hv_get_maps (he_os e) env (he_me e)) ''cannot get guests memory'')) (\<lambda>guest_memory.
     bind_io get_st (\<lambda>((_, h), _).
     bind_io (lift_res (try_with (conv (hv_pid h) guest_memory) ''cannot convert Mapping to GuestMemoryMmap'')) (\<lambda>mem.
     bind_io (mmio_ranges rng irq_num) (\<lambda>(block_mmio_cfg, console_mmio_cfg).
     bind_io (on_fst (try_io (block_new e de co use_ioregionfd
       \<lparr>ba_mmio_cfg = block_mmio_cfg, ba_file_path = backing, ba_read_only = False, ba_root_device = True,
        ba_advertise_flush = True\<rparr>) ''cannot create block device'')) (\<lambda>blkdev.
     bind_io
       (on_err
          (on_fst (try_io (console_new e de co use_ioregionfd \<lparr>ca_mmio_cfg = console_mmio_cfg, ca_pts = pts\<rparr>)
             ''cannot create console device''))
          (on_fst (dev_drop e co (bd_irqfd blkdev) (bd_ioregionfd blkdev) (bd_ioeventfd blkdev) (bd_uioefd blkdev)))) (\<lambda>console.
     ret \<lparr>dc_blkdev = blkdev, dc_console = console, dc_first_mmio_addr = fst (mc_range console_mmio_cfg),
          dc_last_mmio_addr = range_last (mc_range block_mmio_cfg)\<rparr>))))))"

section \<open>The state of the driver\<close>

text \<open>\<^verbatim>\<open>DriverNotifier\<close>: the state is shared by the threads and copied to the guest.\<close>

record 'w notifier =
  dn_lock :: "('w, device_state) cell"
  dn_device_status :: usize
  dn_driver_status :: usize
  dn_hv :: hypervisor

definition dn_update :: "'w os \<Rightarrow> 'w notifier \<Rightarrow> device_state \<Rightarrow> ('w, unit) io" where
  "dn_update os dn state = with_local (dn_hv dn) (device_status_update os (dn_device_status dn) state)"

definition dn_notify :: "'w os \<Rightarrow> 'w notifier \<Rightarrow> device_state \<Rightarrow> ('w, unit) io" where
  "dn_notify os dn state =
     bind_io (read_cell (dn_lock dn)) (\<lambda>st.
     if st = Initializing then
       bind_io (write_cell (dn_lock dn) state) (\<lambda>_.
       try_io (dn_update os dn state) ''failed to notify stage1 in VM'')
     else ret ())"

partial_function (option) dn_wait_driver :: "'w os \<Rightarrow> device_state codec \<Rightarrow> 'w notifier \<Rightarrow> 'w \<Rightarrow> ('w \<times> unit res) option" where
  "dn_wait_driver os c dn w =
     bind_io (try_io (with_local (dn_hv dn) (driver_status_check os c (dn_driver_status dn))) ''cannot check device state'') (\<lambda>st w'.
     case st of
       Ready \<Rightarrow> dn_wait_driver os c dn w'
     | Terminating \<Rightarrow> Some (w', Inr ())
     | _ \<Rightarrow> Some (w', bail ''unexpected driver state'')) w"

definition dn_terminate :: "'w os \<Rightarrow> device_state codec \<Rightarrow> 'w notifier \<Rightarrow> ('w, unit) io" where
  "dn_terminate os c dn =
     bind_io (read_cell (dn_lock dn)) (\<lambda>st.
     if st = Initializing then lift_res (bail ''cannot terminate unitialized device'')
     else
       bind_io (write_cell (dn_lock dn) Terminating) (\<lambda>_.
       bind_io (try_io (dn_update os dn Terminating) ''failed to notify stage1 in VM about termination'') (\<lambda>_.
       dn_wait_driver os c dn)))"

text \<open>\<open>cv_wait\<close> waits for the condition variable; other threads run meanwhile.\<close>

partial_function (option) dn_wait :: "('w, unit) io \<Rightarrow> 'w notifier \<Rightarrow> 'w \<Rightarrow> ('w \<times> unit res) option" where
  "dn_wait cv_wait dn w =
     bind_io (read_cell (dn_lock dn)) (\<lambda>st w1.
     if st = Initializing then bind_io cv_wait (\<lambda>_ w2. dn_wait cv_wait dn w2) w1
     else ret () w1) w"

definition dn_drop :: "'w os \<Rightarrow> 'w notifier \<Rightarrow> ('w, unit) io" where
  "dn_drop os dn =
     bind_io (read_cell (dn_lock dn)) (\<lambda>st.
     if st = Initializing then ignore_io (dn_update os dn DevError) else ret ())"

section \<open>Threads\<close>

text \<open>
  \<^verbatim>\<open>InterrutableThread\<close>: what the new thread runs, with the flag that stops it. The result is sent to the thread that
  joins it; the channel tells the main thread of a failure.
\<close>

definition thread_main :: "('w, unit) io \<Rightarrow> ('w, 'a) io \<Rightarrow> ('w, 'a res) io" where
  "thread_main err_send func =
     bind_io (attempt func) (\<lambda>res.
     bind_io (if is_ok res then ret () else expect_io err_send ''Could not send result back. Parent died'') (\<lambda>_.
     ret res))"

record ('w, 'a) thread =
  th_should_stop :: "('w, bool) cell"
  th_join :: "('w, 'a res) io"

definition thread_shutdown :: "('w, 'a) thread \<Rightarrow> ('w, unit) io" where
  "thread_shutdown t = write_cell (th_should_stop t) True"

definition thread_join :: "('w, 'a) thread \<Rightarrow> ('w, 'a res) io" where
  "thread_join t =
     bind_io (read_cell (th_should_stop t)) (\<lambda>b.
     bind_io (lift_res (assert_res b ''shutdown() needs to be called before join()'')) (\<lambda>_.
     try_io (th_join t) ''could not join thread''))"

text \<open>The event loop; \<open>run\<close> is \<^verbatim>\<open>EventManager::run_with_timeout\<close>, and \<open>ack\<close> the interrupt state of the block device.\<close>

definition EVENT_LOOP_TIMEOUT_MS :: nat where "EVENT_LOOP_TIMEOUT_MS = 1"

partial_function (option) event_thread ::
  "(nat \<Rightarrow> ('w, nat) io) \<Rightarrow> 'w irq_env \<Rightarrow> ('w, irq_state) cell \<Rightarrow> ('w, bool) cell \<Rightarrow> 'w \<Rightarrow> ('w \<times> unit res) option" where
  "event_thread run env ack should_stop w =
     bind_io (ignore_io (run EVENT_LOOP_TIMEOUT_MS)) (\<lambda>_ w1.
     bind_io (in_cell ack (handle_timeouts env)) (\<lambda>_ w2.
     bind_io (read_cell should_stop) (\<lambda>stop w3.
     if stop then ret () w3 else event_thread run env ack should_stop w3) w2) w1) w"

text \<open>Accesses outside of the address range of the devices are left to the hypervisor.\<close>

definition forwarded :: "u64 \<Rightarrow> u64 \<Rightarrow> u64 \<Rightarrow> bool" where
  "forwarded first past addr \<longleftrightarrow> first \<le> addr \<and> addr < past"

definition forward_mmio ::
  "'w os \<Rightarrow> kvm_abi \<Rightarrow> 'w bus \<Rightarrow> u64 \<Rightarrow> u64 \<Rightarrow> mmio_rw option \<Rightarrow> ('w, unit) io" where
  "forward_mmio os abi bus first past kvm_exit =
     (case kvm_exit of
        None \<Rightarrow> ret ()
      | Some m \<Rightarrow>
          if forwarded first past (mw_addr m)
          then try_io (with_local m (handle_mmio_rw os abi bus)) ''failed to handle MmioRw''
          else ret ())"

partial_function (option) mmio_loop ::
  "'w os \<Rightarrow> kvm_abi \<Rightarrow> 'w bus \<Rightarrow> thread_id \<Rightarrow> u64 \<Rightarrow> u64 \<Rightarrow> ('w, bool) cell \<Rightarrow> 'w \<times> wrapper
    \<Rightarrow> (('w \<times> wrapper) \<times> unit res) option" where
  "mmio_loop os abi bus me first past should_stop s =
     bind_io (try_io (wait_for_ioctl os abi me) ''failed to wait for vmm exit_mmio'') (\<lambda>kvm_exit s1.
     bind_io (on_fst (forward_mmio os abi bus first past kvm_exit)) (\<lambda>_ s2.
     bind_io (on_fst (read_cell should_stop)) (\<lambda>stop s3.
     if stop then ret () s3 else mmio_loop os abi bus me first past should_stop s3) s2) s1) s"

definition on_wrapper :: "('w \<times> wrapper, 'a) io \<Rightarrow> ('w \<times> wrapper option, 'a) io" where
  "on_wrapper m ws =
     (case snd ws of
        None \<Rightarrow> Some (ws, bail ''KvmRunWrapper not initialized'')
      | Some k \<Rightarrow> map_option (\<lambda>((w', k'), r). ((w', Some k'), r)) (m (fst ws, k)))"

definition handle_mmio_exits ::
  "'w os \<Rightarrow> kvm_abi \<Rightarrow> 'w bus \<Rightarrow> thread_id \<Rightarrow> u64 \<Rightarrow> u64 \<Rightarrow> 'w notifier \<Rightarrow> ('w, bool) cell \<Rightarrow> ('w \<times> wrapper option, unit) io" where
  "handle_mmio_exits os abi bus me first past dn should_stop =
     on_wrapper
       (bind_io (try_io (stop_on_syscall os) ''failed to wait for vmm exit_mmio'') (\<lambda>_.
        bind_io (on_fst (dn_notify os dn Ready)) (\<lambda>_.
        mmio_loop os abi bus me first past should_stop)))"

text \<open>What the thread of \<^verbatim>\<open>mmio_exit_handler_thread\<close> runs; the thread that starts it has given up its tracer before.\<close>

definition mmio_exit_handler ::
  "'w os \<Rightarrow> kvm_abi \<Rightarrow> 'w bus \<Rightarrow> thread_id \<Rightarrow> ('q, 'b) device_context \<Rightarrow> 'w notifier \<Rightarrow> ('w, bool) cell
    \<Rightarrow> ('w \<times> hypervisor, unit) io" where
  "mmio_exit_handler os abi bus me dev dn should_stop =
     bind_io (attempt (finish_thread_transfer os me)) (\<lambda>r.
     if \<not> is_ok r then
       bind_io (on_fst (ignore_io (dn_notify os dn DevError))) (\<lambda>_.
       lift_res (bail ''failed transfer ptrace to mmio exit handler''))
     else
       bind_io (attempt (kvmrun_wrapped os me
         (bind_io (attempt (handle_mmio_exits os abi bus me (dc_first_mmio_addr dev) (dc_last_mmio_addr dev) dn should_stop)) (\<lambda>res.
          bind_io (if is_ok res then ret () else on_fst (ignore_io (dn_notify os dn DevError))) (\<lambda>_.
          lift_res res))))) (\<lambda>res.
       bind_io (prepare_thread_transfer os) (\<lambda>_. lift_res res)))"

partial_function (option) ioregion_loop ::
  "'w lenv \<Rightarrow> 'w bus \<Rightarrow> raw_io_region_fd \<Rightarrow> ('w, bool) cell \<Rightarrow> 'w \<Rightarrow> ('w \<times> unit res) option" where
  "ioregion_loop le bus i should_stop w =
     bind_io (try_io (rr_read le i) ''cannot read mmio command from ioregionfd'') (\<lambda>cmd w1.
     bind_io (case cmd of None \<Rightarrow> ret () | Some c \<Rightarrow> handle_ioregion_rw le bus i c) (\<lambda>_ w2.
     bind_io (read_cell should_stop) (\<lambda>stop w3.
     if stop then ret () w3 else ioregion_loop le bus i should_stop w3) w2) w1) w"

definition ioregion_event_loop ::
  "'w lenv \<Rightarrow> 'w bus \<Rightarrow> io_region_fd option \<Rightarrow> ('w, bool) cell \<Rightarrow> ('w, unit) io" where
  "ioregion_event_loop le bus ior should_stop =
     (case ior of
        None \<Rightarrow> lift_res (bail ''cannot start ioregion event loop when ioregion does not exist'')
      | Some i \<Rightarrow> ioregion_loop le bus (fdclone i) should_stop)"

text \<open>
  \<^verbatim>\<open>DeviceSet::start\<close>. \<open>spawn\<close> starts a thread of the given kind, which runs one of the loops above.
\<close>

datatype thread_kind = EventManagerThread | BlkdevMonitor | MmioExitHandler | IoregionHandler "io_region_fd option"

definition device_set_start ::
  "'w os \<Rightarrow> ('w, unit) io \<Rightarrow> (thread_kind \<Rightarrow> ('w \<times> hypervisor, 't) io) \<Rightarrow> bool \<Rightarrow> bool \<Rightarrow> ('q, 'b) device_context \<Rightarrow> 'w notifier
    \<Rightarrow> ('w \<times> hypervisor, 't list) io" where
  "device_set_start os cv_wait spawn debug use_ioregionfd dev dn =
     bind_io (on_fst (write_cell (dn_lock dn) Initializing)) (\<lambda>_.
     on_err
       (bind_io (spawn EventManagerThread) (\<lambda>t1.
        bind_io (if debug then bind_io (spawn BlkdevMonitor) (\<lambda>t. ret [t1, t]) else ret [t1]) (\<lambda>threads.
        bind_io
          (if use_ioregionfd then
             bind_io (resume os) (\<lambda>_.
             bind_io (on_fst (try_io (dn_notify os dn Ready) ''cannot update device status'')) (\<lambda>_.
             bind_io (try_io (spawn (IoregionHandler (bd_ioregionfd (dc_blkdev dev)))) ''cannot spawn block ioregion handler'') (\<lambda>t2.
             bind_io (try_io (spawn (IoregionHandler (cd_ioregionfd (dc_console dev)))) ''cannot spawn console ioregion handler'') (\<lambda>t3.
             ret (threads @ [t2, t3])))))
           else
             bind_io (prepare_thread_transfer os) (\<lambda>_.
             bind_io (try_io (spawn MmioExitHandler) ''cannot spawn mmio exit handler thread'') (\<lambda>t2.
             ret (threads @ [t2])))) (\<lambda>threads.
        bind_io (on_fst (dn_wait cv_wait dn)) (\<lambda>_.
        ret threads)))))
       (on_fst (dn_drop os dn)))"

section \<open>Which accesses reach the devices\<close>

definition in_range :: "u64 \<times> u64 \<Rightarrow> u64 \<Rightarrow> bool" where
  "in_range r a \<longleftrightarrow> unat (fst r) \<le> unat a \<and> unat a < unat (fst r) + unat (snd r)"

lemma block_new_cfg:
  "block_new e de co use a s = Some (s', Inr d) \<Longrightarrow> bd_mmio_cfg d = ba_mmio_cfg a"
  by (auto simp: block_new_def io_simps Let_def split: prod.splits)

lemma console_new_cfg:
  "console_new e de co use a s = Some (s', Inr d) \<Longrightarrow> cd_mmio_cfg d = ca_mmio_cfg a"
  by (auto simp: console_new_def io_simps Let_def split: prod.splits)

lemma alloc_mmio_range_Inr:
  assumes "alloc_mmio_range rng len (s, a) = Some ((s', a'), Inr r)" "mmio_range_ok rng"
  shows "r = (al_next_allocation a', len)" "unat (al_next_allocation a) = unat (al_next_allocation a') + unat len"
proof -
  obtain start where n: "next_addr len (s, a) = Some ((s', a'), Inr start)" "rng start len = Inr r"
    using assms(1) by (auto simp: alloc_mmio_range_def io_simps res_simps)
  then show "r = (al_next_allocation a', len)" "unat (al_next_allocation a) = unat (al_next_allocation a') + unat len"
    using next_addr_Inr[OF n(1)] assms(2) by (cases r; auto simp: mmio_range_ok_def)+
qed

lemma mmio_ranges_adjacent:
  assumes "mmio_ranges rng irq s = Some (s', Inr (b, c))" "mmio_range_ok rng"
  shows "snd (mc_range b) = 0x1000 \<and> snd (mc_range c) = 0x1000 \<and>
    unat (fst (mc_range b)) = unat (fst (mc_range c)) + 0x1000 \<and> unat (fst (mc_range b)) + 0x1000 \<le> unat (al_next_allocation (snd s))"
proof -
  obtain s1 a1 r1 r2 where 1: "alloc_mmio_range rng 0x1000 (fst s, snd s) = Some ((s1, a1), Inr r1)"
    and 2: "alloc_mmio_range rng 0x1000 (s1, a1) = Some ((fst s', snd s'), Inr r2)"
    and e: "mc_range b = r1" "mc_range c = r2"
    using assms(1) by (auto simp: mmio_ranges_def io_simps)
  show ?thesis
    using alloc_mmio_range_Inr[OF 1 assms(2)] alloc_mmio_range_Inr[OF 2 assms(2)] e by simp
qed

text \<open>
  C20: The MMIO exits that are taken from the hypervisor are exactly the accesses to the address ranges of the
  two devices, but for the last byte of the range of the block device: all other accesses are left
  to the hypervisor.
\<close>

theorem forwarded_iff_device:
  assumes "device_context_new e env de co use conv rng range_last irq backing pts s = Some (s', Inr ctx)"
    and "mmio_range_ok rng" "range_last = (\<lambda>(b, n). b + n - 1)"
  shows "forwarded (dc_first_mmio_addr ctx) (dc_last_mmio_addr ctx) a \<longleftrightarrow>
    (in_range (mc_range (bd_mmio_cfg (dc_blkdev ctx))) a \<or> in_range (mc_range (cd_mmio_cfg (dc_console ctx))) a) \<and>
    a \<noteq> dc_last_mmio_addr ctx"
proof -
  obtain s0 s2 x b c where "hv_get_maps (he_os e) env (he_me e) (fst s) = Some (s0, Inr x)"
    and m: "mmio_ranges rng irq (s0, snd s) = Some (s2, Inr (b, c))"
    and d: "bd_mmio_cfg (dc_blkdev ctx) = b" "cd_mmio_cfg (dc_console ctx) = c" "dc_first_mmio_addr ctx = fst (mc_range c)"
      "dc_last_mmio_addr ctx = range_last (mc_range b)"
    using assms(1)
    by (auto simp: device_context_new_def io_simps split: prod.splits dest!: block_new_cfg console_new_cfg)
  let ?B = "fst (mc_range b)" and ?C = "fst (mc_range c)"
  note adj = mmio_ranges_adjacent[OF m assms(2)]
  have "unat (al_next_allocation (snd s)) < 2 ^ 64"
    using unsigned_less[of "al_next_allocation (snd s)", where ?'a = nat] by simp
  then have "unat ?B + 0xFFF < 2 ^ 64" using adj by simp
  then have "unat (?B + 0xFFF) = unat ?B + 0xFFF" by (subst unat_add_no_overflow) simp_all
  moreover have "dc_last_mmio_addr ctx = ?B + 0xFFF"
    using adj d(4) by (simp add: assms(3) case_prod_unfold)
  ultimately show ?thesis
    using adj by (auto simp: forwarded_def in_range_def d(1-3) word_le_nat_alt word_less_nat_alt unat_arith_simps)
qed

section \<open>The state the guest sees\<close>

text \<open>
  \<open>status_ok os dn D\<close>: \<open>D\<close> is the word at the address of the device state in the memory of the guest; writing it there
  stores it, and nothing else the notifier does changes it. The lock is a variable of its own.
\<close>

definition status_ok :: "'w os \<Rightarrow> 'w notifier \<Rightarrow> ('w \<Rightarrow> u32) \<Rightarrow> bool" where
  "status_ok os dn D \<longleftrightarrow>
     (\<forall>v w w'. os_vm_write os (hv_pid (dn_hv dn)) (dn_device_status dn) (word_bytes 4 v) w = Some (w', Inr ()) \<longrightarrow>
        D w' = v \<and> cell_get (dn_lock dn) w' = cell_get (dn_lock dn) w) \<and>
     (\<forall>p a n w w' r. os_vm_read os p a n w = Some (w', r) \<longrightarrow>
        D w' = D w \<and> cell_get (dn_lock dn) w' = cell_get (dn_lock dn) w) \<and>
     (\<forall>x w. cell_get (dn_lock dn) (cell_put (dn_lock dn) x w) = x \<and> D (cell_put (dn_lock dn) x w) = D w)"

definition synced :: "'w notifier \<Rightarrow> ('w \<Rightarrow> u32) \<Rightarrow> 'w \<Rightarrow> bool" where
  "synced dn D w \<longleftrightarrow> D w = device_state_nr (cell_get (dn_lock dn) w)"

text \<open>The operations of the threads on the notifier, when they succeed.\<close>

inductive dn_step :: "'w os \<Rightarrow> device_state codec \<Rightarrow> 'w notifier \<Rightarrow> 'w \<Rightarrow> 'w \<Rightarrow> bool"
  for os :: "'w os" and c :: "device_state codec" and dn :: "'w notifier" where
  step_notify: "dn_notify os dn st w = Some (w', Inr ()) \<Longrightarrow> dn_step os c dn w w'"
| step_terminate: "dn_terminate os c dn w = Some (w', Inr ()) \<Longrightarrow> dn_step os c dn w w'"

lemma dn_update_Inr:
  assumes "status_ok os dn D" "dn_update os dn st w = Some (w', Inr ())"
  shows "D w' = device_state_nr st" "cell_get (dn_lock dn) w' = cell_get (dn_lock dn) w"
proof -
  have "os_vm_write os (hv_pid (dn_hv dn)) (dn_device_status dn) (word_bytes 4 (device_state_nr st)) w = Some (w', Inr ())"
    using assms(2) by (auto simp: dn_update_def with_local_def device_status_update_def process_write_def io_simps)
  then show "D w' = device_state_nr st" "cell_get (dn_lock dn) w' = cell_get (dn_lock dn) w"
    using assms(1) unfolding status_ok_def by blast+
qed

lemma driver_status_check_frame:
  assumes "status_ok os dn D"
    and "try_io (with_local (dn_hv dn) (driver_status_check os c a)) m w = Some (w1, x)"
  shows "D w1 = D w \<and> cell_get (dn_lock dn) w1 = cell_get (dn_lock dn) w"
proof -
  obtain r where "os_vm_read os (hv_pid (dn_hv dn)) a (unat (cd_size c)) w = Some (w1, r)"
    using assms(2)
    by (auto simp: try_io_def with_local_def driver_status_check_def process_read_def on_fst_def ret_def bind_io_def get_st_def
        split: option.splits sum.splits)
  then show ?thesis using assms(1) unfolding status_ok_def by blast
qed

lemma dn_wait_driver_frame:
  assumes "dn_wait_driver os c dn w = Some y" "status_ok os dn D"
  shows "D (fst y) = D w \<and> cell_get (dn_lock dn) (fst y) = cell_get (dn_lock dn) w"
  using assms
proof (induction rule: dn_wait_driver.raw_induct[rotated, consumes 1, case_names step])
  case (step f os c dn w y)
  obtain w' r where y: "y = (w', r)" by fastforce
  from step(2)[unfolded y] show ?case
  proof (rule bind_io_SomeE)
    fix e assume "try_io (with_local (dn_hv dn) (driver_status_check os c (dn_driver_status dn))) ''cannot check device state'' w = Some (w', Inl e)"
    from driver_status_check_frame[OF step(3) this] show ?thesis by (simp add: y)
  next
    fix w1 st
    assume "try_io (with_local (dn_hv dn) (driver_status_check os c (dn_driver_status dn))) ''cannot check device state'' w = Some (w1, Inr st)"
      and rest: "(case st of Ready \<Rightarrow> f os c dn w1 | Terminating \<Rightarrow> Some (w1, Inr ()) | _ \<Rightarrow> Some (w1, bail ''unexpected driver state'')) = Some (w', r)"
    note same = driver_status_check_frame[OF step(3) this(1)]
    show ?thesis using rest same step(1)[of os c dn w1 y] step(3) by (auto simp: y split: device_state.splits)
  qed
qed

lemma dn_step_synced:
  assumes "status_ok os dn D" "dn_step os c dn w w'" "synced dn D w"
  shows "synced dn D w' \<and> (cell_get (dn_lock dn) w \<noteq> Initializing \<longrightarrow>
    cell_get (dn_lock dn) w' = cell_get (dn_lock dn) w \<or> cell_get (dn_lock dn) w' = Terminating)"
  using assms(2)
proof cases
  case (step_notify st)
  show ?thesis
  proof (cases "cell_get (dn_lock dn) w = Initializing")
    case True
    then have "dn_update os dn st (cell_put (dn_lock dn) st w) = Some (w', Inr ())"
      using step_notify by (auto simp: dn_notify_def read_cell_def write_cell_def bind_io_def io_simps)
    from dn_update_Inr[OF assms(1) this] assms(1) True show ?thesis by (simp add: synced_def status_ok_def)
  next
    case False
    then have "w' = w" using step_notify by (simp add: dn_notify_def read_cell_def bind_io_def ret_def)
    then show ?thesis using assms(3) by simp
  qed
next
  case step_terminate
  then obtain w1 where u: "dn_update os dn Terminating (cell_put (dn_lock dn) Terminating w) = Some (w1, Inr ())"
    and d: "dn_wait_driver os c dn w1 = Some (w', Inr ())"
    by (auto simp: dn_terminate_def read_cell_def write_cell_def io_simps lift_res_def bind_io_def[of "\<lambda>w. Some _"] split: if_splits)
  from dn_update_Inr[OF assms(1) u] dn_wait_driver_frame[OF d assms(1)] assms(1)
  show ?thesis by (simp add: synced_def status_ok_def)
qed


section \<open>An example\<close>

text \<open>
  A process in which every system call returns 0, and \<^verbatim>\<open>recvmsg\<close> receives the descriptor 9; the world is the number
  of the last call.
\<close>

lemma dev_ex_fields [simp]:
  "de_register_mmio dev_ex r w = Some (w, Inr ())" "de_queue_new dev_ex n = Inr n"
  "vf_interrupt_status (de_config_new dev_ex f qs cs) = 0" "de_now dev_ex w = Some (w, Inr 0)"
  "de_open dev_ex p b c w = Some (w, Inr 5)" "de_seek_end dev_ex fd w = Some (w, Inr 1124)"
  by (simp_all add: dev_ex_def ret_def)

definition toy_os :: "u64 os" where
  "toy_os = \<lparr>
     os_getregs = (\<lambda>p n. Some (n, Inr (zero_regs\<lparr>rip := 0x400002, rax := (if n = 47 then 1 else 0)\<rparr>))),
     os_setregs = (\<lambda>p r _. Some (rax r, Inr ())),
     os_read = (\<lambda>p a. ret 0), os_write = (\<lambda>p a v. ret ()), os_seize = (\<lambda>p. ret ()), os_interrupt = (\<lambda>p. ret ()),
     os_detach = (\<lambda>p. ret ()), os_syscall = (\<lambda>p. ret ()), os_cont = (\<lambda>p sig. ret ()),
     os_waitpid = (\<lambda>p f. ret (PtraceSyscall p)), os_getpgid = (\<lambda>p. ret p), os_getpgrp = ret 1,
     os_tasks = (\<lambda>p. ret []),
     os_vm_read = (\<lambda>p a n. ret (if n = 1 then [1] else if n = 64 then scm_message [9] (replicate 44 0) else replicate n 0)),
     os_vm_write = (\<lambda>p a bs. ret ())\<rparr>"

lemma toy_os_fields [simp]:
  "os_getregs toy_os p n = Some (n, Inr (zero_regs\<lparr>rip := 0x400002, rax := (if n = 47 then 1 else 0)\<rparr>))"
  "os_setregs toy_os p r n = Some (rax r, Inr ())" "os_syscall toy_os p n = Some (n, Inr ())"
  "os_waitpid toy_os p f n = Some (n, Inr (PtraceSyscall p))" "os_vm_write toy_os p a bs n = Some (n, Inr ())"
  "os_vm_read toy_os p a l n =
     Some (n, Inr (if l = 1 then [1] else if l = 64 then scm_message [9] (replicate 44 0) else replicate l 0))"
  by (simp_all add: toy_os_def ret_def)

definition toy_le :: "u64 lenv" where
  "toy_le = \<lparr>le_getpid = 3, le_new_abstract = (\<lambda>s. Inr ([], 5)), le_socket = ret 4, le_bind = (\<lambda>fd a. ret ()),
     le_connect = (\<lambda>fd a. ret ()), le_sendmsg = (\<lambda>fd m f. ret 1), le_recvmsg = (\<lambda>fd b. ret (Inl 9)), le_close = (\<lambda>fd. ret ()),
     le_eventfd = ret 5, le_socketpair = ret (6, 7), le_dup = (\<lambda>fd. ret 8), le_eventfd_write = (\<lambda>fd n. ret ()),
     le_ppoll = (\<lambda>fd t. ret (0, False)), le_read = (\<lambda>fd n. ret []), le_write = (\<lambda>fd bs. ret (of_nat (length bs)))\<rparr>"

lemma toy_le_fields [simp]:
  "le_sendmsg toy_le fd m f w = Some (w, Inr 1)" "le_eventfd toy_le w = Some (w, Inr 5)" "le_close toy_le fd w = Some (w, Inr ())"
  by (simp_all add: toy_le_def ret_def)

definition toy_codec :: "'a \<Rightarrow> usize \<Rightarrow> 'a codec" where
  "toy_codec x sz = \<lparr>cd_size = sz, cd_enc = (\<lambda>_. []), cd_dec = (\<lambda>_. x)\<rparr>"

definition toy_env :: "u64 hv_env" where
  "toy_env = \<lparr>he_os = toy_os, he_le = toy_le, he_iovec = toy_codec \<lparr>iov_base = 0, iov_len = 1\<rparr> 16,
     he_msghdr = toy_codec \<lparr>msg_name = 0, msg_namelen = 0, msg_iov = 0, msg_iovlen = 1, msg_control = 0, msg_controllen = 24,
       msg_flags = 0\<rparr> 56, he_me = 1\<rparr>"

definition toy_mem :: "usize \<Rightarrow> hv_mem" where
  "toy_mem sz = \<lparr>hm_ptr = 0, hm_pid = 7, hm_size = sz\<rparr>"

definition toy_hv :: hypervisor where
  "toy_hv = sim_hv\<lparr>hv_transfer_ctx := Some \<lparr>tc_local_sock = 4, tc_remote_sock = 5, tc_msg_hdr_mem = toy_mem 56,
     tc_iov_mem = toy_mem 16, tc_iov_buf_mem = toy_mem 1, tc_cmsg_mem = toy_mem 64\<rparr>\<rparr>"

lemma toy_hv_fields [simp]:
  "hv_tracee toy_hv = \<lparr>te_pid = 7, te_vm_fd = 4, te_proc = Some sim_proc\<rparr>" "hv_pid toy_hv = 7"
  by (simp_all add: toy_hv_def sim_hv_def)

lemma toy_proc: "pr_main_thread sim_proc = Inr \<lparr>tid = 7\<rparr>" "pr_owner sim_proc = Some 1" "rip (pr_saved_regs sim_proc) = 0x400000"
  by (simp_all add: pr_main_thread_def sim_proc_def sim_threads_def index_res_def sim0_def)

lemma toy_wait: "wait_for_syscall toy_os sim_proc w = Some (w, Inr ())"
  by (subst wait_for_syscall.simps) (simp add: toy_proc th_syscall_def bind_io_def try_io_def lift_res_def ret_def)

lemma toy_syscall [simp]:
  "length xs \<le> 6 \<Longrightarrow> proc_syscall toy_os (Suc 0) sim_proc (syscall_args (pr_saved_regs sim_proc) (n # xs)) w =
     Some (n, Inr (if n = 47 then 1 else 0))"
  by (simp add: proc_syscall_def toy_proc toy_wait check_owner_def bind_io_def lift_res_def try_io_def th_setregs_def th_getregs_def
      syscall_args_def prepare_syscall_def ret_def chk_sub_def assert_res_def reg_ip_def SYSCALL_SIZE_def syscall_ret_def)

lemma toy_calls [simp]:
  "proc_ioctl toy_os (Suc 0) sim_proc fd r a w = Some (16, Inr 0)"
  "proc_mmap toy_os (Suc 0) sim_proc x1 x2 x3 x4 x5 x6 w = Some (9, Inr 0)"
  "proc_munmap toy_os (Suc 0) sim_proc y1 y2 w = Some (11, Inr ())"
  "proc_recvmsg toy_os (Suc 0) sim_proc fd y3 y4 w = Some (47, Inr 1)"
  by (simp_all add: proc_ioctl_def proc_mmap_def proc_munmap_def proc_recvmsg_def bind_io_def ret_def)

lemma toy_alloc_mem [simp]: "alloc_mem toy_os (Suc 0) sz (w, toy_hv) = Some ((9, toy_hv), Inr (toy_mem sz))"
  by (simp add: alloc_mem_def alloc_mem_padded_def te_mmap_def try_get_proc_def on_fst_def bind_io_def get_st_def lift_res_def ret_def toy_mem_def)

lemma toy_hv_drop [simp]: "hv_drop toy_os (Suc 0) m (w, toy_hv) = Some ((11, toy_hv), Inr ())"
  by (simp add: hv_drop_def hv_mem_drop_def te_munmap_def try_get_proc_def on_fst_def bind_io_def get_st_def lift_res_def)

lemma toy_vm_write [simp]: "hv_write toy_os c m v w = Some (w, Inr ())"
  by (simp add: hv_write_def process_write_def)

lemma toy_recv_loop: "recvmsg_loop toy_os (Suc 0) sim_proc fd hdr w = Some (47, Inr ())"
  by (subst recvmsg_loop.simps) (simp add: bind_io_def word_sless_alt)

lemma toy_transfer: "he_transfer_one toy_env fd (w, toy_hv) = Some ((47, toy_hv), Inr 9)"
proof -
  have "length (scm_message [9 :: raw_fd] (replicate 44 0)) = 64" by (simp add: scm_message_def)
  have p: "parse_scm_rights (scm_message [9] (replicate 44 0)) 24 w = Some (w, Inr [9])" for w :: u64
    by (rule scm_rights_roundtrip) (simp_all add: CMSG_HDR_SIZE_def)
  have r: "hv_sock_receive toy_os (he_iovec toy_env) (he_msghdr toy_env) (Suc 0) sim_proc 5 (toy_mem 56) (toy_mem 16) (toy_mem 1) (toy_mem 64) w
      = Some (47, Inr ([1], [9]))" for w
    by (simp add: hv_sock_receive_def bind_io_def toy_recv_loop process_read_def hv_read_def toy_env_def toy_codec_def)
      (simp add: toy_mem_def ret_def p)
  have c: "hv_transfer_ctx toy_hv = Some \<lparr>tc_local_sock = 4, tc_remote_sock = 5, tc_msg_hdr_mem = toy_mem 56,
     tc_iov_mem = toy_mem 16, tc_iov_buf_mem = toy_mem 1, tc_cmsg_mem = toy_mem 64\<rparr>" by (simp add: toy_hv_def)
  have e: "he_os toy_env = toy_os" "he_me toy_env = Suc 0" "he_le toy_env = toy_le" by (simp_all add: toy_env_def)
  show ?thesis
    by (simp add: he_transfer_one_def transfer_one_def transfer_def e c bind_io_def get_st_def on_fst_def r try_get_proc_def
      sock_send_def try_io_def lift_res_def ret_def index_res_def)
qed


lemma toy_env_fields [simp]: "he_os toy_env = toy_os" "he_me toy_env = Suc 0" "he_le toy_env = toy_le"
  by (simp_all add: toy_env_def)

definition toy_codecs :: codecs where
  "toy_codecs = \<lparr>co_irqfd = toy_codec \<lparr>ki_fd = 0, ki_gsi = 0, ki_flags = 0, ki_resamplefd = 0\<rparr> 32,
     co_ioeventfd = toy_codec (kvm_ioeventfd 0 0 0 None) 64, co_ioregion = toy_codec (kvm_ioregion_new 0 0 0 0) 64\<rparr>"

lemma toy_irqfd: "he_irqfd toy_env toy_codecs gsi (w, toy_hv) = Some ((11, toy_hv), Inr 5)"
  using toy_transfer
  by (simp add: he_irqfd_def irqfd_def bind_io_def on_fst_def try_io_def on_err_def he_transfer_one_def with_mem_def with_drop_def get_st_def
     vm_ioctl_with_ref_def vm_ioctl_def try_get_proc_def lift_res_def ret_def)

lemma toy_register: "\<exists>i. register_queue toy_env toy_codecs False cfg idx (w, toy_hv) = Some ((16, toy_hv), Inr (i, []))"
  if "fst (mc_range cfg) = 0x10F000 \<or> fst (mc_range cfg) = 0x10E000"
  using that toy_transfer
  by (auto simp: register_queue_def io_event_register_def register_ioeventfd_def io_event_fd_new_def bind_io_def on_fst_def try_io_def on_err_def
     guard_mem_def vm_request_def get_st_def vm_ioctl_with_ref_def vm_ioctl_def try_get_proc_def lift_res_def ret_def chk_add_def VIRTIO_MMIO_QUEUE_NOTIFY_OFFSET_def)


lemma toy_events:
  assumes "fst (mc_range cfg) = 0x10F000 \<or> fst (mc_range cfg) = 0x10E000"
  shows "\<exists>irq i. new_events toy_env dev_ex toy_codecs False cfg status idx (w, toy_hv) =
    Some ((16, toy_hv), Inr (5, irq, None, i, []))"
proof -
  obtain i where "register_queue toy_env toy_codecs False cfg idx (11, toy_hv) = Some ((16, toy_hv), Inr (i, []))"
    using toy_register[OF assms] by blast
  then show ?thesis
    by (simp add: new_events_def map_err_def try_io_def bind_io_def toy_irqfd on_err_def on_fst_def irq_ack_new_def irq_env_of_def
        maybe_ioregionfd_def ret_def)
qed

lemma toy_block:
  assumes "fst (mc_range (ba_mmio_cfg a)) = 0x10F000"
  shows "\<exists>d. block_new toy_env dev_ex toy_codecs False a (w, toy_hv) = Some ((16, toy_hv), Inr d)"
proof -
  obtain irq i where n: "new_events toy_env dev_ex toy_codecs False (ba_mmio_cfg a) 0 0 (w, toy_hv) = Some ((16, toy_hv), Inr (5, irq, None, i, []))"
    using toy_events assms by blast
  have "blk_config_space toy_env dev_ex p w = Some (w, Inr (word_bytes 8 (2 :: u64)))" for p w
    by (simp add: blk_config_space_def map_err_def try_io_def bind_io_def with_drop_def fd_drop_def ret_def SECTOR_SHIFT_def)
  then show ?thesis
    by (simp add: block_new_def lift_res_def bind_io_def on_fst_def n Let_def get_st_def on_err_def map_err_def try_io_def ret_def)
qed

lemma toy_console:
  assumes "fst (mc_range (ca_mmio_cfg a)) = 0x10E000"
  shows "\<exists>d. console_new toy_env dev_ex toy_codecs False a (w, toy_hv) = Some ((16, toy_hv), Inr d)"
proof -
  obtain irq i where n: "new_events toy_env dev_ex toy_codecs False (ca_mmio_cfg a) 0 (ucast TX_QUEUE_IDX) (w, toy_hv) = Some ((16, toy_hv), Inr (5, irq, None, i, []))"
    using toy_events assms by blast
  then show ?thesis
    by (simp add: console_new_def lift_res_def bind_io_def on_fst_def n Let_def get_st_def on_err_def map_err_def try_io_def ret_def)
qed

definition toy_kenv :: "u64 kenv" where
  "toy_kenv = \<lparr>ke_attach_bpf = (\<lambda>p. ret ()), ke_recv_memslots = ret [], ke_maps = (\<lambda>p. ret [])\<rparr>"

lemma toy_context:
  "\<exists>s ctx. device_context_new toy_env toy_kenv dev_ex toy_codecs False (\<lambda>p ms. Inr ()) sim_mmio_new (\<lambda>(b, n). b + n - 1) 6 ''disk.img'' None
     ((0, toy_hv), sim_allocator) = Some (s, Inr ctx) \<and>
     mc_range (bd_mmio_cfg (dc_blkdev ctx)) = (0x10F000, 0x1000) \<and> mc_range (cd_mmio_cfg (dc_console ctx)) = (0x10E000, 0x1000) \<and>
     dc_last_mmio_addr ctx = 0x10FFFF"
proof -
  have g: "hv_get_maps toy_os toy_kenv (Suc 0) (0, toy_hv) = Some ((16, toy_hv), Inr [])"
    by (simp add: hv_get_maps_def te_get_maps_def toy_kenv_def bind_io_def get_st_def on_fst_def ret_def try_io_def te_check_extension_def vm_ioctl_def
       try_get_proc_def lift_res_def get_maps_def)
  have m: "mmio_ranges sim_mmio_new 6 (w, sim_allocator) =
     Some ((w, sim_allocator\<lparr>al_next_allocation := 0x10E000\<rparr>), Inr (\<lparr>mc_range = (0x10F000, 0x1000), mc_gsi = 6\<rparr>, \<lparr>mc_range = (0x10E000, 0x1000), mc_gsi = 6\<rparr>))" for w :: "u64 \<times> hypervisor"
    by (simp add: mmio_ranges_def alloc_mmio_range_def next_addr_def sim_allocator_def checked_sub_def last_memslot_range_def last_range_def
      ex_slots_def lift_res_def upd_snd_def ret_def sim_mmio_new_def checked_add_def bind_io_def get_st_def)
  obtain d where b: "block_new toy_env dev_ex toy_codecs False \<lparr>ba_mmio_cfg = \<lparr>mc_range = (0x10F000, 0x1000), mc_gsi = 6\<rparr>, ba_file_path = ''disk.img'',
      ba_read_only = False, ba_root_device = True, ba_advertise_flush = True\<rparr> (16, toy_hv) = Some ((16, toy_hv), Inr d)"
    using toy_block[of "\<lparr>ba_mmio_cfg = \<lparr>mc_range = (0x10F000, 0x1000), mc_gsi = 6\<rparr>, ba_file_path = ''disk.img'',
      ba_read_only = False, ba_root_device = True, ba_advertise_flush = True\<rparr>"] by auto
  obtain c where c: "console_new toy_env dev_ex toy_codecs False \<lparr>ca_mmio_cfg = \<lparr>mc_range = (0x10E000, 0x1000), mc_gsi = 6\<rparr>, ca_pts = None\<rparr> (16, toy_hv)
      = Some ((16, toy_hv), Inr c)"
    using toy_console[of "\<lparr>ca_mmio_cfg = \<lparr>mc_range = (0x10E000, 0x1000), mc_gsi = 6\<rparr>, ca_pts = None\<rparr>"] by auto
  show ?thesis
    using block_new_cfg[OF b] console_new_cfg[OF c]
    by (simp add: device_context_new_def bind_io_def on_fst_def g try_io_def get_st_def lift_res_def m b c on_err_def ret_def)
qed

theorem forwarded_iff_device_witness:
  "\<exists>s ctx. device_context_new toy_env toy_kenv dev_ex toy_codecs False (\<lambda>p ms. Inr ()) sim_mmio_new (\<lambda>(b, n). b + n - 1) 6 ''disk.img'' None
     ((0, toy_hv), sim_allocator) = Some (s, Inr ctx) \<and>
     forwarded (dc_first_mmio_addr ctx) (dc_last_mmio_addr ctx) 0x10E050 \<and>
     \<not> forwarded (dc_first_mmio_addr ctx) (dc_last_mmio_addr ctx) 0x110000"
proof -
  obtain s ctx where c: "device_context_new toy_env toy_kenv dev_ex toy_codecs False (\<lambda>p ms. Inr ()) sim_mmio_new (\<lambda>(b, n). b + n - 1) 6
      ''disk.img'' None ((0, toy_hv), sim_allocator) = Some (s, Inr ctx)"
    and r: "mc_range (bd_mmio_cfg (dc_blkdev ctx)) = (0x10F000, 0x1000)" "mc_range (cd_mmio_cfg (dc_console ctx)) = (0x10E000, 0x1000)"
      "dc_last_mmio_addr ctx = 0x10FFFF"
    using toy_context by blast
  have f: "forwarded (dc_first_mmio_addr ctx) (dc_last_mmio_addr ctx) x \<longleftrightarrow>
      (in_range (0x10F000, 0x1000) x \<or> in_range (0x10E000, 0x1000) x) \<and> x \<noteq> 0x10FFFF" for x
    using forwarded_iff_device[OF c sim_mmio_ok refl] unfolding r by blast
  have "forwarded (dc_first_mmio_addr ctx) (dc_last_mmio_addr ctx) 0x10E050" unfolding f by (simp add: in_range_def)
  moreover have "\<not> forwarded (dc_first_mmio_addr ctx) (dc_last_mmio_addr ctx) 0x110000" unfolding f by (simp add: in_range_def)
  ultimately show ?thesis using c by blast
qed

text \<open>For the notifier, the world is the pair of the lock and the word in the guest; the driver has terminated.\<close>

definition toy_notify_os :: "(device_state \<times> u32) os" where
  "toy_notify_os = \<lparr>os_getregs = (\<lambda>p. ret zero_regs), os_setregs = (\<lambda>p r. ret ()), os_read = (\<lambda>p a. ret 0), os_write = (\<lambda>p a v. ret ()),
     os_seize = (\<lambda>p. ret ()), os_interrupt = (\<lambda>p. ret ()), os_detach = (\<lambda>p. ret ()), os_syscall = (\<lambda>p. ret ()), os_cont = (\<lambda>p sig. ret ()),
     os_waitpid = (\<lambda>p f. ret (PtraceSyscall p)), os_getpgid = (\<lambda>p. ret p), os_getpgrp = ret 1, os_tasks = (\<lambda>p. ret []),
     os_vm_read = (\<lambda>p a n. ret (replicate n 0)), os_vm_write = (\<lambda>p a bs w. Some ((fst w, field 0 4 bs), Inr ()))\<rparr>"

definition toy_notifier :: "(device_state \<times> u32) notifier" where
  "toy_notifier = \<lparr>dn_lock = \<lparr>cell_get = fst, cell_put = (\<lambda>x w. (x, snd w))\<rparr>, dn_device_status = 0x8000, dn_driver_status = 0x8004,
     dn_hv = toy_hv\<rparr>"

lemma toy_status_ok: "status_ok toy_notify_os toy_notifier snd"
  using field_hit[of 4 _ "[]", where ?'a = 32] by (simp add: status_ok_def toy_notify_os_def toy_notifier_def ret_def)

lemma toy_notify_steps:
  "dn_step toy_notify_os (toy_codec Terminating 4) toy_notifier (Initializing, 1) (Ready, 2)"
  "dn_step toy_notify_os (toy_codec Terminating 4) toy_notifier (Ready, 2) (Terminating, 3)"
proof -
  have u: "dn_update toy_notify_os toy_notifier st (x, v) = Some ((x, device_state_nr st), Inr ())" for st x v
    using field_hit[of 4 "device_state_nr st" "[]"]
    by (simp add: dn_update_def with_local_def device_status_update_def bind_io_def get_st_def try_io_def on_fst_def process_write_def
        toy_notify_os_def toy_notifier_def)
  have n: "dn_notify toy_notify_os toy_notifier Ready (Initializing, 1) = Some ((Ready, 2), Inr ())"
    using u[of Ready] by (simp add: dn_notify_def read_cell_def write_cell_def bind_io_def try_io_def) (simp add: toy_notifier_def)
  have w: "dn_wait_driver toy_notify_os (toy_codec Terminating 4) toy_notifier v = Some (v, Inr ())" for v
    by (subst dn_wait_driver.simps)
      (simp add: bind_io_def try_io_def with_local_def driver_status_check_def process_read_def get_st_def on_fst_def toy_notify_os_def
        toy_codec_def ret_def)
  have t: "dn_terminate toy_notify_os (toy_codec Terminating 4) toy_notifier (Ready, 2) = Some ((Terminating, 3), Inr ())"
    using u[of Terminating] w by (simp add: dn_terminate_def read_cell_def write_cell_def bind_io_def try_io_def) (simp add: toy_notifier_def)
  show "dn_step toy_notify_os (toy_codec Terminating 4) toy_notifier (Initializing, 1) (Ready, 2)"
    "dn_step toy_notify_os (toy_codec Terminating 4) toy_notifier (Ready, 2) (Terminating, 3)"
    by (rule step_notify[OF n], rule step_terminate[OF t])
qed


end
