(* ===== verification/Stage2_Proc.thy ===== *)
theory Stage2_Proc
  imports Fd_Transfer
begin

text \<open>
  What stage 2, the program in the user space of the guest, reads from \<^verbatim>\<open>/proc\<close> and \<^verbatim>\<open>/sys\<close> (\<^verbatim>\<open>stage2/src\<close>): the user
  namespace, the status of a process, the security module and its label, the mount options, the
  capabilities and the environment. The operating system of the guest is the record \<open>s2os\<close>. Stage 2 is built
  without overflow checks.
\<close>

section \<open>Strings\<close>

definition trim_end :: "string \<Rightarrow> string" where
  "trim_end s = rev (dropWhile is_whitespace (rev s))"

definition trim :: "string \<Rightarrow> string" where
  "trim s = trim_end (trim_start s)"

fun split_by :: "(char \<Rightarrow> bool) \<Rightarrow> string \<Rightarrow> string list" where
  "split_by p [] = [[]]"
| "split_by p (x # xs) =
     (if p x then [] # split_by p xs
      else case split_by p xs of [] \<Rightarrow> [[x]] | q # qs \<Rightarrow> (x # q) # qs)"

definition nonempty_parts :: "(char \<Rightarrow> bool) \<Rightarrow> string \<Rightarrow> string list" where
  "nonempty_parts p s = filter (\<lambda>q. q \<noteq> []) (split_by p s)"

definition split_whitespace :: "string \<Rightarrow> string list" where
  "split_whitespace = nonempty_parts is_whitespace"

fun find_sub :: "string \<Rightarrow> string \<Rightarrow> nat option" where
  "find_sub needle s =
     (if take (length needle) s = needle then Some 0
      else case s of [] \<Rightarrow> None | _ # s' \<Rightarrow> map_option Suc (find_sub needle s'))"

declare find_sub.simps [simp del]

definition contains_sub :: "string \<Rightarrow> string \<Rightarrow> bool" where
  "contains_sub s needle \<longleftrightarrow> find_sub needle s \<noteq> None"

text \<open>\<^verbatim>\<open>Path::join\<close>: an absolute path replaces the first one.\<close>

definition join_path :: "string \<Rightarrow> string \<Rightarrow> string" where
  "join_path a b =
     (if take 1 b = ''/'' then b
      else if a = [] \<or> last a = CHR ''/'' then a @ b
      else a @ CHR ''/'' # b)"

section \<open>The operating system\<close>

datatype io_kind = NotFound | AlreadyExists | WouldBlock | OtherKind

datatype open_mode = OpenRead | OpenWrite | OpenCreate

record 'w s2os =
  so_var :: "string \<Rightarrow> string option"
  so_open :: "string \<Rightarrow> open_mode \<Rightarrow> ('w, io_kind + raw_fd) io"
  so_close :: "raw_fd \<Rightarrow> ('w, unit) io"
  so_read_to_string :: "raw_fd \<Rightarrow> ('w, string) io"
  so_lines :: "raw_fd \<Rightarrow> ('w, string res list) io"
  so_split :: "char \<Rightarrow> raw_fd \<Rightarrow> ('w, string res list) io"
  so_write_all :: "raw_fd \<Rightarrow> string \<Rightarrow> ('w, unit) io"
  so_prctl :: "u64 \<Rightarrow> u64 \<Rightarrow> ('w, unit) io"

definition open_with :: "'w s2os \<Rightarrow> string \<Rightarrow> open_mode \<Rightarrow> string \<Rightarrow> ('w, raw_fd) io" where
  "open_with os path mode msg =
     bind_io (so_open os path mode) (\<lambda>r. case r of Inl _ \<Rightarrow> lift_res (bail msg) | Inr fd \<Rightarrow> ret fd)"

definition with_open :: "'w s2os \<Rightarrow> string \<Rightarrow> string \<Rightarrow> (raw_fd \<Rightarrow> ('w, 'a) io) \<Rightarrow> ('w, 'a) io" where
  "with_open os path msg k = bind_io (open_with os path OpenRead msg) (\<lambda>fd. with_drop (k fd) (so_close os fd))"

definition get_path :: "'w s2os \<Rightarrow> string" where
  "get_path os = (case so_var os ''CNTR_PROC'' of None \<Rightarrow> ''/proc'' | Some p \<Rightarrow> p)"

definition pid_path :: "'w s2os \<Rightarrow> pid \<Rightarrow> string \<Rightarrow> string" where
  "pid_path os p name = join_path (join_path (get_path os) (fmt_i32 p)) name"

section \<open>User namespaces\<close>

record extent =
  ex_first :: u32
  ex_lower_first :: u32
  ex_count :: u32

datatype map_kind = UidMap | GidMap

record id_map =
  im_nr_extents :: nat
  im_extent :: "extent list"

fun map_kind_str :: "map_kind \<Rightarrow> string" where
  "map_kind_str UidMap = ''uid_map''"
| "map_kind_str GidMap = ''gid_map''"

definition DEFAULT_EXTENT :: extent where
  "DEFAULT_EXTENT = \<lparr>ex_first = 0, ex_lower_first = 0, ex_count = 4294967295\<rparr>"

definition parse_id :: "string \<Rightarrow> u32 res" where
  "parse_id s = try_with (require_with (parse_u32 10 s) ''invalid digit'') ''invalid id value''"

definition add_extent :: "string \<Rightarrow> id_map \<Rightarrow> id_map res" where
  "add_extent line m =
     (let cols = split_whitespace line in
      bind_res (assert_res (length cols = 3) ''cols.len() == 3'') (\<lambda>_.
      bind_res (assert_res (im_nr_extents m < length (im_extent m)) ''nr_extents < extent.len()'') (\<lambda>_.
      bind_res (parse_id (cols ! 0)) (\<lambda>first.
      bind_res (parse_id (cols ! 1)) (\<lambda>lower_first.
      bind_res (parse_id (cols ! 2)) (\<lambda>cnt.
      Inr (m\<lparr>im_extent := (im_extent m)[im_nr_extents m :=
               \<lparr>ex_first = first, ex_lower_first = lower_first, ex_count = cnt\<rparr>],
             im_nr_extents := im_nr_extents m + 1\<rparr>)))))))"

fun add_extents :: "string res list \<Rightarrow> id_map \<Rightarrow> id_map res" where
  "add_extents [] m = Inr m"
| "add_extents (line # lines) m =
     bind_res (try_with line ''failed to read'') (\<lambda>l.
     bind_res (add_extent l m) (\<lambda>m'. add_extents lines m'))"

definition empty_map :: id_map where
  "empty_map = \<lparr>im_nr_extents = 0, im_extent = replicate 5 DEFAULT_EXTENT\<rparr>"

definition id_map_of_pid :: "'w s2os \<Rightarrow> pid \<Rightarrow> map_kind \<Rightarrow> ('w, id_map) io" where
  "id_map_of_pid os p kind =
     bind_io (so_open os (pid_path os p (map_kind_str kind)) OpenRead) (\<lambda>r.
     case r of
       Inl NotFound \<Rightarrow> ret (empty_map\<lparr>im_nr_extents := 1\<rparr>)
     | Inl _ \<Rightarrow> lift_res (bail ''failed to open'')
     | Inr fd \<Rightarrow>
         with_drop (bind_io (so_lines os fd) (\<lambda>lines. lift_res (add_extents lines empty_map))) (so_close os fd))"

definition new_from_pid :: "'w s2os \<Rightarrow> pid \<Rightarrow> ('w, id_map \<times> id_map) io" where
  "new_from_pid os p =
     bind_io (try_io (id_map_of_pid os p UidMap) ''failed to read uid_map'') (\<lambda>uid_map.
     bind_io (try_io (id_map_of_pid os p GidMap) ''failed to read uid_map'') (\<lambda>gid_map.
     ret (uid_map, gid_map)))"

definition extent_holds :: "u32 \<Rightarrow> extent \<Rightarrow> bool" where
  "extent_holds i e \<longleftrightarrow>
     (let first = ex_lower_first e; past = first + ex_count e - 1 in first \<le> i \<and> i \<le> past)"

definition map_id_up :: "id_map \<Rightarrow> u32 \<Rightarrow> u32" where
  "map_id_up m i =
     (case find (extent_holds i) (take (im_nr_extents m) (im_extent m)) of
        Some e \<Rightarrow> i - ex_lower_first e + ex_first e
      | None \<Rightarrow> 65534)"

section \<open>The status of a process\<close>

record proc_status =
  ps_global_pid :: pid
  ps_local_pid :: pid
  ps_inherited_capabilities :: u64
  ps_effective_capabilities :: u64

type_synonym status_acc = "pid option \<times> u64 option \<times> u64 option"

definition status_line :: "string \<Rightarrow> status_acc \<Rightarrow> status_acc res" where
  "status_line line acc =
     (case acc of (ns_pid, inherited, effective) \<Rightarrow>
      let columns = split_on (CHR 0x09) line in
      bind_res (assert_res (2 \<le> length columns) ''columns.len() >= 2'') (\<lambda>_.
      if columns ! 0 = ''NSpid:'' then
        bind_res (try_with (require_with (parse_i32 10 (last columns)) ''invalid digit'') ''read invalid pid from proc'') (\<lambda>p.
        Inr (Some p, inherited, effective))
      else if columns ! 0 = ''CapInh:'' then
        bind_res (try_with (require_with (parse_u64 16 (last columns)) ''invalid digit'') ''read invalid capability from proc'') (\<lambda>c.
        Inr (ns_pid, Some c, effective))
      else if columns ! 0 = ''CapEff:'' then
        bind_res (try_with (require_with (parse_u64 16 (last columns)) ''invalid digit'') ''read invalid capability from proc'') (\<lambda>c.
        Inr (ns_pid, inherited, Some c))
      else Inr acc))"

fun status_lines :: "string res list \<Rightarrow> status_acc \<Rightarrow> status_acc res" where
  "status_lines [] acc = Inr acc"
| "status_lines (line # lines) acc =
     bind_res (try_with line ''could not read'') (\<lambda>l.
     bind_res (status_line l acc) (\<lambda>acc'. status_lines lines acc'))"

definition status_result :: "pid \<Rightarrow> status_acc \<Rightarrow> proc_status res" where
  "status_result target acc =
     (case acc of (ns_pid, inherited, effective) \<Rightarrow>
      bind_res (try_with (require_with ns_pid ''Could not find namespace pid'') '''') (\<lambda>p.
      bind_res (try_with (require_with inherited ''Could not find inherited capabilities'') '''') (\<lambda>i.
      bind_res (try_with (require_with effective ''Could not find effective capabilities'') '''') (\<lambda>e.
      Inr \<lparr>ps_global_pid = target, ps_local_pid = p, ps_inherited_capabilities = i, ps_effective_capabilities = e\<rparr>))))"

definition status :: "'w s2os \<Rightarrow> pid \<Rightarrow> ('w, proc_status) io" where
  "status os target =
     bind_io
       (with_open os (pid_path os target ''status'') ''failed to open'' (\<lambda>fd.
        bind_io (so_lines os fd) (\<lambda>lines. lift_res (status_lines lines (None, None, None)))))
       (\<lambda>acc. lift_res (status_result target acc))"

section \<open>Mount options\<close>

definition mount_line :: "string \<Rightarrow> string option" where
  "mount_line line =
     (let tokens = nonempty_parts (\<lambda>c. c = CHR '' '' \<or> c = CHR 0x09) (trim line) in
      if 4 \<le> length tokens \<and> tokens ! 1 = ''/'' then Some (tokens ! 3) else None)"

fun find_options :: "string res list \<Rightarrow> string option res" where
  "find_options [] = Inr None"
| "find_options (line # lines) =
     bind_res (try_with line ''failed to read'') (\<lambda>l.
     case mount_line l of Some options \<Rightarrow> Inr (Some options) | None \<Rightarrow> find_options lines)"

definition find_mount_options :: "'w s2os \<Rightarrow> pid \<Rightarrow> ('w, string) io" where
  "find_mount_options os p =
     with_open os (join_path (get_path os) (fmt_i32 p @ ''/mounts'')) ''failed to open'' (\<lambda>fd.
     bind_io (so_lines os fd) (\<lambda>lines.
     bind_io (lift_res (find_options lines)) (\<lambda>r.
     lift_res (require_with r ''did not find /''))))"

text \<open>The needle is \<^verbatim>\<open>context=\<close> with a quote; \<^verbatim>\<open>split(...).next()\<close> is never \<open>None\<close>.\<close>

definition CONTEXT :: string where "CONTEXT = ''context='' @ [CHR 0x22]"

definition selinux_context :: "string \<Rightarrow> string res" where
  "selinux_context options =
     (case find_sub CONTEXT options of
        Some index \<Rightarrow> Inr (hd (split_on (CHR 0x22) (drop (index + length CONTEXT) options)))
      | None \<Rightarrow> bail ''no selinux mount option found for / entry'')"

definition parse_selinux_context :: "'w s2os \<Rightarrow> pid \<Rightarrow> ('w, string) io" where
  "parse_selinux_context os p =
     bind_io (try_io (find_mount_options os p) ''failed to parse mount options of /'') (\<lambda>options.
     lift_res (selinux_context options))"

section \<open>Security modules\<close>

datatype lsm_kind = AppArmor | SELinux

record lsm_profile =
  lp_label :: string
  lp_kind :: lsm_kind
  lp_label_file :: raw_fd

definition profile_path :: "'w s2os \<Rightarrow> lsm_kind \<Rightarrow> pid option \<Rightarrow> string" where
  "profile_path os k p =
     (case k of
        AppArmor \<Rightarrow> join_path (join_path (get_path os) (case p of None \<Rightarrow> ''self'' | Some p \<Rightarrow> fmt_i32 p)) ''attr/current''
      | SELinux \<Rightarrow> join_path (join_path (get_path os) (case p of None \<Rightarrow> ''thread-self'' | Some p \<Rightarrow> fmt_i32 p)) ''attr/exec'')"

definition is_apparmor_enabled :: "'w s2os \<Rightarrow> ('w, bool) io" where
  "is_apparmor_enabled os =
     bind_io (so_open os ''/sys/module/apparmor/parameters/enabled'' OpenRead) (\<lambda>r.
     case r of
       Inr fd \<Rightarrow>
         with_drop
           (bind_io (try_io (so_read_to_string os fd) ''failed to read'') (\<lambda>contents. ret (contents = [CHR ''Y'', CHR 0x0A])))
           (so_close os fd)
     | Inl NotFound \<Rightarrow> ret False
     | Inl _ \<Rightarrow> lift_res (bail ''failed to open''))"

fun selinux_line :: "string res list \<Rightarrow> bool res" where
  "selinux_line [] = Inr False"
| "selinux_line (line # lines) =
     bind_res (try_with line ''failed to read from /proc/filesystems'') (\<lambda>l.
     if contains_sub l ''selinuxfs'' then Inr True else selinux_line lines)"

definition is_selinux_enabled :: "'w s2os \<Rightarrow> ('w, bool) io" where
  "is_selinux_enabled os =
     with_open os ''/proc/filesystems'' ''failed to open /proc/filesystems'' (\<lambda>fd.
     bind_io (so_lines os fd) (\<lambda>lines. lift_res (selinux_line lines)))"

definition check_type :: "'w s2os \<Rightarrow> ('w, lsm_kind option) io" where
  "check_type os =
     bind_io (try_io (is_apparmor_enabled os) ''failed to check availability of apparmor'') (\<lambda>aa.
     if aa then ret (Some AppArmor)
     else
       bind_io (try_io (is_selinux_enabled os) ''failed to check availability of selinux'') (\<lambda>se.
       ret (if se then Some SELinux else None)))"

definition read_proclabel :: "'w s2os \<Rightarrow> string \<Rightarrow> lsm_kind \<Rightarrow> ('w, string) io" where
  "read_proclabel os path kind =
     with_open os path ''failed to open'' (\<lambda>fd.
     bind_io (try_io (so_read_to_string os fd) ''failed to read'') (\<lambda>attr.
     ret (if kind = AppArmor then splitn 2 (CHR '' '') (trim_end attr) ! 0 else attr)))"

definition read_profile :: "'w s2os \<Rightarrow> pid \<Rightarrow> ('w, lsm_profile option) io" where
  "read_profile os p =
     bind_io (check_type os) (\<lambda>kind.
     case kind of
       None \<Rightarrow> ret None
     | Some kind \<Rightarrow>
         bind_io (try_io (read_proclabel os (profile_path os kind (Some p)) kind)
           ''failed to get security label of target process'') (\<lambda>target_label.
         bind_io (try_io (read_proclabel os (profile_path os kind None) kind) ''failed to get own security label'') (\<lambda>own_label.
         if target_label = own_label then ret None
         else
           bind_io (open_with os (profile_path os kind None) OpenWrite ''failed to open'') (\<lambda>fd.
           ret (Some \<lparr>lp_label = target_label, lp_kind = kind, lp_label_file = fd\<rparr>)))))"

text \<open>Consumes the profile, so the file is closed.\<close>

definition inherit_profile :: "'w s2os \<Rightarrow> lsm_profile \<Rightarrow> ('w, unit) io" where
  "inherit_profile os p =
     with_drop
       (try_io
          (so_write_all os (lp_label_file p)
             (case lp_kind p of AppArmor \<Rightarrow> ''changeprofile '' @ lp_label p | SELinux \<Rightarrow> lp_label p))
          ''failed to write to /proc/self/attr/current'')
       (so_close os (lp_label_file p))"

definition mount_label :: "'w s2os \<Rightarrow> lsm_profile \<Rightarrow> pid \<Rightarrow> ('w, string option) io" where
  "mount_label os p target =
     (case lp_kind p of
        AppArmor \<Rightarrow> ret None
      | SELinux \<Rightarrow>
          bind_io (try_io (parse_selinux_context os target) ''failed to parse selinux mount options'') (\<lambda>c.
          ret (Some c)))"

section \<open>Capabilities\<close>

definition CAP_SYS_CHROOT :: nat where "CAP_SYS_CHROOT = 18"
definition CAP_SYS_PTRACE :: nat where "CAP_SYS_PTRACE = 19"
definition PR_CAPBSET_DROP :: u64 where "PR_CAPBSET_DROP = 24"

definition last_capability :: "'w s2os \<Rightarrow> ('w, u64) io" where
  "last_capability os =
     with_open os ''/proc/sys/kernel/cap_last_cap'' ''failed to open'' (\<lambda>fd.
     bind_io (try_io (so_read_to_string os fd) ''failed to read'') (\<lambda>contents.
     lift_res (try_with (require_with (parse_u64 10 (butlast contents)) ''invalid digit'') ''failed to parse capability'')))"

definition inheritable :: "u64 \<Rightarrow> u64" where
  "inheritable caps = caps OR push_bit CAP_SYS_CHROOT 1 OR push_bit CAP_SYS_PTRACE 1"

text \<open>A shift by 64 or more uses the lowest six bits of the distance.\<close>

definition dropped_caps :: "u64 \<Rightarrow> u64 \<Rightarrow> u64 list" where
  "dropped_caps caps last_cap =
     map of_nat (filter (\<lambda>cap. inheritable caps AND push_bit (cap mod 64) 1 = 0) [0..<unat last_cap])"

definition drop_caps :: "'w s2os \<Rightarrow> u64 \<Rightarrow> ('w, unit) io" where
  "drop_caps os caps =
     bind_io (try_io (last_capability os) ''failed to read capability limit'') (\<lambda>last_cap.
     for_io (dropped_caps caps last_cap) (\<lambda>cap. ignore_io (so_prctl os PR_CAPBSET_DROP cap)))"

section \<open>The command\<close>

type_synonym environment = "string \<Rightarrow> string option"

record cmd =
  cm_environment :: environment
  cm_command :: string
  cm_arguments :: "string list"
  cm_home :: "string option"

definition env_entry :: "string res \<Rightarrow> (string \<times> string) option" where
  "env_entry var =
     (case var of
        Inl _ \<Rightarrow> None
      | Inr v \<Rightarrow> (case splitn 2 (CHR ''='') v of [k, x] \<Rightarrow> Some (k, x) | _ \<Rightarrow> None))"

definition collect_env :: "string res list \<Rightarrow> environment" where
  "collect_env vars = fold (\<lambda>(k, x) e. e(k \<mapsto> x)) (List.map_filter env_entry vars) Map.empty"

definition read_environment :: "'w s2os \<Rightarrow> pid \<Rightarrow> ('w, environment) io" where
  "read_environment os p =
     with_open os (pid_path os p ''environ'') ''failed to open'' (\<lambda>fd.
     bind_io (so_split os (CHR 0x00) fd) (\<lambda>vars. ret (collect_env vars)))"

definition cmd_new ::
  "'w s2os \<Rightarrow> string option \<Rightarrow> string list \<Rightarrow> pid \<Rightarrow> string option \<Rightarrow> ('w, cmd) io" where
  "cmd_new os command args p home =
     (let arguments = (if command = None then [''-l''] else args);
          command = (case command of None \<Rightarrow> ''sh'' | Some c \<Rightarrow> c) in
      bind_io (try_io (read_environment os p) ''could not inherit environment variables of container'') (\<lambda>vars.
      ret \<lparr>cm_environment = vars, cm_command = command, cm_arguments = arguments, cm_home = home\<rparr>))"

definition DEFAULT_PATH :: string where
  "DEFAULT_PATH = ''/usr/local/sbin:/usr/local/bin:/usr/sbin:/usr/bin:/sbin:/bin''"

definition spawn_env :: "'w s2os \<Rightarrow> cmd \<Rightarrow> environment" where
  "spawn_env os c =
     (let e = (cm_environment c)(''PATH'' \<mapsto> (case so_var os ''PATH'' of None \<Rightarrow> DEFAULT_PATH | Some p \<Rightarrow> p)) in
      case cm_home c of None \<Rightarrow> e | Some h \<Rightarrow> e(''HOME'' \<mapsto> h))"

section \<open>Identifiers of a user namespace\<close>

lemma nonempty_parts_skip: "\<forall>c \<in> set a. p c \<Longrightarrow> nonempty_parts p (a @ s) = nonempty_parts p s"
  by (induction a) (auto simp: nonempty_parts_def)

lemma split_by_word: "\<forall>c \<in> set a. \<not> p c \<Longrightarrow> split_by p (a @ s) = (a @ hd (split_by p s)) # tl (split_by p s)"
proof (induction a)
  case Nil
  have "split_by p s \<noteq> []" by (induction s) (auto split: list.splits)
  then show ?case by simp
qed simp

lemma nonempty_parts_word:
  assumes "\<forall>c \<in> set a. \<not> p c" "a \<noteq> []"
  shows "nonempty_parts p a = [a]" "p x \<Longrightarrow> nonempty_parts p (a @ x # s) = a # nonempty_parts p s"
  using split_by_word[OF assms(1), of "[]"] split_by_word[OF assms(1), of "x # s"] assms(2)
  by (simp_all add: nonempty_parts_def)

lemma decimal_no_space: "c \<in> set (to_radix 10 n) \<Longrightarrow> \<not> is_whitespace c"
  using to_radix_char[of c 0 10 n] to_radix_digits[of c 10 n] of_digit_char by (auto simp: is_whitespace_def Let_def)

text \<open>A line of \<^verbatim>\<open>uid_map\<close>: three numbers, right-aligned.\<close>

definition id_line :: "nat \<times> nat \<times> nat \<Rightarrow> extent \<Rightarrow> string" where
  "id_line pad e =
     (case pad of (a, b, c) \<Rightarrow>
      replicate a (CHR '' '') @ to_radix 10 (unat (ex_first e)) @ CHR '' '' # replicate b (CHR '' '') @
      to_radix 10 (unat (ex_lower_first e)) @ CHR '' '' # replicate c (CHR '' '') @ to_radix 10 (unat (ex_count e)))"

lemma split_id_line:
  "split_whitespace (id_line pad e) = map (to_radix 10) [unat (ex_first e), unat (ex_lower_first e), unat (ex_count e)]"
proof -
  have sp: "is_whitespace (CHR '' '')" by (simp add: is_whitespace_def)
  have "nonempty_parts is_whitespace (replicate n (CHR '' '') @ s) = nonempty_parts is_whitespace s" for n s
    by (rule nonempty_parts_skip) (use sp in auto)
  moreover have "nonempty_parts is_whitespace (to_radix 10 n) = [to_radix 10 n]"
    "nonempty_parts is_whitespace (to_radix 10 n @ CHR '' '' # s) = to_radix 10 n # nonempty_parts is_whitespace s" for n s
    using nonempty_parts_word[of "to_radix 10 n" is_whitespace] decimal_no_space to_radix_nonempty sp by blast+
  ultimately show ?thesis by (simp add: split_whitespace_def id_line_def split: prod.split)
qed

lemma parse_id_decimal: "parse_id (to_radix 10 (unat v)) = Inr v"
  using parse_unsigned_to_radix[of 10 "unat v" "2 ^ 32" 0] unsigned_less[of v, where ?'a = nat]
  by (simp add: parse_id_def parse_u32_def)

lemma add_extent_line:
  assumes "im_nr_extents m < length (im_extent m)"
  shows "add_extent (id_line pad e) m =
    Inr (m\<lparr>im_extent := (im_extent m)[im_nr_extents m := e], im_nr_extents := im_nr_extents m + 1\<rparr>)"
  using assms by (cases e) (simp add: add_extent_def split_id_line parse_id_decimal assert_res_def Let_def)

lemma add_extents_lines:
  assumes "im_nr_extents m + length pes \<le> length (im_extent m)" "take (im_nr_extents m) (im_extent m) = es"
  shows "\<exists>m'. add_extents (map (\<lambda>(pad, e). Inr (id_line pad e)) pes) m = Inr m' \<and>
    take (im_nr_extents m') (im_extent m') = es @ map snd pes"
  using assms
proof (induction pes arbitrary: m es)
  case (Cons pe pes)
  obtain pad e where pe: "pe = (pad, e)" by fastforce
  let ?m = "m\<lparr>im_extent := (im_extent m)[im_nr_extents m := e], im_nr_extents := im_nr_extents m + 1\<rparr>"
  have "take (im_nr_extents ?m) (im_extent ?m) = es @ [e]"
    using Cons.prems by (simp add: take_Suc_conv_app_nth)
  with Cons.IH[of ?m "es @ [e]"] Cons.prems show ?case by (simp add: pe add_extent_line)
qed simp

text \<open>The mapping that the kernel applies, on numbers.\<close>

fun up_spec :: "extent list \<Rightarrow> nat \<Rightarrow> nat" where
  "up_spec [] i = 65534"
| "up_spec (e # es) i =
     (if unat (ex_lower_first e) \<le> i \<and> i < unat (ex_lower_first e) + unat (ex_count e)
      then unat (ex_first e) + (i - unat (ex_lower_first e)) else up_spec es i)"

definition wf_extent :: "extent \<Rightarrow> bool" where
  "wf_extent e \<longleftrightarrow>
     0 < ex_count e \<and> unat (ex_lower_first e) + unat (ex_count e) \<le> 2 ^ 32 \<and> unat (ex_first e) + unat (ex_count e) \<le> 2 ^ 32"

lemma extent_holds_iff:
  assumes "wf_extent e"
  shows "extent_holds i e \<longleftrightarrow> unat (ex_lower_first e) \<le> unat i \<and> unat i < unat (ex_lower_first e) + unat (ex_count e)"
proof -
  have c: "0 < unat (ex_count e)" using assms by (auto simp: wf_extent_def unat_gt_0)
  have "unat (ex_count e - 1) = unat (ex_count e) - 1" using c unat_sub[of 1 "ex_count e"] by (simp add: word_le_nat_alt)
  moreover have "unat (ex_lower_first e + (ex_count e - 1)) = unat (ex_lower_first e) + unat (ex_count e - 1)"
    using assms c calculation by (intro unat_add_no_overflow) (simp add: wf_extent_def, linarith)
  ultimately show ?thesis using c by (auto simp: extent_holds_def Let_def word_le_nat_alt add_diff_eq[symmetric] less_eq_Suc_le)
qed

lemma map_id_up_spec:
  assumes "\<forall>e \<in> set es. wf_extent e"
  shows "unat (case find (extent_holds i) es of Some e \<Rightarrow> i - ex_lower_first e + ex_first e | None \<Rightarrow> 65534) = up_spec es (unat i)"
  using assms
proof (induction es)
  case (Cons e es)
  note h = extent_holds_iff[of e i]
  have "unat (i - ex_lower_first e + ex_first e) = unat (ex_first e) + (unat i - unat (ex_lower_first e))" if "extent_holds i e"
  proof -
    have "unat (i - ex_lower_first e) = unat i - unat (ex_lower_first e)"
      using that h Cons.prems by (simp add: unat_sub word_le_nat_alt)
    moreover have "unat (i - ex_lower_first e + ex_first e) = unat (i - ex_lower_first e) + unat (ex_first e)"
      using that h Cons.prems calculation by (intro unat_add_no_overflow) (auto simp: wf_extent_def)
    ultimately show ?thesis by simp
  qed
  with h Cons show ?case by simp
qed simp

text \<open>
  C28: From the lines the kernel prints for at most five extents, stage 2 computes the mapping of identifiers of the kernel: an
  identifier in an extent is moved by the difference of its two starts, and any other one becomes 65534.
\<close>

theorem id_map_mapping:
  assumes "length pes \<le> 5" "\<forall>e \<in> snd ` set pes. wf_extent e"
  shows "\<exists>m. add_extents (map (\<lambda>(pad, e). Inr (id_line pad e)) pes) empty_map = Inr m \<and>
    (\<forall>i. unat (map_id_up m i) = up_spec (map snd pes) (unat i))"
proof -
  have "im_nr_extents empty_map + length pes \<le> length (im_extent empty_map)"
    "take (im_nr_extents empty_map) (im_extent empty_map) = []" using assms(1) by (simp_all add: empty_map_def)
  from add_extents_lines[OF this] obtain m where "add_extents (map (\<lambda>(pad, e). Inr (id_line pad e)) pes) empty_map = Inr m"
    "take (im_nr_extents m) (im_extent m) = map snd pes" by auto
  then show ?thesis using map_id_up_spec[of "map snd pes"] assms(2) by (auto simp: map_id_up_def)
qed

theorem id_map_mapping_witness:
  "\<exists>m. add_extents [Inr (id_line (9, 9, 4) \<lparr>ex_first = 0, ex_lower_first = 100000, ex_count = 65536\<rparr>)] empty_map = Inr m \<and>
     unat (map_id_up m 101000) = 1000 \<and> unat (map_id_up m 5) = 65534"
  using id_map_mapping[of "[((9, 9, 4), \<lparr>ex_first = 0, ex_lower_first = 100000, ex_count = 65536\<rparr>)]"]
  by (auto simp: wf_extent_def)

section \<open>Dropping capabilities\<close>

text \<open>
  \<open>B\<close> is the bounding set of capabilities of the process, from which \<^verbatim>\<open>prctl\<close> removes one if the process has the capability
  \<^verbatim>\<open>CAP_SETPCAP\<close> (\<open>H\<close>), and which it otherwise leaves alone with \<^verbatim>\<open>EPERM\<close>.
\<close>

definition bset_ok :: "'w s2os \<Rightarrow> ('w \<Rightarrow> nat set) \<Rightarrow> ('w \<Rightarrow> bool) \<Rightarrow> bool" where
  "bset_ok os B H \<longleftrightarrow>
     (\<forall>c w w' r. so_prctl os PR_CAPBSET_DROP c w = Some (w', r) \<longrightarrow>
        \<not> panics r \<and> B w' = (if H w then B w - {unat c} else B w) \<and> H w' = H w)"

lemma bit_inheritable: "c < 64 \<Longrightarrow> bit (inheritable caps) c \<longleftrightarrow> bit caps c \<or> c = CAP_SYS_CHROOT \<or> c = CAP_SYS_PTRACE"
  by (auto simp: inheritable_def bit_or_iff bit_exp_iff)

lemma set_dropped_caps:
  assumes "l \<le> 64"
  shows "unat ` set (dropped_caps caps l) =
    {c. c < unat l \<and> \<not> bit caps c \<and> c \<noteq> CAP_SYS_CHROOT \<and> c \<noteq> CAP_SYS_PTRACE}"
proof -
  have l: "unat l \<le> 64" using assms by (simp add: word_le_nat_alt)
  have c: "inheritable caps AND push_bit (c mod 64) 1 = 0 \<longleftrightarrow> \<not> bit caps c \<and> c \<noteq> CAP_SYS_CHROOT \<and> c \<noteq> CAP_SYS_PTRACE"
    if "c < unat l" for c
    using that l bit_inheritable[of c caps] by (simp add: and_exp_eq_0_iff_not_bit)
  have u: "unat (of_nat c :: u64) = c" if "c < unat l" for c
    using that l by (simp add: unat_of_nat take_bit_nat_eq_self)
  have "unat ` set (dropped_caps caps l) = (\<lambda>c. unat (of_nat c :: u64)) ` {c. c < unat l \<and> inheritable caps AND push_bit (c mod 64) 1 = 0}"
    by (simp add: dropped_caps_def image_image)
  also have "\<dots> = {c. c < unat l \<and> inheritable caps AND push_bit (c mod 64) 1 = 0}"
    using u by (intro trans[OF image_cong image_ident]) auto
  finally show ?thesis using c by auto
qed

lemma drop_loop:
  assumes "for_io cs (\<lambda>cap. ignore_io (so_prctl os PR_CAPBSET_DROP cap)) w = Some (w', r)" "bset_ok os B H"
  shows "r = Inr () \<and> B w' = (if H w then B w - unat ` set cs else B w)"
  using assms(1)
proof (induction cs arbitrary: w)
  case Nil
  then show ?case by (simp add: ret_def)
next
  case (Cons c cs)
  obtain w1 r1 where p: "so_prctl os PR_CAPBSET_DROP c w = Some (w1, r1)"
    using Cons.prems by (cases "so_prctl os PR_CAPBSET_DROP c w") (simp_all add: bind_io_def ignore_io_def attempt_def, fastforce)
  then have n: "\<not> panics r1" and b: "B w1 = (if H w then B w - {unat c} else B w)" "H w1 = H w" using assms(2) by (auto simp: bset_ok_def)
  have "attempt (so_prctl os PR_CAPBSET_DROP c) w = Some (w1, Inr r1)"
  proof (cases r1)
    case (Inl e)
    then show ?thesis using p n by (cases e) (simp_all add: attempt_def)
  qed (simp add: attempt_def p)
  then have "ignore_io (so_prctl os PR_CAPBSET_DROP c) w = Some (w1, Inr ())" by (simp add: ignore_io_def bind_io_def ret_def)
  then have "for_io cs (\<lambda>cap. ignore_io (so_prctl os PR_CAPBSET_DROP cap)) w1 = Some (w', r)"
    using Cons.prems by (simp add: bind_io_def)
  from Cons.IH[OF this] b show ?case by auto
qed

text \<open>
  C21: Dropping capabilities removes from the bounding set exactly those below the last one that the target process lacks,
  except two that stage 2 itself needs; the last capability of the kernel always stays. Without \<^verbatim>\<open>CAP_SETPCAP\<close> it succeeds
  as well and removes none.
\<close>

theorem drop_caps_bounding:
  assumes "drop_caps os caps w = Some (w', r)" "last_capability os w = Some (w1, Inr l)" "B w1 = B w" "H w1 = H w" "bset_ok os B H" "l \<le> 64"
  shows "r = Inr () \<and>
    B w' = (if H w then {c \<in> B w. bit caps c \<or> c = CAP_SYS_CHROOT \<or> c = CAP_SYS_PTRACE \<or> unat l \<le> c} else B w)"
proof -
  have "for_io (dropped_caps caps l) (\<lambda>cap. ignore_io (so_prctl os PR_CAPBSET_DROP cap)) w1 = Some (w', r)"
    using assms(1,2) by (simp add: drop_caps_def bind_io_def try_io_def)
  from drop_loop[OF this assms(5)] set_dropped_caps[OF assms(6), of caps] assms(3,4) show ?thesis by auto
qed

text \<open>A process in a kernel with the capabilities 0 to 4; the world is its bounding set.\<close>

definition toy_s2os :: "nat set s2os" where
  "toy_s2os =
     \<lparr>so_var = (\<lambda>_. None), so_open = (\<lambda>_ _. ret (Inr 3)), so_close = (\<lambda>_. ret ()), so_read_to_string = (\<lambda>_. ret [CHR ''4'', CHR 0x0A]),
      so_lines = (\<lambda>_. ret []), so_split = (\<lambda>_ _. ret []), so_write_all = (\<lambda>_ _. ret ()),
      so_prctl = (\<lambda>op c b. Some (b - {unat c}, Inr ()))\<rparr>"

lemma toy_bset_ok: "bset_ok toy_s2os id (\<lambda>_. True)"
  by (auto simp: bset_ok_def toy_s2os_def)

lemma toy_last_cap: "last_capability toy_s2os w = Some (w, Inr 4)"
proof -
  have "to_radix 10 (unat (4 :: u64)) = ''4''" by (simp add: to_radix.simps digit_char_def) code_simp
  then have "parse_u64 10 ''4'' = Some 4" using parse_u64_to_radix[of 10 0 4] by simp
  then show ?thesis
    by (simp add: last_capability_def with_open_def open_with_def toy_s2os_def bind_io_def ret_def with_drop_def try_io_def lift_res_def)
qed

lemma toy_prctl: "ignore_io (so_prctl toy_s2os op c) b = Some (b - {unat c}, Inr ())"
  by (simp add: toy_s2os_def ignore_io_def attempt_def bind_io_def ret_def)

theorem drop_caps_bounding_witness:
  "drop_caps toy_s2os 2 {0, 1, 2, 3, 4} = Some ({1, 4}, Inr ()) \<and>
   id {1, 4} = {c \<in> id {0, 1, 2, 3, 4}. bit (2 :: u64) c \<or> c = CAP_SYS_CHROOT \<or> c = CAP_SYS_PTRACE \<or> unat (4 :: u64) \<le> c}"
proof -
  have "dropped_caps 2 4 = [0, 2, 3]"
    by (simp add: dropped_caps_def inheritable_def CAP_SYS_CHROOT_def CAP_SYS_PTRACE_def upt_rec)
  then have "drop_caps toy_s2os 2 {0, 1, 2, 3, 4} = Some ({0, 1, 2, 3, 4} - {0} - {2} - {3}, Inr ())"
    by (simp add: drop_caps_def toy_last_cap bind_io_def try_io_def toy_prctl ret_def)
  moreover have "{0, 1, 2, 3, 4} - {0} - {2} - {3} = {1, 4 :: nat}" by auto
  ultimately have "drop_caps toy_s2os 2 {0, 1, 2, 3, 4} = Some ({1, 4}, Inr ())" by simp
  from this drop_caps_bounding[OF this toy_last_cap _ _ toy_bset_ok, OF refl refl] show ?thesis by (simp only: id_apply) simp
qed

end
