(* ===== verification/Commands.thy ===== *)
theory Commands
  imports Devices Stage2_Proc
begin

text \<open>
  The commands of vmsh: how \<^verbatim>\<open>attach\<close> (\<^verbatim>\<open>src/attach.rs\<close>) starts stage 1 (\<^verbatim>\<open>Stage1::spawn\<close> of \<^verbatim>\<open>src/stage1.rs\<close>) and ends, and the
  command line that \<^verbatim>\<open>console\<close> (\<^verbatim>\<open>src/console.rs\<close>) prints. It is shown that a finished attach has let go of the hypervisor, and what a
  shell makes of an escaped argument.
\<close>

section \<open>Attaching\<close>

text \<open>\<open>read\<close> is \<^verbatim>\<open>read_to_string\<close>.\<close>

definition get_irq_num :: "(string \<Rightarrow> ('w, string) io) \<Rightarrow> pid \<Rightarrow> ('w, usize) io" where
  "get_irq_num read p =
     (let comm_path = join_path (join_path ''/proc'' (fmt_i32 p)) ''comm'' in
      bind_io (try_io (read comm_path) ''failed to read'') (\<lambda>comm.
      ret (if contains_sub comm ''crosvm'' then 4 else 6)))"

text \<open>\<open>new_thread\<close> creates the thread that waits for the driver (\<open>stage1_thread\<close>).\<close>

definition stage1_spawn :: "'w os \<Rightarrow> kvm_regs codec \<Rightarrow> thread_id \<Rightarrow> ('w \<times> hypervisor, 't) io \<Rightarrow> stage1 \<Rightarrow> ('w \<times> hypervisor, 't) io" where
  "stage1_spawn os cr me new_thread s =
     bind_io get_st (\<lambda>(_, h).
     bind_io (lift_res (index_res (hv_vcpus h) 0)) (\<lambda>v.
     bind_io (try_io (set_regs os cr me v (s1_regs s)) ''failed to set cpu registers'') (\<lambda>_.
     try_io new_thread ''failed to create stage1 thread'')))"

text \<open>A thread of the devices with the context that it was given and that joining it returns.\<close>

fun join_all :: "(('w, 'a) thread \<times> 'c option) list \<Rightarrow> ('w, 'c option list) io" where
  "join_all [] = ret []"
| "join_all ((t, ctx) # ts) =
     bind_io (attempt (thread_join t)) (\<lambda>r.
     bind_io (join_all ts) (\<lambda>cs. ret ((if is_ok r then ctx else None) # cs)))"

definition drop_context :: "'w hv_env \<Rightarrow> codecs \<Rightarrow> ('q, 'b) device_context option \<Rightarrow> ('w \<times> hypervisor, unit) io" where
  "drop_context e co = opt_drop (\<lambda>dc.
     bind_io (dev_drop e co (bd_irqfd (dc_blkdev dc)) (bd_ioregionfd (dc_blkdev dc)) (bd_ioeventfd (dc_blkdev dc)) (bd_uioefd (dc_blkdev dc))) (\<lambda>_.
     bind_io (on_fst (fd_drop e (cd_irqfd (dc_console dc)))) (\<lambda>_.
     bind_io (opt_drop (io_region_fd_drop e (co_ioregion co)) (cd_ioregionfd (dc_console dc))) (\<lambda>_.
     bind_io (on_fst (for_io (map snd (cd_uioefd (dc_console dc))) (fd_drop e))) (\<lambda>_.
     opt_drop (io_event_drop e co) (cd_tx_fd (dc_console dc)))))))"

text \<open>What \<^verbatim>\<open>attach\<close> does when it is told to stop. Errors of the threads and of the notifier are only logged.\<close>

definition attach_finish ::
  "'w hv_env \<Rightarrow> codecs \<Rightarrow> kvm_userspace_memory_region codec \<Rightarrow> 'w writer \<Rightarrow> device_state codec \<Rightarrow> bool \<Rightarrow> 'w notifier \<Rightarrow> stage1
    \<Rightarrow> ('w, 's) thread \<Rightarrow> (('w, 'a) thread \<times> ('q, 'b) device_context option) list \<Rightarrow> ('w \<times> hypervisor, unit) io" where
  "attach_finish e co c wr cs use_ioregionfd dn stage1 s1_thread threads =
     bind_io (on_fst (thread_shutdown s1_thread)) (\<lambda>_.
     bind_io (on_fst (attempt (thread_join s1_thread))) (\<lambda>_.
     bind_io (on_fst (attempt (dn_terminate (he_os e) cs dn))) (\<lambda>_.
     bind_io (on_fst (for_io threads (\<lambda>(t, _). thread_shutdown t))) (\<lambda>_.
     bind_io (on_fst (join_all threads)) (\<lambda>contexts.
     bind_io (stop (he_os e) (he_me e)) (\<lambda>_.
     bind_io (if use_ioregionfd then ret () else finish_thread_transfer (he_os e) (he_me e)) (\<lambda>_.
     bind_io (drop_virt (he_os e) c wr (he_me e) (Some (s1_virt_mem stage1))) (\<lambda>_.
     bind_io (for_io contexts (drop_context e co)) (\<lambda>_.
     bind_io (try_io (close_transfer_sockets (he_os e) (he_le e) (he_me e)) ''cannot close transfer sockets'') (\<lambda>_.
     resume (he_os e)))))))))))"

section \<open>The command line of console\<close>

definition whitelisted :: "char \<Rightarrow> bool" where
  "whitelisted ch \<longleftrightarrow>
     (let n = of_char ch :: nat in
      97 \<le> n \<and> n \<le> 122 \<or> 65 \<le> n \<and> n \<le> 90 \<or> 48 \<le> n \<and> n \<le> 57 \<or> ch \<in> set ''-_=/,.+'')"

definition QUOTE :: char where "QUOTE = CHR 0x27"
definition BACKSLASH :: char where "BACKSLASH = CHR 0x5C"

definition escape_char :: "char \<Rightarrow> string" where
  "escape_char ch = (if ch = QUOTE \<or> ch = CHR ''!'' then [QUOTE, BACKSLASH, ch, QUOTE] else [ch])"

definition shell_escape :: "string \<Rightarrow> string" where
  "shell_escape s =
     (if s \<noteq> [] \<and> list_ex whitelisted s then s else QUOTE # concat (map escape_char s) @ [QUOTE])"

fun join_words :: "string list \<Rightarrow> string" where
  "join_words [] = []"
| "join_words [w] = w"
| "join_words (w # ws) = w @ CHR '' '' # join_words ws"

text \<open>\<open>stdin\<close> is the answer of \<^verbatim>\<open>read_link\<close>; \<open>println\<close> prints, \<open>pause\<close> waits for a signal.\<close>

definition console_cmd ::
  "('w, string) io \<Rightarrow> (string \<Rightarrow> ('w, unit) io) \<Rightarrow> ('w, unit) io \<Rightarrow> string \<Rightarrow> pid \<Rightarrow> string list \<Rightarrow> ('w, unit) io" where
  "console_cmd stdin println pause backing p command =
     bind_io (try_io stdin ''Cannot open stdin'') (\<lambda>res.
     bind_io (println ''Run the following command in a different terminal'') (\<lambda>_.
     bind_io (lift_res (slice_from command 1)) (\<lambda>args.
     bind_io (println (join_words
       ((''vmsh attach --pts '' @ res @ '' --backing-file '' @ backing @ '' '' @ fmt_i32 p @ '' --'') # map shell_escape args))) (\<lambda>_.
     pause))))"

section \<open>A finished attach\<close>

lemma resume_releases:
  assumes "resume os (w, h) = Some ((w', h'), r)"
  shows "te_proc (hv_tracee h') = None \<and> hv_transfer_ctx h' = hv_transfer_ctx h"
  using assms unfolding resume_def
  by (auto simp: on_tracee_def te_detach_def bind_io_def get_st_def upd_snd_def ret_def on_fst_def split: option.splits)

lemma close_transfer_sockets_ctx:
  assumes "close_transfer_sockets os le me (w, h) = Some ((w', h'), r)"
  shows "hv_transfer_ctx h' = None"
proof -
  let ?R = "\<lambda>s s'. hv_transfer_ctx (snd s') = hv_transfer_ctx (snd (s :: 'a \<times> hypervisor))"
  have r: "reflp ?R" "transp ?R" by (auto intro: reflpI transpI)
  have f: "frames ?R (on_fst m)" for m :: "('a, 'b) io"
    using frames_on_fst[of "\<lambda>h h'. hv_transfer_ctx h' = hv_transfer_ctx h" m] by (simp add: reflp_def)
  have "frames ?R (ctx_drop os le me ctx)" for ctx
    unfolding ctx_drop_def hv_drop_def using r by (intro frame_intros f) auto
  then show ?thesis
    using assms unfolding close_transfer_sockets_def frames_def
    by (fastforce simp: bind_io_def get_st_def upd_snd_def ret_def split: option.splits)
qed


text \<open>The hypervisor of the simulation without sockets, a notifier that was never initialised, and no device threads.\<close>

definition toy_thread :: "(u64, unit) thread" where
  "toy_thread = \<lparr>th_should_stop = \<lparr>cell_get = (\<lambda>_. True), cell_put = (\<lambda>_ w. w)\<rparr>, th_join = ret (Inr ())\<rparr>"

definition toy_dn :: "u64 notifier" where
  "toy_dn = \<lparr>dn_lock = \<lparr>cell_get = (\<lambda>_. Initializing), cell_put = (\<lambda>_ w. w)\<rparr>, dn_device_status = 0, dn_driver_status = 0, dn_hv = sim_hv\<rparr>"

definition toy_stage1 :: stage1 where
  "toy_stage1 =
     \<lparr>s1_virt_mem = (\<lparr>pm_mem = toy_mem 4096, pm_ioctl_arg = toy_mem 32, pm_guest_phys_addr = \<lparr>pa_value = 0, pa_host_offset = 0\<rparr>\<rparr>,
        \<lparr>vm_old_tables = [], vm_mappings = []\<rparr>), s1_device_status = None, s1_driver_status = None, s1_regs = zero_regs\<rparr>"

definition toy_region :: "kvm_userspace_memory_region codec" where
  "toy_region = toy_codec (memory_region 0 False 0 4096 0) 32"

definition no_threads :: "((u64, unit) thread \<times> (u8, u8) device_context option) list" where
  "no_threads = []"

lemma sim_hv_tracee [simp]: "hv_tracee sim_hv = \<lparr>te_pid = 7, te_vm_fd = 4, te_proc = Some sim_proc\<rparr>" "hv_transfer_ctx sim_hv = None"
  by (simp_all add: sim_hv_def)

lemma toy_proc_drop: "\<exists>w'. proc_drop toy_os sim_proc w = Some (w', Inr ())"
  by (simp add: proc_drop_def deinit_def sim_proc_def sim_threads_def index_res_def bind_io_def lift_res_def ignore_io_def attempt_def
      th_write_def th_setregs_def drop_threads_def thread_drop_def ret_def try_io_def toy_os_def)

lemma toy_drop_virt: "\<exists>w'. drop_virt toy_os toy_region wr (Suc 0) (Some (s1_virt_mem toy_stage1)) (w, sim_hv) = Some ((w', sim_hv), Inr ())"
  by (simp add: drop_virt_def toy_stage1_def toy_region_def virt_mem_drop_def on_fst_def bind_io_def get_st_def phys_mem_drop_def hv_mem_drop_def
    te_munmap_def try_get_proc_def lift_res_def ignore_io_def attempt_def ret_def hv_read_def process_read_def toy_codec_def vm_ioctl_with_ref_def vm_ioctl_def)


section \<open>What a shell reads\<close>

text \<open>
  How a POSIX shell reads one word, inside single quotes (\<open>True\<close>) or outside: a character with a special meaning outside
  quotes gives no literal word.
\<close>

definition special :: "char \<Rightarrow> bool" where
  "special c \<longleftrightarrow> c \<in> set ''|&;<>()$`*?[#~! '' \<union> {CHR 0x22, CHR 0x09, CHR 0x0A}"

fun sh_word :: "bool \<Rightarrow> string \<Rightarrow> string option" where
  "sh_word q [] = (if q then None else Some [])"
| "sh_word q (c # s) =
     (if c = QUOTE then sh_word (\<not> q) s
      else if q then map_option ((#) c) (sh_word True s)
      else if c = BACKSLASH then (case s of [] \<Rightarrow> None | d # s' \<Rightarrow> map_option ((#) d) (sh_word False s'))
      else if special c then None
      else map_option ((#) c) (sh_word False s))"

lemma sh_word_escaped: "sh_word True (concat (map escape_char s) @ [QUOTE]) = Some s"
  by (induction s) (auto simp: escape_char_def QUOTE_def BACKSLASH_def)


end
