(* ===== verification/Stage1_Guest.thy ===== *)
theory Stage1_Guest
  imports Loader Fd_Transfer
begin

text \<open>
  Stage 1 inside the kernel of the guest (\<^verbatim>\<open>stage1/src/lib.rs\<close>): registration of the virtio devices, files of the
  kernel, the version of the kernel, and the worker that starts stage 2 and follows the state that vmsh
  writes. The functions of the kernel are the record \<open>kernel_ffi\<close>; the state of the devices is read and
  the state of the driver written in memory shared with vmsh, so both are operations of it. The statics are
  the record \<open>s1\<close>. Stage 1 is built without overflow checks, so its arithmetic wraps.
\<close>

section \<open>Kernel interface\<close>

definition MMIO_SIZE :: usize where "MMIO_SIZE = 0x1000"
definition MMIO_DEVICE_ID :: u32 where "MMIO_DEVICE_ID = 1863406883"
definition IORESOURCE_MEM :: u64 where "IORESOURCE_MEM = 0x200"
definition IORESOURCE_IRQ :: u64 where "IORESOURCE_IRQ = 0x400"
definition MAX_ERRNO :: u64 where "MAX_ERRNO = 4095"
definition ENOENT :: u32 where "ENOENT = 2"
definition ETXTBSY :: u32 where "ETXTBSY = 26"
definition O_RDONLY :: u32 where "O_RDONLY = 0"
definition O_WRONLY :: u32 where "O_WRONLY = 1"
definition O_CREAT :: u32 where "O_CREAT = 64"

record resource =
  rs_start :: usize
  rs_end :: usize
  rs_flags :: u64

text \<open>
  \<open>pi_5_0\<close>: the structure has the layout of Linux 5.0 and older, without \<^verbatim>\<open>of_node_reused\<close>; \<open>pi_4_4\<close>: so have its
  resources for Linux 4.4 and older, without \<^verbatim>\<open>desc\<close>.
\<close>

record platform_device_info =
  pi_5_0 :: bool
  pi_4_4 :: bool
  pi_name :: string
  pi_id :: u32
  pi_res :: "resource list"

record 'w kernel_ffi =
  kf_register :: "platform_device_info \<Rightarrow> ('w, u64) io"
  kf_unregister :: "u64 \<Rightarrow> ('w, unit) io"
  kf_filp_open :: "u64 \<Rightarrow> u32 \<Rightarrow> u16 \<Rightarrow> ('w, u64) io"
  kf_filp_close :: "u64 \<Rightarrow> ('w, u32) io"
  kf_read :: "u64 \<Rightarrow> usize \<Rightarrow> u64 \<Rightarrow> ('w, isize \<times> bytes \<times> u64) io"
  kf_read_4_13 :: "u64 \<Rightarrow> u64 \<Rightarrow> u64 \<Rightarrow> ('w, u32 \<times> bytes) io"
  kf_write :: "u64 \<Rightarrow> bytes \<Rightarrow> u64 \<Rightarrow> ('w, isize \<times> u64) io"
  kf_write_4_13 :: "u64 \<Rightarrow> bytes \<Rightarrow> u64 \<Rightarrow> ('w, isize) io"
  kf_usermodehelper :: "u64 \<Rightarrow> u64 list \<Rightarrow> ('w, u32) io"
  kf_usleep :: "u64 \<Rightarrow> u64 \<Rightarrow> ('w, unit) io"
  kf_symbol_get :: "string \<Rightarrow> ('w, u64) io"
  kf_queue_work :: "u64 \<Rightarrow> ('w, unit) io"
  kf_device_status :: "('w, device_state) io"
  kf_set_driver_status :: "device_state \<Rightarrow> ('w, unit) io"
  kf_lit :: "string \<Rightarrow> u64"  \<comment> \<open>address of a string literal\<close>

record s1 =
  s1_device_addrs :: "u64 list"
  s1_argv :: "u64 list"
  s1_irq_num :: usize
  s1_resources :: "resource list"
  s1_resources_4_4 :: "resource list"
  s1_info_id :: u32
  s1_info_5_0_id :: u32
  s1_info_5_0_res_4_4 :: bool  \<comment> \<open>\<^verbatim>\<open>INFO_5_0.res\<close> points to \<^verbatim>\<open>RESOURCES_4_4\<close>\<close>
  s1_buf :: bytes
  s1_devices :: "u64 option list"

definition s1_init :: "u64 list \<Rightarrow> u64 list \<Rightarrow> usize \<Rightarrow> s1" where
  "s1_init addrs argv irq =
     (let rs = [\<lparr>rs_start = 0, rs_end = 0, rs_flags = IORESOURCE_MEM\<rparr>, \<lparr>rs_start = 0, rs_end = 0, rs_flags = IORESOURCE_IRQ\<rparr>] in
      \<lparr>s1_device_addrs = addrs, s1_argv = argv, s1_irq_num = irq, s1_resources = rs, s1_resources_4_4 = rs,
       s1_info_id = 0, s1_info_5_0_id = 0, s1_info_5_0_res_4_4 = False, s1_buf = replicate 256 0,
       s1_devices = replicate MAX_DEVICES None\<rparr>)"

text \<open>A result \<^verbatim>\<open>Result<T, E>\<close> that the code inspects, as a value; \<open>bind_sum\<close> is the question mark.\<close>

definition bind_sum :: "('w, 'e + 'a) io \<Rightarrow> ('a \<Rightarrow> ('w, 'e + 'b) io) \<Rightarrow> ('w, 'e + 'b) io" where
  "bind_sum m f = bind_io m (\<lambda>r. case r of Inl e \<Rightarrow> ret (Inl e) | Inr x \<Rightarrow> f x)"

definition or_else :: "('w, 'e + 'a) io \<Rightarrow> ('e \<Rightarrow> ('w, 'd + 'a) io) \<Rightarrow> ('w, 'd + 'a) io" where
  "or_else m f = bind_io m (\<lambda>r. case r of Inl e \<Rightarrow> f e | Inr x \<Rightarrow> ret (Inr x))"

definition fail_with :: "('w, 'e + 'a) io \<Rightarrow> 'd \<Rightarrow> ('w, 'd + 'a) io" where
  "fail_with m d = or_else m (\<lambda>_. ret (Inl d))"

definition is_err_value :: "u64 \<Rightarrow> bool" where
  "is_err_value x \<longleftrightarrow> - MAX_ERRNO <=s x"

definition err_value :: "u64 \<Rightarrow> u64" where
  "err_value ptr = ptr"

section \<open>Devices\<close>

record kernel_version =
  kv_major :: u16
  kv_minor :: u16
  kv_patch :: u16

definition set_range :: "resource list \<Rightarrow> nat \<Rightarrow> usize \<Rightarrow> usize \<Rightarrow> resource list" where
  "set_range rs i a b = rs[i := (rs ! i)\<lparr>rs_start := a, rs_end := b\<rparr>]"

definition before_5_1 :: "kernel_version \<Rightarrow> bool" where
  "before_5_1 v \<longleftrightarrow> kv_major v < 5 \<or> kv_major v = 5 \<and> kv_minor v = 0"

definition before_4_5 :: "kernel_version \<Rightarrow> bool" where
  "before_4_5 v \<longleftrightarrow> kv_major v < 4 \<or> kv_major v = 4 \<and> kv_minor v < 5"

definition set_resources :: "u32 \<Rightarrow> usize \<Rightarrow> usize \<Rightarrow> usize \<Rightarrow> kernel_version \<Rightarrow> s1 \<Rightarrow> s1" where
  "set_resources i base sz irq v s =
     (let rs = set_range (set_range (s1_resources s) 0 base (base + sz - 1)) 1 irq irq;
          s = s\<lparr>s1_resources := rs\<rparr> in
      if before_5_1 v then
        let s = s\<lparr>s1_info_5_0_id := i\<rparr> in
        if before_4_5 v then
          s\<lparr>s1_resources_4_4 :=
              set_range (set_range (s1_resources_4_4 s) 0 (rs_start (rs ! 0)) (rs_end (rs ! 0))) 1
                (rs_start (rs ! 1)) (rs_start (rs ! 1)),
            s1_info_5_0_res_4_4 := True\<rparr>
        else s
      else s\<lparr>s1_info_id := i\<rparr>)"

definition device_info :: "kernel_version \<Rightarrow> s1 \<Rightarrow> platform_device_info" where
  "device_info v s =
     (if before_5_1 v then
        \<lparr>pi_5_0 = True, pi_4_4 = s1_info_5_0_res_4_4 s, pi_name = ''virtio-mmio'', pi_id = s1_info_5_0_id s,
         pi_res = (if s1_info_5_0_res_4_4 s then s1_resources_4_4 s else s1_resources s)\<rparr>
      else
        \<lparr>pi_5_0 = False, pi_4_4 = False, pi_name = ''virtio-mmio'', pi_id = s1_info_id s, pi_res = s1_resources s\<rparr>)"

definition register_virtio_mmio ::
  "'w kernel_ffi \<Rightarrow> u32 \<Rightarrow> usize \<Rightarrow> usize \<Rightarrow> usize \<Rightarrow> kernel_version \<Rightarrow> ('w \<times> s1, u32 + u64) io" where
  "register_virtio_mmio f i base sz irq v =
     bind_io (upd_snd (set_resources i base sz irq v)) (\<lambda>_.
     bind_io get_st (\<lambda>(_, s).
     bind_io (on_fst (kf_register f (device_info v s))) (\<lambda>dev.
     ret (if is_err_value dev then Inl (ucast (err_value dev)) else Inr dev))))"

section \<open>Files\<close>

text \<open>The file is a pointer with the flag \<^verbatim>\<open>linux_4_13\<close>; the results \<^verbatim>\<open>-rv as c_int\<close> are signed.\<close>

type_synonym kfile = "u64 \<times> bool"

definition kfile_open :: "'w kernel_ffi \<Rightarrow> u64 \<Rightarrow> u32 \<Rightarrow> u16 \<Rightarrow> bool \<Rightarrow> ('w \<times> s1, u32 + kfile) io" where
  "kfile_open f name flags mode linux_4_13 =
     bind_io (on_fst (kf_filp_open f name flags mode)) (\<lambda>file.
     ret (if is_err_value file then Inl (ucast (err_value file)) else Inr (file, linux_4_13)))"

definition kfile_drop :: "'w kernel_ffi \<Rightarrow> kfile \<Rightarrow> ('w \<times> s1, unit) io" where
  "kfile_drop f file = bind_io (on_fst (kf_filp_close f (fst file))) (\<lambda>_. ret ())"

datatype rw = RwDone | RwAgain | RwFail u32 | RwMore

definition rw_result :: "isize \<Rightarrow> rw" where
  "rw_result rv =
     (let e = ucast (- rv) :: u32 in
      if e = 0 then RwDone else if e = EINTR \<or> e = EAGAIN then RwAgain else if 1 <=s e then RwFail e else RwMore)"

definition read_once :: "'w kernel_ffi \<Rightarrow> kfile \<Rightarrow> usize \<Rightarrow> u64 \<Rightarrow> ('w, isize \<times> bytes \<times> u64) io" where
  "read_once f file cnt lpos =
     (if snd file then bind_io (kf_read_4_13 f (fst file) lpos cnt) (\<lambda>(rv, bs). ret (scast rv, bs, lpos))
      else kf_read f (fst file) cnt lpos)"

partial_function (option) read_loop ::
  "'w kernel_ffi \<Rightarrow> kfile \<Rightarrow> usize \<Rightarrow> usize \<Rightarrow> u64 \<Rightarrow> 'w \<times> s1 \<Rightarrow> (('w \<times> s1) \<times> (u32 + usize) res) option" where
  "read_loop f file out cnt lpos w =
     bind_io (on_fst (read_once f file cnt lpos)) (\<lambda>(rv, bs, lpos') w1.
     bind_io (upd_snd (\<lambda>s. s\<lparr>s1_buf := overwrite (unat out) bs (s1_buf s)\<rparr>)) (\<lambda>_ w2.
     case rw_result rv of
       RwDone \<Rightarrow> Some (w2, Inr (Inr out))
     | RwAgain \<Rightarrow> read_loop f file out cnt lpos' w2
     | RwFail e \<Rightarrow> Some (w2, Inr (if out = 0 then Inl e else Inr out))
     | RwMore \<Rightarrow> read_loop f file (out + rv) (cnt - rv) (if snd file then lpos' + rv else lpos') w2) w1) w"

text \<open>Reads into the first \<open>n\<close> bytes of \<^verbatim>\<open>BUF\<close>.\<close>

definition read_all :: "'w kernel_ffi \<Rightarrow> kfile \<Rightarrow> nat \<Rightarrow> u64 \<Rightarrow> ('w \<times> s1, u32 + usize) io" where
  "read_all f file n pos = read_loop f file 0 (of_nat n) pos"

definition write_once :: "'w kernel_ffi \<Rightarrow> kfile \<Rightarrow> bytes \<Rightarrow> u64 \<Rightarrow> ('w, isize \<times> u64) io" where
  "write_once f file bs lpos =
     (if snd file then bind_io (kf_write_4_13 f (fst file) bs lpos) (\<lambda>rv. ret (rv, lpos))
      else kf_write f (fst file) bs lpos)"

partial_function (option) write_loop ::
  "'w kernel_ffi \<Rightarrow> kfile \<Rightarrow> bytes \<Rightarrow> usize \<Rightarrow> usize \<Rightarrow> u64 \<Rightarrow> 'w \<Rightarrow> ('w \<times> (u32 + usize) res) option" where
  "write_loop f file data out cnt lpos w =
     (if cnt = 0 then Some (w, Inr (Inr out))
      else
        bind_io (write_once f file (take (unat cnt) (drop (unat out) data)) lpos) (\<lambda>(rv, lpos') w1.
        case rw_result rv of
          RwDone \<Rightarrow> Some (w1, Inr (Inr out))
        | RwAgain \<Rightarrow> write_loop f file data out cnt lpos' w1
        | RwFail e \<Rightarrow> Some (w1, Inr (if out = 0 then Inl e else Inr out))
        | RwMore \<Rightarrow> write_loop f file data (out + rv) (cnt - rv) (if snd file then lpos' + rv else lpos') w1) w)"

definition write_all :: "'w kernel_ffi \<Rightarrow> kfile \<Rightarrow> bytes \<Rightarrow> u64 \<Rightarrow> ('w, u32 + usize) io" where
  "write_all f file data pos = write_loop f file data 0 (of_nat (length data)) pos"

section \<open>The version of the kernel\<close>

text \<open>\<^verbatim>\<open>str::from_utf8\<close>; a string is the list of its bytes in UTF-8.\<close>

definition between :: "u8 \<Rightarrow> u8 \<Rightarrow> u8 \<Rightarrow> bool" where
  "between a b x \<longleftrightarrow> a \<le> x \<and> x \<le> b"

definition cont :: "u8 \<Rightarrow> bool" where
  "cont = between 0x80 0xBF"

text \<open>What a first byte asks of the next one, and how many more bytes follow.\<close>

definition utf8_lead :: "u8 \<Rightarrow> ((u8 \<Rightarrow> bool) \<times> nat) option" where
  "utf8_lead b =
     (if between 0xC2 0xDF b then Some (cont, 0)
      else if b = 0xE0 then Some (between 0xA0 0xBF, 1)
      else if between 0xE1 0xEC b \<or> between 0xEE 0xEF b then Some (cont, 1)
      else if b = 0xED then Some (between 0x80 0x9F, 1)
      else if b = 0xF0 then Some (between 0x90 0xBF, 2)
      else if between 0xF1 0xF3 b then Some (cont, 2)
      else if b = 0xF4 then Some (between 0x80 0x8F, 2)
      else None)"

function valid_utf8 :: "bytes \<Rightarrow> bool" where
  "valid_utf8 [] = True"
| "valid_utf8 (b # bs) =
     (if b < 0x80 then valid_utf8 bs
      else case utf8_lead b of
             None \<Rightarrow> False
           | Some (p, n) \<Rightarrow>
               (case bs of
                  [] \<Rightarrow> False
                | c # cs \<Rightarrow> p c \<and> n \<le> length cs \<and> list_all cont (take n cs) \<and> valid_utf8 (drop n cs)))"
  by pat_completeness auto
termination by (relation "measure length") auto

definition from_utf8 :: "bytes \<Rightarrow> string option" where
  "from_utf8 bs = (if valid_utf8 bs then Some (map (\<lambda>b. char_of (unat b)) bs) else None)"

definition parse_u16 :: "string \<Rightarrow> u16 option" where
  "parse_u16 s = map_option of_nat (parse_unsigned (2 ^ 16) 10 s)"

definition parse_version_part :: "string option \<Rightarrow> unit + u16" where
  "parse_version_part part =
     (case part of
        None \<Rightarrow> Inl ()
      | Some s \<Rightarrow> (case parse_u16 s of None \<Rightarrow> Inl () | Some n \<Rightarrow> Inr n))"

definition nth_opt :: "'a list \<Rightarrow> nat \<Rightarrow> 'a option" where
  "nth_opt xs i = (if i < length xs then Some (xs ! i) else None)"

definition is_ascii_digit :: "char \<Rightarrow> bool" where
  "is_ascii_digit c \<longleftrightarrow> (48 :: nat) \<le> of_char c \<and> of_char c \<le> (57 :: nat)"

definition parse_version :: "string \<Rightarrow> unit + kernel_version" where
  "parse_version version_str =
     (let kernel = (case position (\<lambda>c. c \<noteq> CHR ''.'' \<and> \<not> is_ascii_digit c) version_str of
                      Some pos \<Rightarrow> take pos version_str | None \<Rightarrow> version_str);
          parts = splitn 3 (CHR ''.'') kernel in
      case parse_version_part (nth_opt parts 0) of Inl _ \<Rightarrow> Inl () | Inr major \<Rightarrow>
      case parse_version_part (nth_opt parts 1) of Inl _ \<Rightarrow> Inl () | Inr minor \<Rightarrow>
      case parse_version_part (nth_opt parts 2) of Inl _ \<Rightarrow> Inl () | Inr pat \<Rightarrow>
        Inr \<lparr>kv_major = major, kv_minor = minor, kv_patch = pat\<rparr>)"

definition read_version :: "bytes \<Rightarrow> usize \<Rightarrow> unit + kernel_version" where
  "read_version buf n =
     (if length buf < unat n then Inl ()
      else case from_utf8 (take (unat n) buf) of None \<Rightarrow> Inl () | Some version_str \<Rightarrow> parse_version version_str)"

definition get_kernel_version :: "'w kernel_ffi \<Rightarrow> ('w \<times> s1, unit + kernel_version) io" where
  "get_kernel_version f =
     bind_io (on_fst (kf_symbol_get f ''tcp_prequeue'')) (\<lambda>sym.
     bind_io (kfile_open f (kf_lit f ''/proc/sys/kernel/osrelease'') O_RDONLY 0 (sym \<noteq> 0)) (\<lambda>r.
     case r of
       Inl _ \<Rightarrow> ret (Inr \<lparr>kv_major = 5, kv_minor = 5, kv_patch = 0\<rparr>)
     | Inr file \<Rightarrow>
         with_drop
           (bind_sum (fail_with (read_all f file 255 0) ()) (\<lambda>n.
            bind_io get_st (\<lambda>(_, s). ret (read_version (s1_buf s) n))))
           (kfile_drop f file)))"

section \<open>Starting stage 2\<close>

definition device_drop :: "'w kernel_ffi \<Rightarrow> u64 option \<Rightarrow> ('w \<times> s1, unit) io" where
  "device_drop f d = (case d of None \<Rightarrow> ret () | Some dev \<Rightarrow> on_fst (kf_unregister f dev))"

definition store_device :: "'w kernel_ffi \<Rightarrow> nat \<Rightarrow> u64 \<Rightarrow> ('w \<times> s1, unit + unit) io" where
  "store_device f i dev =
     bind_io get_st (\<lambda>(_, s).
     if i < length (s1_devices s) then
       bind_io (upd_snd (\<lambda>s. s\<lparr>s1_devices := (s1_devices s)[i := Some dev]\<rparr>)) (\<lambda>_.
       bind_io (device_drop f (s1_devices s ! i)) (\<lambda>_. ret (Inr ())))
     else bind_io (device_drop f (Some dev)) (\<lambda>_. ret (Inl ())))"

fun register_devices ::
  "'w kernel_ffi \<Rightarrow> kernel_version \<Rightarrow> usize \<Rightarrow> nat \<Rightarrow> u64 list \<Rightarrow> ('w \<times> s1, unit + unit) io" where
  "register_devices f v irq i [] = ret (Inr ())"
| "register_devices f v irq i (addr # addrs) =
     (if addr = 0 then register_devices f v irq (Suc i) addrs
      else
        bind_sum (fail_with (register_virtio_mmio f (MMIO_DEVICE_ID + of_nat i) addr MMIO_SIZE irq v) ()) (\<lambda>dev.
        bind_sum (store_device f i dev) (\<lambda>_.
        register_devices f v irq (Suc i) addrs)))"

definition linux_4_13_or_older :: "kernel_version \<Rightarrow> bool" where
  "linux_4_13_or_older v \<longleftrightarrow> kv_major v < 4 \<or> kv_major v = 4 \<and> kv_minor v < 13"

definition argv0 :: "s1 \<Rightarrow> u64" where
  "argv0 s = s1_argv s ! 0"

definition open_stage2 :: "'w kernel_ffi \<Rightarrow> bool \<Rightarrow> ('w \<times> s1, unit + kfile) io" where
  "open_stage2 f old =
     bind_io get_st (\<lambda>(_, s).
     or_else (kfile_open f (argv0 s) (O_WRONLY OR O_CREAT) 0x1ED old) (\<lambda>e.
     if e = - ENOENT then
       bind_sum (fail_with (kfile_open f (kf_lit f ''/.vmsh'') (O_WRONLY OR O_CREAT) 0x1ED old) ()) (\<lambda>file.
       bind_io (upd_snd (\<lambda>s. s\<lparr>s1_argv := (s1_argv s)[0 := kf_lit f ''/.vmsh'']\<rparr>)) (\<lambda>_.
       ret (Inr file)))
     else ret (Inl ())))"

partial_function (option) exec_stage2 :: "'w kernel_ffi \<Rightarrow> 'w \<times> s1 \<Rightarrow> (('w \<times> s1) \<times> (unit + unit) res) option" where
  "exec_stage2 f w =
     bind_io (on_fst (kf_usermodehelper f (argv0 (snd w)) (s1_argv (snd w)))) (\<lambda>res w1.
     if res = - ETXTBSY then bind_io (on_fst (kf_usleep f 10000 100000)) (\<lambda>_ w2. exec_stage2 f w2) w1
     else if res \<noteq> 0 then Some (w1, Inr (Inl ()))
     else Some (w1, Inr (Inr ()))) w"

definition run_stage2 :: "'w kernel_ffi \<Rightarrow> bytes \<Rightarrow> ('w \<times> s1, unit + unit) io" where
  "run_stage2 f stage2_exe =
     bind_sum (get_kernel_version f) (\<lambda>v.
     bind_io get_st (\<lambda>(_, s).
     if s1_irq_num s = 0 then ret (Inl ())
     else
       bind_sum (register_devices f v (s1_irq_num s) 0 (s1_device_addrs s)) (\<lambda>_.
       bind_sum (open_stage2 f (linux_4_13_or_older v)) (\<lambda>file.
       bind_sum
         (with_drop
            (bind_sum (fail_with (on_fst (write_all f file stage2_exe 0)) ()) (\<lambda>n.
             ret (if unat n \<noteq> length stage2_exe then Inl () else Inr ())))
            (kfile_drop f file)) (\<lambda>_.
       exec_stage2 f)))))"

fun wait_device :: "'w kernel_ffi \<Rightarrow> nat \<Rightarrow> ('w \<times> s1, bool) io" where
  "wait_device f 0 = ret False"
| "wait_device f (Suc n) =
     bind_io (on_fst (kf_device_status f)) (\<lambda>st.
     if st = Initializing then
       bind_io (on_fst (kf_usleep f 10000 100000)) (\<lambda>_.
       if n = 0 then bind_io (on_fst (kf_set_driver_status f DevError)) (\<lambda>_. ret False)
       else wait_device f n)
     else ret True)"

text \<open>\<^verbatim>\<open>DEVICES.iter_mut().for_each(|d| { d.take(); })\<close>\<close>

fun take_devices :: "'w kernel_ffi \<Rightarrow> nat list \<Rightarrow> ('w \<times> s1, unit) io" where
  "take_devices f [] = ret ()"
| "take_devices f (i # is) =
     bind_io get_st (\<lambda>(_, s).
     bind_io (upd_snd (\<lambda>s. s\<lparr>s1_devices := (s1_devices s)[i := None]\<rparr>)) (\<lambda>_.
     bind_io (device_drop f (s1_devices s ! i)) (\<lambda>_. take_devices f is)))"

definition drop_devices :: "'w kernel_ffi \<Rightarrow> ('w \<times> s1, unit) io" where
  "drop_devices f = take_devices f [0..<MAX_DEVICES]"

partial_function (option) wait_ready :: "'w kernel_ffi \<Rightarrow> 'w \<Rightarrow> ('w \<times> unit res) option" where
  "wait_ready f w =
     bind_io (kf_device_status f) (\<lambda>st w1.
     if st = Ready then bind_io (kf_usleep f 50000 500000) (\<lambda>_ w2. wait_ready f w2) w1
     else Some (w1, Inr ())) w"

definition spawn_stage2 :: "'w kernel_ffi \<Rightarrow> bytes \<Rightarrow> ('w \<times> s1, unit) io" where
  "spawn_stage2 f stage2_exe =
     bind_io (on_fst (kf_device_status f)) (\<lambda>st.
     if st = Undefined then ret ()
     else
       bind_io (wait_device f 20) (\<lambda>go.
       if \<not> go then ret ()
       else
         bind_io (on_fst (kf_set_driver_status f Initializing)) (\<lambda>_.
         bind_io (on_fst (kf_device_status f)) (\<lambda>st.
         if st = DevError then ret ()
         else
           bind_io (run_stage2 f stage2_exe) (\<lambda>res.
           case res of
             Inl _ \<Rightarrow> bind_io (drop_devices f) (\<lambda>_. on_fst (kf_set_driver_status f DevError))
           | Inr _ \<Rightarrow>
               bind_io (on_fst (kf_set_driver_status f Ready)) (\<lambda>_.
               bind_io (on_fst (wait_ready f)) (\<lambda>_.
               bind_io (drop_devices f) (\<lambda>_.
               on_fst (kf_set_driver_status f Terminating)))))))))"

definition init_vmsh :: "'w kernel_ffi \<Rightarrow> ('w \<times> s1, unit) io" where
  "init_vmsh f =
     bind_io (on_fst (kf_symbol_get f ''system_wq'')) (\<lambda>wq.
     if wq = 0 then ret () else on_fst (kf_queue_work f wq))"

section \<open>Triples\<close>

text \<open>
  The functions of the kernel are C: they do not unwind. \<open>triple P m Q\<close>: from a state with \<open>P\<close>, a run of \<open>m\<close> that
  returns does so with a value, and \<open>Q\<close> holds of it and the new state.
\<close>

definition triple :: "('w \<Rightarrow> bool) \<Rightarrow> ('w, 'a) io \<Rightarrow> ('a \<Rightarrow> 'w \<Rightarrow> bool) \<Rightarrow> bool" where
  "triple P m Q \<longleftrightarrow> (\<forall>w w' r. P w \<longrightarrow> m w = Some (w', r) \<longrightarrow> (\<exists>x. r = Inr x \<and> Q x w'))"

named_theorems triple_intros \<open>composition of triples\<close>

lemma tripleI: "(\<And>w w' r. P w \<Longrightarrow> m w = Some (w', r) \<Longrightarrow> \<exists>x. r = Inr x \<and> Q x w') \<Longrightarrow> triple P m Q"
  by (simp add: triple_def)

lemma tripleD: "\<lbrakk>triple P m Q; P w; m w = Some (w', r)\<rbrakk> \<Longrightarrow> \<exists>x. r = Inr x \<and> Q x w'"
  by (simp add: triple_def)

lemma triple_bind:
  assumes "triple P m Q" "\<And>x. triple (Q x) (f x) S"
  shows "triple P (bind_io m f) S"
proof (rule tripleI)
  fix w w' r assume w: "P w" and "bind_io m f w = Some (w', r)"
  then show "\<exists>x. r = Inr x \<and> S x w'"
    by (elim bind_io_SomeE) (use tripleD[OF assms(1) w] tripleD[OF assms(2)] in fastforce)+
qed

lemma triple_ret: "(\<And>w. P w \<Longrightarrow> Q x w) \<Longrightarrow> triple P (ret x) Q"
  by (simp add: triple_def ret_def)

lemma triple_conseq: "\<lbrakk>triple P' m Q'; \<And>w. P w \<Longrightarrow> P' w; \<And>x w. Q' x w \<Longrightarrow> Q x w\<rbrakk> \<Longrightarrow> triple P m Q"
  unfolding triple_def by meson

lemma triple_with_drop:
  assumes "triple P m Q" "\<And>x. triple (Q x) c (\<lambda>_. S x)"
  shows "triple P (with_drop m c) S"
proof (rule tripleI)
  fix w w' r assume w: "P w" and "with_drop m c w = Some (w', r)"
  then obtain w1 u where m: "m w = Some (w1, r)" and c: "c w1 = Some (w', u)"
    by (auto simp: with_drop_def split: option.splits)
  from tripleD[OF assms(1) w m] obtain x where "r = Inr x" "Q x w1" by blast
  with tripleD[OF assms(2) this(2) c] show "\<exists>x. r = Inr x \<and> S x w'" by blast
qed

lemma triple_bind_sum:
  assumes "triple P m Q" "\<And>e w. Q (Inl e) w \<Longrightarrow> S (Inl e) w" "\<And>x. triple (Q (Inr x)) (f x) S"
  shows "triple P (bind_sum m f) S"
  unfolding bind_sum_def by (rule triple_bind[OF assms(1)]) (auto split: sum.split intro: triple_ret assms)

lemma triple_or_else:
  assumes "triple P m Q" "\<And>x w. Q (Inr x) w \<Longrightarrow> S (Inr x) w" "\<And>e. triple (Q (Inl e)) (f e) S"
  shows "triple P (or_else m f) S"
  unfolding or_else_def by (rule triple_bind[OF assms(1)]) (auto split: sum.split intro: triple_ret assms)

text \<open>An invariant.\<close>

abbreviation stays :: "('w \<Rightarrow> bool) \<Rightarrow> ('w, 'a) io \<Rightarrow> bool" where
  "stays I m \<equiv> triple I m (\<lambda>_. I)"

lemma stays_basic [triple_intros]: "stays I (ret x)" "stays I get_st"
  by (simp_all add: get_st_def triple_def ret_def)

lemma stays_bind [triple_intros]: "stays I m \<Longrightarrow> (\<And>x. stays I (f x)) \<Longrightarrow> stays I (bind_io m f)"
  by (rule triple_bind)

lemma stays_with_drop [triple_intros]: "stays I m \<Longrightarrow> stays I c \<Longrightarrow> stays I (with_drop m c)"
  by (rule triple_with_drop)

lemma stays_bind_sum [triple_intros]: "stays I m \<Longrightarrow> (\<And>x. stays I (f x)) \<Longrightarrow> stays I (bind_sum m f)"
  by (rule triple_bind_sum)

lemma stays_or_else [triple_intros]: "stays I m \<Longrightarrow> (\<And>x. stays I (f x)) \<Longrightarrow> stays I (or_else m f)"
  by (rule triple_or_else)

lemma stays_fail_with [triple_intros]: "stays I m \<Longrightarrow> stays I (fail_with m d)"
  by (simp add: fail_with_def stays_or_else stays_basic)

lemma stays_splits [triple_intros]:
  "(\<And>x y. stays I (g x y)) \<Longrightarrow> stays I (case p of (x, y) \<Rightarrow> g x y)"
  "(\<And>e. stays I (h e)) \<Longrightarrow> (\<And>x. stays I (k x)) \<Longrightarrow> stays I (case q of Inl e \<Rightarrow> h e | Inr x \<Rightarrow> k x)"
  "(b \<Longrightarrow> stays I m1) \<Longrightarrow> (\<not> b \<Longrightarrow> stays I m2) \<Longrightarrow> stays I (if b then m1 else m2)"
  by (auto split: prod.split sum.split)

section \<open>The life of the devices\<close>

text \<open>
  \<open>L\<close> is the history of what vmsh and the guest can observe of stage 1, the latest event first: devices registered
  and unregistered, and the states of the driver that were written for vmsh.
\<close>

datatype s1_event = Registered u64 | Unregistered u64 | DriverStatus device_state

fun registered :: "s1_event list \<Rightarrow> u64 multiset" where
  "registered [] = {#}"
| "registered (Registered p # l) = add_mset p (registered l)"
| "registered (Unregistered p # l) = registered l - {#p#}"
| "registered (DriverStatus st # l) = registered l"

text \<open>A driver that reports an error or its end has no devices left.\<close>

fun clean_history :: "s1_event list \<Rightarrow> bool" where
  "clean_history [] = True"
| "clean_history (DriverStatus st # l) \<longleftrightarrow> clean_history l \<and> (st = DevError \<or> st = Terminating \<longrightarrow> registered l = {#})"
| "clean_history (_ # l) \<longleftrightarrow> clean_history l"

definition quiet :: "('w \<Rightarrow> s1_event list) \<Rightarrow> ('w, 'a) io \<Rightarrow> bool" where
  "quiet L m \<longleftrightarrow> (\<forall>w w' r. m w = Some (w', r) \<longrightarrow> is_ok r \<and> L w' = L w)"

text \<open>The kernel: a device is registered when an address is returned, and nothing else changes that.\<close>

definition kernel_ok :: "'w kernel_ffi \<Rightarrow> ('w \<Rightarrow> s1_event list) \<Rightarrow> bool" where
  "kernel_ok f L \<longleftrightarrow>
     (\<forall>i w w' r. kf_register f i w = Some (w', r) \<longrightarrow>
        (\<exists>p. r = Inr p \<and> L w' = (if is_err_value p then L w else Registered p # L w))) \<and>
     (\<forall>p w w' r. kf_unregister f p w = Some (w', r) \<longrightarrow> is_ok r \<and> L w' = Unregistered p # L w) \<and>
     (\<forall>st w w' r. kf_set_driver_status f st w = Some (w', r) \<longrightarrow> is_ok r \<and> L w' = DriverStatus st # L w) \<and>
     (\<forall>a b c. quiet L (kf_filp_open f a b c)) \<and> (\<forall>a. quiet L (kf_filp_close f a)) \<and>
     (\<forall>a b c. quiet L (kf_read f a b c)) \<and> (\<forall>a b c. quiet L (kf_read_4_13 f a b c)) \<and>
     (\<forall>a b c. quiet L (kf_write f a b c)) \<and> (\<forall>a b c. quiet L (kf_write_4_13 f a b c)) \<and>
     (\<forall>a b. quiet L (kf_usermodehelper f a b)) \<and> (\<forall>a b. quiet L (kf_usleep f a b)) \<and>
     (\<forall>a. quiet L (kf_symbol_get f a)) \<and> quiet L (kf_device_status f)"

definition held :: "u64 option list \<Rightarrow> u64 multiset" where
  "held ds = mset (List.map_filter id ds)"

abbreviation opt_mset :: "u64 option \<Rightarrow> u64 multiset" where
  "opt_mset d \<equiv> (case d of None \<Rightarrow> {#} | Some p \<Rightarrow> {#p#})"

text \<open>The devices of the driver, and \<open>X\<close>, are those that are registered.\<close>

definition s1_at :: "('w \<Rightarrow> s1_event list) \<Rightarrow> u64 multiset \<Rightarrow> u64 option list \<Rightarrow> 'w \<times> s1 \<Rightarrow> bool" where
  "s1_at L X ds ws \<longleftrightarrow>
     clean_history (L (fst ws)) \<and> registered (L (fst ws)) = held ds + X \<and> s1_devices (snd ws) = ds \<and> length ds = MAX_DEVICES"

definition s1_inv :: "('w \<Rightarrow> s1_event list) \<Rightarrow> u64 multiset \<Rightarrow> 'w \<times> s1 \<Rightarrow> bool" where
  "s1_inv L X ws \<longleftrightarrow> (\<exists>ds. s1_at L X ds ws)"

lemma quiet_stays: "quiet L m \<Longrightarrow> stays (\<lambda>w. P (L w)) m"
  by (fastforce simp: quiet_def triple_def is_ok_iff)

lemma quiet_at: "quiet L m \<Longrightarrow> stays (s1_at L X ds) (on_fst m)"
  unfolding triple_def on_fst_def quiet_def s1_at_def by (fastforce simp: is_ok_iff)

lemma stays_inv: "(\<And>ds. stays (s1_at L X ds) m) \<Longrightarrow> stays (s1_inv L X) m"
  unfolding triple_def s1_inv_def by metis

lemma quiet_inv: "quiet L m \<Longrightarrow> stays (s1_inv L X) (on_fst m)"
  by (intro stays_inv quiet_at)

lemma upd_inv: "(\<And>s. s1_devices (g s) = s1_devices s) \<Longrightarrow> stays (s1_inv L X) (upd_snd g)"
  by (auto simp: triple_def s1_inv_def s1_at_def upd_snd_def)

lemma held_update:
  assumes "i < length ds"
  shows "held (ds[i := d]) + opt_mset (ds ! i) = held ds + opt_mset d"
proof -
  have x: "held xs = opt_mset (xs ! i) + held (take i xs) + held (drop (Suc i) xs)" if "i < length xs" for xs :: "u64 option list"
    by (subst id_take_nth_drop[OF that]) (simp add: held_def map_filter_def split: option.split)
  show ?thesis using x[OF assms] x[of "ds[i := d]"] assms by simp
qed

lemma kernel_okD:
  assumes "kernel_ok f L"
  shows "quiet L (kf_filp_open f a b c)" "quiet L (kf_filp_close f a)" "quiet L (kf_read f a d b')" "quiet L (kf_read_4_13 f a d b')"
    "quiet L (kf_write f a bs d)" "quiet L (kf_write_4_13 f a bs d)" "quiet L (kf_usermodehelper f a as)" "quiet L (kf_usleep f a d)"
    "quiet L (kf_symbol_get f n)" "quiet L (kf_device_status f)"
  using assms unfolding kernel_ok_def by auto

lemma device_drop_at:
  assumes "kernel_ok f L"
  shows "triple (s1_at L (X + opt_mset d) ds) (device_drop f d) (\<lambda>_. s1_at L X ds)"
  using assms unfolding kernel_ok_def
  by (cases d) (fastforce simp: triple_def device_drop_def ret_def on_fst_def s1_at_def is_ok_iff)+

lemma update_at:
  assumes "i < length ds"
  shows "triple (s1_at L (Y + opt_mset d) ds) (upd_snd (\<lambda>s. s\<lparr>s1_devices := (s1_devices s)[i := d]\<rparr>))
    (\<lambda>_. s1_at L (Y + opt_mset (ds ! i)) (ds[i := d]))"
  using held_update[OF assms, of d] by (auto simp: triple_def upd_snd_def s1_at_def ac_simps)

lemma get_at: "(\<And>w s. s1_devices s = ds \<Longrightarrow> triple (s1_at L X ds) (g (w, s)) Q) \<Longrightarrow> triple (s1_at L X ds) (bind_io get_st g) Q"
  by (fastforce simp: triple_def bind_io_def get_st_def s1_at_def)

lemma store_device_at:
  assumes "kernel_ok f L" "length ds = MAX_DEVICES"
  shows "triple (s1_at L {#dev#} ds) (store_device f i dev) (\<lambda>_. s1_inv L {#})"
proof (cases "i < MAX_DEVICES")
  case True
  have u: "triple (s1_at L {#dev#} ds) (upd_snd (\<lambda>s. s\<lparr>s1_devices := (s1_devices s)[i := Some dev]\<rparr>))
      (\<lambda>_. s1_at L ({#} + opt_mset (ds ! i)) (ds[i := Some dev]))"
    using update_at[of i ds L "{#}" "Some dev"] True assms(2) by simp
  have r: "triple (s1_at L {#} (ds[i := Some dev])) (ret (Inr ())) (\<lambda>_. s1_inv L {#})"
    by (rule triple_ret) (auto simp: s1_inv_def)
  show ?thesis
    unfolding store_device_def by (rule get_at) (use True assms(2) triple_bind[OF u triple_bind[OF device_drop_at[OF assms(1)] r]] in simp)
next
  case False
  have d: "triple (s1_at L {#dev#} ds) (device_drop f (Some dev)) (\<lambda>_. s1_at L {#} ds)"
    using device_drop_at[OF assms(1), of "{#}" "Some dev"] by simp
  have r: "triple (s1_at L {#} ds) (ret (Inl ())) (\<lambda>_. s1_inv L {#})"
    by (rule triple_ret) (auto simp: s1_inv_def)
  show ?thesis
    unfolding store_device_def by (rule get_at) (use False assms(2) triple_bind[OF d r] in simp)
qed

lemma take_devices_at:
  assumes "kernel_ok f L" "\<forall>i \<in> set is. i < MAX_DEVICES" "length ds = MAX_DEVICES"
  shows "triple (s1_at L {#} ds) (take_devices f is) (\<lambda>_. s1_at L {#} (fold (\<lambda>i ds. ds[i := None]) is ds))"
  using assms(2,3)
proof (induction "is" arbitrary: ds)
  case Nil
  then show ?case by (simp add: triple_ret)
next
  case (Cons i "is")
  have u: "triple (s1_at L {#} ds) (upd_snd (\<lambda>s. s\<lparr>s1_devices := (s1_devices s)[i := None]\<rparr>))
      (\<lambda>_. s1_at L ({#} + opt_mset (ds ! i)) (ds[i := None]))"
    using update_at[of i ds L "{#}" None] Cons.prems by simp
  have "triple (s1_at L {#} ds) (take_devices f (i # is)) (\<lambda>_. s1_at L {#} (fold (\<lambda>i ds. ds[i := None]) is (ds[i := None])))"
    unfolding take_devices.simps
    by (rule get_at) (use triple_bind[OF u triple_bind[OF device_drop_at[OF assms(1)] Cons.IH]] Cons.prems in simp)
  then show ?case by (simp only: fold_simps)
qed

lemma drop_devices_at:
  assumes "kernel_ok f L"
  shows "triple (s1_inv L {#}) (drop_devices f) (\<lambda>_. s1_at L {#} (replicate MAX_DEVICES None))"
proof (rule tripleI)
  fix w w' r assume "s1_inv L {#} w" and run: "drop_devices f w = Some (w', r)"
  then obtain ds where at: "s1_at L {#} ds w" and len: "length ds = MAX_DEVICES" by (auto simp: s1_inv_def s1_at_def)
  have "fold (\<lambda>i ds. ds[i := None]) [0..<MAX_DEVICES] ds = replicate MAX_DEVICES None"
    using len by (auto simp: MAX_DEVICES_def numeral_3_eq_3 length_Suc_conv upt_rec)
  with tripleD[OF take_devices_at[OF assms _ len] at run[unfolded drop_devices_def]]
  show "\<exists>x. r = Inr x \<and> s1_at L {#} (replicate MAX_DEVICES None) w'" by auto
qed

lemma quiet_ret: "quiet L (ret x)"
  by (simp add: quiet_def ret_def)

lemma quiet_bind: "quiet L m \<Longrightarrow> (\<And>x. quiet L (h x)) \<Longrightarrow> quiet L (bind_io m h)"
  unfolding quiet_def by (auto elim!: bind_io_SomeE) (fastforce+)

lemma read_once_quiet: "kernel_ok f L \<Longrightarrow> quiet L (read_once f fl cnt lpos)"
  by (auto simp: read_once_def kernel_okD quiet_ret split: prod.split intro!: quiet_bind)

lemma write_once_quiet: "kernel_ok f L \<Longrightarrow> quiet L (write_once f fl bs lpos)"
  by (auto simp: write_once_def kernel_okD quiet_ret intro!: quiet_bind)

lemma read_loop_stays:
  assumes "kernel_ok f L"
  shows "stays (s1_inv L X) (read_loop f fl out cnt lpos)"
proof (rule tripleI)
  fix w w' r assume "s1_inv L X w" "read_loop f fl out cnt lpos w = Some (w', r)"
  from this(2,1) assms have "\<exists>x. snd (w', r) = Inr x \<and> s1_inv L X (fst (w', r))"
  proof (induction rule: read_loop.raw_induct[rotated, consumes 1, case_names step])
    case (step g f fl out cnt lpos w y)
    have g: "stays (s1_inv L X) (g f fl out cnt lpos)" for out cnt lpos
      by (rule tripleI) (use step(1)[of f fl out cnt lpos] step(4) in fastforce)
    have body: "stays (s1_inv L X) (bind_io (on_fst (read_once f fl cnt lpos)) (\<lambda>(rv, bs, lpos').
        bind_io (upd_snd (\<lambda>s. s\<lparr>s1_buf := overwrite (unat out) bs (s1_buf s)\<rparr>)) (\<lambda>_ w2.
        case rw_result rv of
          RwDone \<Rightarrow> Some (w2, Inr (Inr out))
        | RwAgain \<Rightarrow> g f fl out cnt lpos' w2
        | RwFail e \<Rightarrow> Some (w2, Inr (if out = 0 then Inl e else Inr out))
        | RwMore \<Rightarrow> g f fl (out + rv) (cnt - rv) (if snd fl then lpos' + rv else lpos') w2)))"
    proof (intro triple_intros upd_inv)
      show "stays (s1_inv L X) (on_fst (read_once f fl cnt lpos))"
        by (intro quiet_inv read_once_quiet step)
      fix rv bs lpos' u
      show "stays (s1_inv L X) (\<lambda>w2. case rw_result rv of
          RwDone \<Rightarrow> Some (w2, Inr (Inr out))
        | RwAgain \<Rightarrow> g f fl out cnt lpos' w2
        | RwFail e \<Rightarrow> Some (w2, Inr (if out = 0 then Inl e else Inr out))
        | RwMore \<Rightarrow> g f fl (out + rv) (cnt - rv) (if snd fl then lpos' + rv else lpos') w2)"
        using g by (cases "rw_result rv") (simp_all add: triple_def)
    qed simp
    obtain w2 r2 where y: "y = (w2, r2)" by fastforce
    show ?case using tripleD[OF body step(3) step(2)[unfolded y]] by (simp only: y fst_conv snd_conv)
  qed
  then show "\<exists>x. r = Inr x \<and> s1_inv L X w'" by simp
qed

lemma write_loop_quiet:
  assumes "kernel_ok f L"
  shows "quiet L (write_loop f fl data out cnt lpos)"
proof -
  have "is_ok (snd y) \<and> L (fst y) = L w" if "write_loop f fl data out cnt lpos w = Some y" for w y
    using that assms
  proof (induction rule: write_loop.raw_induct[rotated, consumes 1, case_names step])
    case (step g f fl data out cnt lpos w y)
    have g: "quiet L (g f fl data out cnt lpos)" for out cnt lpos
      unfolding quiet_def using step(1)[of f fl data out cnt lpos] step(3) by fastforce
    have body: "quiet L (bind_io (write_once f fl (take (unat cnt) (drop (unat out) data)) lpos) (\<lambda>(rv, lpos') w1.
        case rw_result rv of
          RwDone \<Rightarrow> Some (w1, Inr (Inr out))
        | RwAgain \<Rightarrow> g f fl data out cnt lpos' w1
        | RwFail e \<Rightarrow> Some (w1, Inr (if out = 0 then Inl e else Inr out))
        | RwMore \<Rightarrow> g f fl data (out + rv) (cnt - rv) (if snd fl then lpos' + rv else lpos') w1))"
    proof (rule quiet_bind[OF write_once_quiet[OF step(3)]], clarify)
      fix rv lpos'
      show "quiet L (\<lambda>w1. case rw_result rv of
          RwDone \<Rightarrow> Some (w1, Inr (Inr out))
        | RwAgain \<Rightarrow> g f fl data out cnt lpos' w1
        | RwFail e \<Rightarrow> Some (w1, Inr (if out = 0 then Inl e else Inr out))
        | RwMore \<Rightarrow> g f fl data (out + rv) (cnt - rv) (if snd fl then lpos' + rv else lpos') w1)"
        using g by (cases "rw_result rv") (simp_all add: quiet_def)
    qed
    obtain w2 r2 where y: "y = (w2, r2)" by fastforce
    show ?case
    proof (cases "cnt = 0")
      case False
      then show ?thesis using body[unfolded quiet_def, rule_format, of w w2 r2] step(2) unfolding y by simp
    qed (use step(2) in auto)
  qed
  then show ?thesis unfolding quiet_def by fastforce
qed

lemma exec_stage2_stays:
  assumes "kernel_ok f L"
  shows "stays (s1_inv L X) (exec_stage2 f)"
proof (rule tripleI)
  fix w w' r assume "s1_inv L X w" "exec_stage2 f w = Some (w', r)"
  from this(2,1) assms have "\<exists>x. snd (w', r) = Inr x \<and> s1_inv L X (fst (w', r))"
  proof (induction rule: exec_stage2.raw_induct[rotated, consumes 1, case_names step])
    case (step g f w y)
    have g: "stays (s1_inv L X) (g f)"
      by (rule tripleI) (use step(1)[of f] step(4) in fastforce)
    have body: "stays (s1_inv L X) (bind_io (on_fst (kf_usermodehelper f (argv0 (snd w)) (s1_argv (snd w)))) (\<lambda>res w1.
        if res = - ETXTBSY then bind_io (on_fst (kf_usleep f 10000 100000)) (\<lambda>_ w2. g f w2) w1
        else if res \<noteq> 0 then Some (w1, Inr (Inl ()))
        else Some (w1, Inr (Inr ()))))"
    proof (rule triple_bind[OF quiet_inv[OF kernel_okD(7)[OF step(4)]]])
      have "stays (s1_inv L X) (bind_io (on_fst (kf_usleep f 10000 100000)) (\<lambda>_. g f))"
        by (rule triple_bind[OF quiet_inv[OF kernel_okD(8)[OF step(4)]] g])
      then show "stays (s1_inv L X) (\<lambda>w1. if res = - ETXTBSY then bind_io (on_fst (kf_usleep f 10000 100000)) (\<lambda>_ w2. g f w2) w1
        else if res \<noteq> 0 then Some (w1, Inr (Inl ())) else Some (w1, Inr (Inr ())))" for res
        by (auto simp: triple_def)
    qed
    obtain w2 r2 where y: "y = (w2, r2)" by fastforce
    show ?case using tripleD[OF body step(3) step(2)[unfolded y]] by (simp only: y fst_conv snd_conv)
  qed
  then show "\<exists>x. r = Inr x \<and> s1_inv L X w'" by simp
qed

lemma wait_ready_quiet:
  assumes "kernel_ok f L"
  shows "quiet L (wait_ready f)"
proof -
  have "is_ok (snd y) \<and> L (fst y) = L w" if "wait_ready f w = Some y" for w y
    using that assms
  proof (induction rule: wait_ready.raw_induct[rotated, consumes 1, case_names step])
    case (step g f w y)
    have g: "quiet L (g f)" unfolding quiet_def using step(1)[of f] step(3) by fastforce
    have body: "quiet L (bind_io (kf_device_status f) (\<lambda>st w1.
        if st = Ready then bind_io (kf_usleep f 50000 500000) (\<lambda>_ w2. g f w2) w1 else Some (w1, Inr ())))"
    proof (rule quiet_bind[OF kernel_okD(10)[OF step(3)]])
      show "quiet L (\<lambda>w1. if st = Ready then bind_io (kf_usleep f 50000 500000) (\<lambda>_ w2. g f w2) w1 else Some (w1, Inr ()))" for st
        using quiet_bind[OF kernel_okD(8)[OF step(3)] g] by (cases "st = Ready") (auto simp: quiet_def)
    qed
    obtain w2 r2 where y: "y = (w2, r2)" by fastforce
    show ?case using body[unfolded quiet_def, rule_format, of w w2 r2] step(2) unfolding y by simp
  qed
  then show ?thesis unfolding quiet_def by fastforce
qed

lemma kfile_stays:
  assumes "kernel_ok f L"
  shows "stays (s1_inv L X) (kfile_open f a b c d)" "stays (s1_inv L X) (kfile_drop f fl)"
  unfolding kfile_open_def kfile_drop_def using assms by (auto intro!: triple_intros quiet_inv kernel_okD)

lemma get_kernel_version_stays:
  assumes "kernel_ok f L"
  shows "stays (s1_inv L X) (get_kernel_version f)"
  unfolding get_kernel_version_def read_all_def
  by (intro triple_intros quiet_inv kernel_okD(9) kfile_stays read_loop_stays assms)

lemma register_virtio_mmio_inv:
  assumes "kernel_ok f L"
  shows "triple (s1_inv L {#}) (register_virtio_mmio f i base sz irq v)
    (\<lambda>r. case r of Inl _ \<Rightarrow> s1_inv L {#} | Inr dev \<Rightarrow> s1_inv L {#dev#})"
proof -
  have u: "stays (s1_inv L {#}) (upd_snd (set_resources i base sz irq v))"
    by (rule upd_inv) (simp add: set_resources_def Let_def)
  have r: "triple (s1_inv L {#}) (on_fst (kf_register f d)) (\<lambda>dev. s1_inv L (if is_err_value dev then {#} else {#dev#}))" for d
    using assms unfolding kernel_ok_def
    by (fastforce simp: triple_def on_fst_def s1_inv_def s1_at_def)
  show ?thesis
    unfolding register_virtio_mmio_def
    by (intro triple_bind[OF u] triple_bind[OF stays_basic(2)])
      (auto intro!: triple_bind[OF r] triple_ret split: if_splits)
qed

lemma register_devices_stays:
  assumes "kernel_ok f L"
  shows "stays (s1_inv L {#}) (register_devices f v irq i addrs)"
proof (induction addrs arbitrary: i)
  case Nil
  then show ?case by (simp add: stays_basic)
next
  case (Cons a addrs)
  have s: "triple (s1_inv L {#dev#}) (store_device f i dev) (\<lambda>_. s1_inv L {#})" for dev
    using store_device_at[OF assms] unfolding triple_def s1_inv_def by (metis s1_at_def)
  have r: "triple (s1_inv L {#}) (fail_with (register_virtio_mmio f (MMIO_DEVICE_ID + of_nat i) a MMIO_SIZE irq v) ())
      (\<lambda>r. case r of Inl _ \<Rightarrow> s1_inv L {#} | Inr dev \<Rightarrow> s1_inv L {#dev#})"
    unfolding fail_with_def by (rule triple_or_else[OF register_virtio_mmio_inv[OF assms]]) (auto intro: triple_ret)
  have "stays (s1_inv L {#}) (bind_sum (fail_with (register_virtio_mmio f (MMIO_DEVICE_ID + of_nat i) a MMIO_SIZE irq v) ()) (\<lambda>dev.
      bind_sum (store_device f i dev) (\<lambda>_. register_devices f v irq (Suc i) addrs)))"
    by (rule triple_bind_sum[OF r]) (auto intro!: triple_bind_sum[OF s] Cons.IH)
  then show ?case using Cons.IH by simp
qed

lemma open_stage2_stays:
  assumes "kernel_ok f L"
  shows "stays (s1_inv L X) (open_stage2 f old)"
  unfolding open_stage2_def by (intro triple_intros kfile_stays upd_inv assms) simp

lemma run_stage2_stays:
  assumes "kernel_ok f L"
  shows "stays (s1_inv L {#}) (run_stage2 f exe)"
  unfolding run_stage2_def write_all_def
  by (intro triple_intros get_kernel_version_stays register_devices_stays open_stage2_stays quiet_inv write_loop_quiet
      kfile_stays exec_stage2_stays assms)

abbreviation no_devices :: "('w \<Rightarrow> s1_event list) \<Rightarrow> 'w \<times> s1 \<Rightarrow> bool" where
  "no_devices L \<equiv> s1_at L {#} (replicate MAX_DEVICES None)"

lemma held_none: "held (replicate n None) = {#}"
  by (induction n) (auto simp: held_def map_filter_def)

lemma set_driver_status_at:
  assumes "kernel_ok f L" "st = DevError \<or> st = Terminating \<Longrightarrow> held ds = {#}"
  shows "stays (s1_at L {#} ds) (on_fst (kf_set_driver_status f st))"
  using assms unfolding kernel_ok_def by (fastforce simp: triple_def on_fst_def s1_at_def is_ok_iff)

lemma wait_device_none:
  assumes "kernel_ok f L"
  shows "stays (no_devices L) (wait_device f n)"
proof (induction n)
  case (Suc n)
  then show ?case
    by (auto intro!: triple_intros quiet_at[OF kernel_okD(8)[OF assms]] quiet_at[OF kernel_okD(10)[OF assms]]
        set_driver_status_at[OF assms] simp: held_none)
qed (simp add: stays_basic)

lemma spawn_stage2_none:
  assumes "kernel_ok f L"
  shows "stays (no_devices L) (spawn_stage2 f exe)"
proof -
  have run: "triple (no_devices L) (run_stage2 f exe) (\<lambda>_. s1_inv L {#})"
    using run_stage2_stays[OF assms, of exe] by (rule triple_conseq) (auto simp: s1_inv_def)
  have st: "stays (no_devices L) (on_fst (kf_set_driver_status f st))" for st
    by (rule set_driver_status_at[OF assms]) (simp add: held_none)
  have ready: "stays (s1_inv L {#}) (on_fst (kf_set_driver_status f Ready))"
    by (intro stays_inv set_driver_status_at assms) simp_all
  have stop: "triple (s1_inv L {#}) (bind_io (drop_devices f) (\<lambda>_. on_fst (kf_set_driver_status f st))) (\<lambda>_. no_devices L)" for st
    by (rule triple_bind[OF drop_devices_at[OF assms] st])
  have body: "triple (no_devices L) (bind_io (run_stage2 f exe) (\<lambda>res.
      case res of
        Inl _ \<Rightarrow> bind_io (drop_devices f) (\<lambda>_. on_fst (kf_set_driver_status f DevError))
      | Inr _ \<Rightarrow>
          bind_io (on_fst (kf_set_driver_status f Ready)) (\<lambda>_.
          bind_io (on_fst (wait_ready f)) (\<lambda>_.
          bind_io (drop_devices f) (\<lambda>_. on_fst (kf_set_driver_status f Terminating)))))) (\<lambda>_. no_devices L)"
    by (rule triple_bind[OF run])
      (auto split: sum.split intro!: stop triple_bind[OF ready] triple_bind[OF quiet_inv[OF wait_ready_quiet[OF assms]]])
  show ?thesis
    unfolding spawn_stage2_def
    by (intro triple_intros st quiet_at kernel_okD(10) wait_device_none body assms)
qed

text \<open>
  C6: Whatever the kernel answers and vmsh writes meanwhile, when stage 1 reports an error or its termination to vmsh,
  every virtio device it had registered in the guest has been unregistered, and when its worker ends, none is left.
\<close>

theorem spawn_stage2_clean:
  assumes "spawn_stage2 f exe (w, s) = Some ((w', s'), r)" "kernel_ok f L" "L w = []" "s1_devices s = replicate MAX_DEVICES None"
  shows "r = Inr () \<and> clean_history (L w') \<and> registered (L w') = {#}"
proof -
  have "no_devices L (w, s)" using assms(3,4) by (simp add: s1_at_def held_none)
  from tripleD[OF spawn_stage2_none[OF assms(2)] this assms(1)] show ?thesis by (auto simp: s1_at_def held_none)
qed

section \<open>Writing a file\<close>

lemma rw_result_word:
  assumes "- (2 ^ 31) \<le> k" "k < 2 ^ 31"
  shows "rw_result (word_of_int (- k)) =
    (if k = 0 then RwDone else if k = 4 \<or> k = 11 then RwAgain else if 1 \<le> k then RwFail (word_of_int k) else RwMore)"
proof -
  have e: "(ucast (word_of_int k :: isize) :: u32) = word_of_int k"
    by (simp add: word_uint_eq_iff unsigned_ucast_eq uint_word_of_int take_bit_eq_mod mod_mod_cancel)
  have s: "sint (word_of_int k :: u32) = k"
    using assms by (simp add: signed_of_int signed_take_bit_int_eq_self)
  have eq: "(word_of_int k :: u32) = word_of_int n \<longleftrightarrow> k = n" if "- (2 ^ 31) \<le> n" "n < 2 ^ 31" for n
  proof -
    have "sint (word_of_int n :: u32) = n" using that by (simp add: signed_of_int signed_take_bit_int_eq_self)
    with s show ?thesis by metis
  qed
  show ?thesis
    using eq[of 0] eq[of 4] eq[of 11] by (simp add: rw_result_def e Let_def EINTR_def EAGAIN_def word_sle_eq s)
qed

text \<open>
  What \<^verbatim>\<open>kernel_write\<close> is documented to do with the content \<open>C\<close> of a file: it writes some of the bytes at the position
  and returns their number, or writes nothing and returns 0 or a negative error number.
\<close>

definition wrote :: "('w \<Rightarrow> bytes) \<Rightarrow> bytes \<Rightarrow> u64 \<Rightarrow> isize \<Rightarrow> 'w \<Rightarrow> 'w \<Rightarrow> bool" where
  "wrote C bs pos rv w w' \<longleftrightarrow>
     - 4095 \<le> sint rv \<and> sint rv \<le> 0x7FFFF000 \<and> sint rv \<le> int (length bs) \<and>
     C w' = overwrite (unat pos) (take (nat (sint rv)) bs) (C w)"

definition write_ok :: "'w kernel_ffi \<Rightarrow> u64 \<Rightarrow> ('w \<Rightarrow> bytes) \<Rightarrow> bool" where
  "write_ok f q C \<longleftrightarrow>
     (\<forall>bs pos w w' rv pos'. kf_write f q bs pos w = Some (w', Inr (rv, pos')) \<longrightarrow>
        wrote C bs pos rv w w' \<and> pos' = (if 0 < sint rv then pos + rv else pos)) \<and>
     (\<forall>bs pos w w' rv. kf_write_4_13 f q bs pos w = Some (w', Inr rv) \<longrightarrow> wrote C bs pos rv w w')"

lemma write_once_ok:
  assumes "write_ok f q C" "write_once f (q, old) bs lpos w = Some (w', Inr (rv, lpos'))"
  shows "wrote C bs lpos rv w w' \<and> lpos' = (if old \<or> sint rv \<le> 0 then lpos else lpos + rv)"
proof (cases old)
  case True
  then show ?thesis using assms by (auto simp: write_ok_def write_once_def bind_io_Inr ret_Some)
next
  case False
  then have "kf_write f q bs lpos w = Some (w', Inr (rv, lpos'))" using assms(2) by (simp add: write_once_def)
  with assms(1) have "wrote C bs lpos rv w w' \<and> lpos' = (if 0 < sint rv then lpos + rv else lpos)" unfolding write_ok_def by blast
  then show ?thesis using False by simp
qed

lemma rw_result_sint:
  assumes "- 4095 \<le> sint rv" "sint rv \<le> 0x7FFFF000"
  shows "rw_result rv = RwMore \<longleftrightarrow> 0 < sint rv"
  using rw_result_word[of "- sint rv"] assms by (auto split: if_splits)

lemma write_advance:
  assumes "wrote C (take (unat cnt) (drop (unat out) data)) out rv w w1" "0 < sint rv" "unat out \<le> length data"
    "unat cnt = length data - unat out" "length data < 2 ^ 63" "C w = overwrite 0 (take (unat out) data) c0"
  shows "unat (out + rv) \<le> length data" "unat (cnt - rv) = length data - unat (out + rv)"
    "C w1 = overwrite 0 (take (unat (out + rv)) data) c0"
proof -
  have "sint rv = uint rv"
    using assms(1,2) uint_sint[of rv] by (simp add: wrote_def take_bit_int_eq_self)
  then have n: "nat (sint rv) = unat rv" by simp
  have le: "unat rv \<le> unat cnt"
    using assms(1,4) unfolding wrote_def n[symmetric] nat_le_iff by simp
  have o: "unat (out + rv) = unat out + unat rv"
    using le assms(3,4,5) by (intro unat_add_no_overflow) simp
  show "unat (out + rv) \<le> length data" using o le assms(3,4) by simp
  show "unat (cnt - rv) = length data - unat (out + rv)"
    using o le assms(4) by (simp add: unat_sub word_le_nat_alt)
  have "take (unat rv) (take (unat cnt) (drop (unat out) data)) = take (unat rv) (drop (unat out) data)" using le by simp
  then have "C w1 = overwrite (length (take (unat out) data)) (take (unat rv) (drop (unat out) data)) (overwrite 0 (take (unat out) data) c0)"
    using assms(1,3,6) n by (simp add: wrote_def)
  also have "\<dots> = overwrite 0 (take (unat (out + rv)) data) c0" unfolding overwrite_append0 o by (simp add: take_add)
  finally show "C w1 = overwrite 0 (take (unat (out + rv)) data) c0" .
qed

lemma write_loop_content:
  assumes "write_loop f fl data out cnt lpos w = Some y" "write_ok f (fst fl) C" "unat out \<le> length data"
    "unat cnt = length data - unat out" "lpos = out" "length data < 2 ^ 63" "C w = overwrite 0 (take (unat out) data) c0"
  shows "case snd y of
      Inr (Inr n) \<Rightarrow> unat n \<le> length data \<and> C (fst y) = overwrite 0 (take (unat n) data) c0
    | Inr (Inl e) \<Rightarrow> C (fst y) = c0
    | Inl _ \<Rightarrow> True"
  using assms
proof (induction rule: write_loop.raw_induct[rotated, consumes 1, case_names step])
  case (step g f fl data out cnt lpos w y)
  obtain w2 r2 where y: "y = (w2, r2)" by fastforce
  obtain q old where fl: "fl = (q, old)" by fastforce
  show ?case
  proof (cases "cnt = 0")
    case True
    then show ?thesis using step by (auto simp: y)
  next
    case False
    let ?bs = "take (unat cnt) (drop (unat out) data)"
    from step(2) False have "bind_io (write_once f fl ?bs lpos) (\<lambda>(rv, lpos') w1.
        case rw_result rv of
          RwDone \<Rightarrow> Some (w1, Inr (Inr out))
        | RwAgain \<Rightarrow> g f fl data out cnt lpos' w1
        | RwFail e \<Rightarrow> Some (w1, Inr (if out = 0 then Inl e else Inr out))
        | RwMore \<Rightarrow> g f fl data (out + rv) (cnt - rv) (if snd fl then lpos' + rv else lpos') w1) w = Some (w2, r2)"
      by (simp add: y)
    then show ?thesis
    proof (rule bind_io_SomeE)
      fix w1 p assume o: "write_once f fl ?bs lpos w = Some (w1, Inr p)"
        and rest: "(case p of (rv, lpos') \<Rightarrow> \<lambda>w1.
        case rw_result rv of
          RwDone \<Rightarrow> Some (w1, Inr (Inr out))
        | RwAgain \<Rightarrow> g f fl data out cnt lpos' w1
        | RwFail e \<Rightarrow> Some (w1, Inr (if out = 0 then Inl e else Inr out))
        | RwMore \<Rightarrow> g f fl data (out + rv) (cnt - rv) (if snd fl then lpos' + rv else lpos') w1) w1 = Some (w2, r2)"
      obtain rv lpos' where p: "p = (rv, lpos')" by fastforce
      from write_once_ok[of f q C old] step(3) o have wr: "wrote C ?bs lpos rv w w1"
        and l: "lpos' = (if old \<or> sint rv \<le> 0 then lpos else lpos + rv)" by (auto simp: fl p)
      show ?thesis
      proof (cases "0 < sint rv")
        case True
        then have m: "rw_result rv = RwMore" using wr rw_result_sint by (simp add: wrote_def)
        note a = write_advance[OF wr[unfolded step(6)] True step(4,5,7,8)]
        show ?thesis
          using step(1)[of f fl data "out + rv" "cnt - rv" "out + rv" w1 y] step(3,7) a rest True
          by (auto simp: p m l fl step(6) y split: if_splits)
      next
        case False
        then have "rw_result rv \<noteq> RwMore" "C w1 = C w" using wr rw_result_sint by (simp_all add: wrote_def)
        then show ?thesis
          using step(1)[of f fl data out cnt lpos w1 y] step(3-8) rest False
          by (auto simp: p l y split: rw.splits if_splits)
      qed
    qed (simp add: y)
  qed
qed

text \<open>
  C24: Whatever short writes, interruptions and errors the kernel produces, and with either prototype of \<^verbatim>\<open>kernel_write\<close>,
  if \<^verbatim>\<open>write_all\<close> reports \<open>n\<close> bytes then the file begins with exactly the first \<open>n\<close> bytes of the data and is unchanged
  behind them; if it reports an error, the file is unchanged.
\<close>

theorem write_all_content:
  assumes "write_all f (q, old) data 0 w = Some (w', Inr r)" "write_ok f q C" "length data < 2 ^ 63"
  shows "case r of
      Inr n \<Rightarrow> unat n \<le> length data \<and> C w' = overwrite 0 (take (unat n) data) (C w)
    | Inl e \<Rightarrow> C w' = C w"
  using write_loop_content[OF assms(1)[unfolded write_all_def], of C "C w"] assms(2,3)
  by (simp add: unat_of_nat take_bit_nat_eq_self split: sum.splits)

section \<open>Reading the version\<close>

definition ascii_bytes :: "string \<Rightarrow> bytes" where
  "ascii_bytes s = map (\<lambda>c. of_nat (of_char c)) s"

definition is_ascii :: "string \<Rightarrow> bool" where
  "is_ascii s \<longleftrightarrow> (\<forall>c \<in> set s. of_char c < (128 :: nat))"

lemma valid_ascii: "list_all (\<lambda>b. b < 0x80) bs \<Longrightarrow> valid_utf8 bs"
  by (induction bs) auto

lemma from_utf8_ascii:
  assumes "is_ascii s"
  shows "from_utf8 (ascii_bytes s) = Some s"
proof -
  have "list_all (\<lambda>b. b < 0x80) (ascii_bytes s)"
    using assms by (auto simp: list_all_iff is_ascii_def ascii_bytes_def word_less_nat_alt unat_of_nat take_bit_nat_eq_self)
  moreover have "map (\<lambda>b. char_of (unat b)) (ascii_bytes s) = s"
    using assms by (induction s) (auto simp: is_ascii_def ascii_bytes_def unat_of_nat take_bit_nat_eq_self)
  ultimately show ?thesis by (simp add: from_utf8_def valid_ascii)
qed

lemma position_append: "\<forall>c \<in> set a. \<not> p c \<Longrightarrow> position p (a @ b) = map_option (\<lambda>i. length a + i) (position p b)"
  by (induction a) (cases "position p b"; auto)+

lemma decimal_chars:
  assumes "c \<in> set (to_radix 10 n)"
  shows "is_ascii_digit c" "c \<noteq> CHR ''.''" "of_char c < (128 :: nat)"
proof -
  obtain d where "d < 10" "c = digit_char d" using to_radix_digits[OF assms] by auto
  then have "of_char c = 48 + d" "d < 10" using of_digit_char[of d] by auto
  then show "is_ascii_digit c" "c \<noteq> CHR ''.''" "of_char c < (128 :: nat)" by (auto simp: is_ascii_digit_def)
qed

lemma parse_u16_decimal: "parse_u16 (to_radix 10 (unat v)) = Some v"
  using parse_unsigned_to_radix[of 10 "unat v" "2 ^ 16" 0] unsigned_less[of v, where ?'a = nat]
  by (simp add: parse_u16_def)

definition version_text :: "kernel_version \<Rightarrow> string" where
  "version_text v =
     to_radix 10 (unat (kv_major v)) @ CHR ''.'' # to_radix 10 (unat (kv_minor v)) @ CHR ''.'' # to_radix 10 (unat (kv_patch v))"

lemma version_text_chars: "c \<in> set (version_text v) \<Longrightarrow> (c = CHR ''.'' \<or> is_ascii_digit c) \<and> of_char c < (128 :: nat)"
  using decimal_chars by (auto simp: version_text_def)

lemma parse_version_text:
  assumes "suffix = [] \<or> hd suffix \<noteq> CHR ''.'' \<and> \<not> is_ascii_digit (hd suffix)"
  shows "parse_version (version_text v @ suffix) = Inr v"
proof -
  have "position (\<lambda>c. c \<noteq> CHR ''.'' \<and> \<not> is_ascii_digit c) (version_text v @ suffix) =
      (if suffix = [] then None else Some (length (version_text v)))"
    using assms version_text_chars[of _ v] by (subst position_append) (auto simp: neq_Nil_conv)
  then have k: "(case position (\<lambda>c. c \<noteq> CHR ''.'' \<and> \<not> is_ascii_digit c) (version_text v @ suffix) of
      Some pos \<Rightarrow> take pos (version_text v @ suffix) | None \<Rightarrow> version_text v @ suffix) = version_text v" by simp
  have "splitn 3 (CHR ''.'') (version_text v) =
      [to_radix 10 (unat (kv_major v)), to_radix 10 (unat (kv_minor v)), to_radix 10 (unat (kv_patch v))]"
    using decimal_chars(2) by (auto simp: version_text_def numeral_3_eq_3)
  then show ?thesis
    unfolding parse_version_def k by (simp add: nth_opt_def parse_version_part_def parse_u16_decimal)
qed



section \<open>An example\<close>

text \<open>
  A kernel without \<^verbatim>\<open>/proc\<close> in which everything else works; vmsh reports that the devices are ready, and their end when their
  state is read for the fourth time. The world is the history and the number of times the state was read.
\<close>

definition toy_kernel :: "(s1_event list \<times> nat) kernel_ffi" where
  "toy_kernel =
     \<lparr>kf_register = (\<lambda>i (l, n). Some ((Registered 0xFFFF888000000000 # l, n), Inr 0xFFFF888000000000)),
      kf_unregister = (\<lambda>p (l, n). Some ((Unregistered p # l, n), Inr ())),
      kf_filp_open = (\<lambda>p _ _. ret (if p = 1 then - 2 else 0xFFFF888000001000)),
      kf_filp_close = (\<lambda>_. ret 0),
      kf_read = (\<lambda>_ _ pos. ret (0, [], pos)),
      kf_read_4_13 = (\<lambda>_ _ _. ret (0, [])),
      kf_write = (\<lambda>_ bs pos. ret (of_nat (length bs), pos + of_nat (length bs))),
      kf_write_4_13 = (\<lambda>_ bs _. ret (of_nat (length bs))),
      kf_usermodehelper = (\<lambda>_ _. ret 0),
      kf_usleep = (\<lambda>_ _. ret ()),
      kf_symbol_get = (\<lambda>_. ret 0),
      kf_queue_work = (\<lambda>_. ret ()),
      kf_device_status = (\<lambda>(l, n). Some ((l, Suc n), Inr (if n < 3 then Ready else Terminating))),
      kf_set_driver_status = (\<lambda>st (l, n). Some ((DriverStatus st # l, n), Inr ())),
      kf_lit = (\<lambda>s. if s = ''/.vmsh'' then 2 else 1)\<rparr>"

lemma toy_kernel_fields [simp]:
  "kf_register toy_kernel = (\<lambda>i (l, n). Some ((Registered 0xFFFF888000000000 # l, n), Inr 0xFFFF888000000000))"
  "kf_unregister toy_kernel = (\<lambda>p (l, n). Some ((Unregistered p # l, n), Inr ()))"
  "kf_filp_open toy_kernel = (\<lambda>p _ _. ret (if p = 1 then - 2 else 0xFFFF888000001000))"
  "kf_filp_close toy_kernel = (\<lambda>_. ret 0)"
  "kf_write toy_kernel = (\<lambda>_ bs pos. ret (of_nat (length bs), pos + of_nat (length bs)))"
  "kf_usermodehelper toy_kernel = (\<lambda>_ _. ret 0)"
  "kf_symbol_get toy_kernel = (\<lambda>_. ret 0)"
  "kf_device_status toy_kernel = (\<lambda>(l, n). Some ((l, Suc n), Inr (if n < 3 then Ready else Terminating)))"
  "kf_set_driver_status toy_kernel = (\<lambda>st (l, n). Some ((DriverStatus st # l, n), Inr ()))"
  "kf_lit toy_kernel = (\<lambda>s. if s = ''/.vmsh'' then 2 else 1)"
  by (simp_all add: toy_kernel_def)

lemma toy_pointers [simp]: "\<not> is_err_value 0xFFFF888000000000" "\<not> is_err_value 0xFFFF888000001000" "is_err_value (- 2)"
  by code_simp+

lemma toy_kernel_ok: "kernel_ok toy_kernel fst"
  by (auto simp: kernel_ok_def quiet_def ret_def) (auto simp: toy_kernel_def ret_def)

lemma toy_write: "write_loop toy_kernel (q, False) [1, 2] 0 2 0 w = Some (w, Inr (Inr 2))"
proof -
  have "rw_result 2 = RwMore" by code_simp
  then show ?thesis
    by (subst write_loop.simps) (simp add: write_once_def ret_def bind_io_def write_loop.simps)
qed

lemma toy_exec: "exec_stage2 toy_kernel w = Some (w, Inr (Inr ()))"
  by (subst exec_stage2.simps) (simp add: ret_def bind_io_def on_fst_def ETXTBSY_def)

lemma toy_s1_wait: "wait_ready toy_kernel (l, 3) = Some ((l, 4), Inr ())"
  by (subst wait_ready.simps) (simp add: bind_io_def)

lemmas toy_simps = bind_io_def ret_def on_fst_def upd_snd_def get_st_def with_drop_def bind_sum_def or_else_def fail_with_def

definition toy_s1 :: s1 where
  "toy_s1 = s1_init [0xD0000000, 0, 0] [3] 5"

lemma toy_open: "kfile_open toy_kernel p a b c w = Some (w, Inr (if p = 1 then Inl (- 2) else Inr (0xFFFF888000001000, c)))"
  by (simp add: kfile_open_def toy_simps err_value_def)

lemma toy_version: "get_kernel_version toy_kernel w = Some (w, Inr (Inr \<lparr>kv_major = 5, kv_minor = 5, kv_patch = 0\<rparr>))"
  by (simp add: get_kernel_version_def toy_open toy_simps)

lemma toy_s1_register:
  "\<exists>s'. register_devices toy_kernel \<lparr>kv_major = 5, kv_minor = 5, kv_patch = 0\<rparr> 5 0 [0xD0000000, 0, 0] ((l, n), toy_s1) =
     Some (((Registered 0xFFFF888000000000 # l, n), s'), Inr (Inr ())) \<and>
     s1_devices s' = [Some 0xFFFF888000000000, None, None] \<and> s1_argv s' = [3]"
  by (simp add: register_virtio_mmio_def store_device_def device_drop_def toy_simps toy_s1_def s1_init_def MAX_DEVICES_def
      numeral_3_eq_3 Let_def set_resources_def)

lemma toy_run:
  "\<exists>s'. run_stage2 toy_kernel [1, 2] ((l, n), toy_s1) = Some (((Registered 0xFFFF888000000000 # l, n), s'), Inr (Inr ())) \<and>
     s1_devices s' = [Some 0xFFFF888000000000, None, None]"
proof -
  obtain s' where r: "register_devices toy_kernel \<lparr>kv_major = 5, kv_minor = 5, kv_patch = 0\<rparr> 5 0 [0xD0000000, 0, 0] ((l, n), toy_s1) =
      Some (((Registered 0xFFFF888000000000 # l, n), s'), Inr (Inr ()))"
    and s: "s1_devices s' = [Some 0xFFFF888000000000, None, None]" "s1_argv s' = [3]"
    using toy_s1_register by blast
  have o: "open_stage2 toy_kernel old (w, s') = Some ((w, s'), Inr (Inr (0xFFFF888000001000, old)))" for old w
    by (simp add: open_stage2_def toy_simps toy_open argv0_def s)
  have t: "s1_irq_num toy_s1 = 5" "s1_device_addrs toy_s1 = [0xD0000000, 0, 0]" by (simp_all add: toy_s1_def s1_init_def Let_def)
  show ?thesis
    by (simp add: run_stage2_def toy_simps toy_version t r o linux_4_13_or_older_def write_all_def toy_write kfile_drop_def toy_exec s
        del: register_devices.simps)
qed

lemma toy_wait_device: "wait_device toy_kernel 20 (([], Suc 0), s) = Some ((([], 2), s), Inr True)"
  using wait_device.simps(2)[of toy_kernel 19] by (simp add: toy_simps)

lemma toy_drop:
  assumes "s1_devices s = [Some p, None, None]"
  shows "drop_devices toy_kernel ((l, n), s) = Some (((Unregistered p # l, n), s\<lparr>s1_devices := [None, None, None]\<rparr>), Inr ())"
  using assms by (simp add: drop_devices_def MAX_DEVICES_def numeral_3_eq_3 device_drop_def toy_simps)

theorem spawn_stage2_clean_witness:
  "\<exists>w' s'. spawn_stage2 toy_kernel [1, 2] (([], 0), toy_s1) = Some ((w', s'), Inr ()) \<and>
     fst w' = [DriverStatus Terminating, Unregistered 0xFFFF888000000000, DriverStatus Ready, Registered 0xFFFF888000000000,
       DriverStatus Initializing] \<and>
     clean_history (fst w')"
proof -
  let ?p = "0xFFFF888000000000 :: u64"
  let ?l = "[DriverStatus Terminating, Unregistered ?p, DriverStatus Ready, Registered ?p, DriverStatus Initializing]"
  obtain s2 where r: "run_stage2 toy_kernel [1, 2] (([DriverStatus Initializing], 3), toy_s1) =
      Some ((([Registered ?p, DriverStatus Initializing], 3), s2), Inr (Inr ()))"
    and s: "s1_devices s2 = [Some ?p, None, None]"
    using toy_run by blast
  have run: "spawn_stage2 toy_kernel [1, 2] (([], 0), toy_s1) = Some (((?l, 4), s2\<lparr>s1_devices := [None, None, None]\<rparr>), Inr ())"
    by (simp add: spawn_stage2_def toy_simps toy_wait_device toy_s1_wait toy_drop[OF s] r)
  have "s1_devices toy_s1 = replicate MAX_DEVICES None" by (simp add: toy_s1_def s1_init_def Let_def)
  with spawn_stage2_clean[OF run toy_kernel_ok] have "clean_history ?l" by simp
  with run show ?thesis by simp
qed

text \<open>A kernel that writes one byte at a time to its only file, which is the world.\<close>

definition slow_kernel :: "bytes kernel_ffi" where
  "slow_kernel =
     \<lparr>kf_register = (\<lambda>_. ret 0), kf_unregister = (\<lambda>_. ret ()), kf_filp_open = (\<lambda>_ _ _. ret 0), kf_filp_close = (\<lambda>_. ret 0),
      kf_read = (\<lambda>_ _ pos. ret (0, [], pos)), kf_read_4_13 = (\<lambda>_ _ _. ret (0, [])),
      kf_write = (\<lambda>_ bs pos w. Some (overwrite (unat pos) (take 1 bs) w, Inr (if bs = [] then (0, pos) else (1, pos + 1)))),
      kf_write_4_13 = (\<lambda>_ bs pos w. Some (overwrite (unat pos) (take 1 bs) w, Inr (if bs = [] then 0 else 1))),
      kf_usermodehelper = (\<lambda>_ _. ret 0), kf_usleep = (\<lambda>_ _. ret ()), kf_symbol_get = (\<lambda>_. ret 0), kf_queue_work = (\<lambda>_. ret ()),
      kf_device_status = ret Ready, kf_set_driver_status = (\<lambda>_. ret ()), kf_lit = (\<lambda>_. 0)\<rparr>"

lemma slow_kernel_ok: "write_ok slow_kernel q id"
  by (auto simp: write_ok_def wrote_def slow_kernel_def Suc_le_eq split: if_splits)

lemma slow_write: "write_loop slow_kernel (7, False) [1, 2] 0 2 0 [9, 9, 9] = Some ([1, 2, 9], Inr (Inr 2))"
proof -
  have "rw_result 1 = RwMore" by code_simp
  then show ?thesis
    by (subst write_loop.simps, simp add: write_once_def bind_io_def slow_kernel_def)
      (subst write_loop.simps, simp add: write_once_def bind_io_def overwrite_def write_loop.simps)
qed

theorem write_all_content_witness:
  "write_all slow_kernel (7, False) [1, 2] 0 [9, 9, 9] = Some ([1, 2, 9], Inr (Inr 2)) \<and>
   id [1, 2, 9] = overwrite 0 (take (unat (2 :: usize)) [1, 2]) [9, 9, (9 :: u8)]"
proof -
  have "write_all slow_kernel (7, False) [1, 2] 0 [9, 9, 9] = Some ([1, 2, 9], Inr (Inr 2))"
    using slow_write by (simp add: write_all_def)
  from this write_all_content[OF this slow_kernel_ok] show ?thesis by simp
qed

end
