(* ===== verification/Stage2.thy ===== *)
theory Stage2
  imports Stage1_Guest Stage2_Proc
begin

text \<open>
  Stage 2 (\<^verbatim>\<open>stage2/src\<close>): finding the console and the block device of vmsh, the mount namespace with the image of vmsh as
  its root, joining the namespaces of a process, giving up privileges, and running the command. The
  system calls are the record \<open>s2sys\<close>. Descriptors that stay open until the program ends are not closed in the model.
\<close>

section \<open>System calls\<close>

record file_stat =
  fs_is_dir :: bool
  fs_is_file :: bool
  fs_uid :: u32
  fs_gid :: u32

record 'w s2sys =
  sy_os :: "'w s2os"
  sy_read_dir :: "string \<Rightarrow> ('w, string res list) io"
  sy_read_link :: "string \<Rightarrow> ('w, string) io"
  sy_metadata :: "string \<Rightarrow> ('w, io_kind + file_stat) io"
  sy_exists :: "string \<Rightarrow> ('w, bool) io"
  sy_create_dir_all :: "string \<Rightarrow> ('w, io_kind + unit) io"
  sy_remove_file :: "string \<Rightarrow> ('w, io_kind + unit) io"
  sy_remove_dir :: "string \<Rightarrow> ('w, unit) io"
  sy_remove_dir_all :: "string \<Rightarrow> ('w, unit) io"
  sy_mount :: "string option \<Rightarrow> string \<Rightarrow> string option \<Rightarrow> u64 \<Rightarrow> string option \<Rightarrow> ('w, u32 + unit) io"
  sy_statfs :: "string \<Rightarrow> ('w, u64) io"
  sy_open :: "string \<Rightarrow> ('w, u32 + raw_fd) io"
  sy_open_dir :: "string \<Rightarrow> ('w, raw_fd) io"
  sy_mknodat :: "raw_fd \<Rightarrow> string \<Rightarrow> u64 \<Rightarrow> ('w, unit) io"
  sy_unlinkat :: "raw_fd \<Rightarrow> string \<Rightarrow> ('w, unit) io"
  sy_fcntl_getfl :: "raw_fd \<Rightarrow> ('w, u32) io"
  sy_fcntl_setfl :: "raw_fd \<Rightarrow> u32 \<Rightarrow> ('w, unit) io"
  sy_klines :: "raw_fd \<Rightarrow> ('w, (io_kind + string) list) io"
  sy_dup2 :: "raw_fd \<Rightarrow> raw_fd \<Rightarrow> ('w, unit) io"
  sy_setns :: "raw_fd \<Rightarrow> ('w, unit) io"
  sy_unshare_mount :: "('w, unit) io"
  sy_setgroups_empty :: "('w, unit) io"
  sy_setgid :: "u32 \<Rightarrow> ('w, unit) io"
  sy_setuid :: "u32 \<Rightarrow> ('w, unit) io"
  sy_chdir :: "string \<Rightarrow> ('w, unit) io"
  sy_chroot :: "string \<Rightarrow> ('w, unit) io"
  sy_set_permissions :: "string \<Rightarrow> u32 \<Rightarrow> ('w, unit) io"
  sy_temp_dir :: string
  sy_mkdtemp :: "string \<Rightarrow> ('w, string) io"
  sy_getpid :: pid
  sy_fork_wait :: "('w, u32) io \<Rightarrow> ('w, wait_status) io"
  sy_spawn :: "string \<Rightarrow> string list \<Rightarrow> environment \<Rightarrow> ('w, nat) io"
  sy_wait :: "nat \<Rightarrow> ('w, unit) io"
  sy_makedev :: "u32 \<Rightarrow> u32 \<Rightarrow> u64"

definition ENODEV :: u32 where "ENODEV = 19"
definition EINVAL :: u32 where "EINVAL = 22"
definition O_NONBLOCK :: u32 where "O_NONBLOCK = 2048"
definition MS_BIND :: u64 where "MS_BIND = 4096"
definition MS_MOVE :: u64 where "MS_MOVE = 8192"
definition MS_REC :: u64 where "MS_REC = 16384"
definition MS_PRIVATE :: u64 where "MS_PRIVATE = 262144"

text \<open>A failed call with its error in the message.\<close>

definition ok_or :: "('w, 'e + 'a) io \<Rightarrow> string \<Rightarrow> ('w, 'a) io" where
  "ok_or m msg = bind_io m (\<lambda>r. case r of Inl _ \<Rightarrow> lift_res (bail msg) | Inr x \<Rightarrow> ret x)"

definition to_str :: "string \<Rightarrow> string option" where
  "to_str name = from_utf8 (ascii_bytes name)"

definition mkdir_p :: "'w s2sys \<Rightarrow> string \<Rightarrow> ('w, io_kind + unit) io" where
  "mkdir_p sy path =
     bind_io (sy_create_dir_all sy path) (\<lambda>r. ret (if r = Inl AlreadyExists then Inr () else r))"

section \<open>The console\<close>

text \<open>\<^verbatim>\<open>BinaryHeap::push\<close>: the new element moves up while it is greater than its parent.\<close>

definition heap_parent :: "nat \<Rightarrow> nat" where
  "heap_parent pos = (pos - 1) div 2"

lemma heap_parent_less: "0 < pos \<Longrightarrow> heap_parent pos < pos"
  unfolding heap_parent_def by linarith

function sift_up :: "nat list \<Rightarrow> nat \<Rightarrow> nat list" where
  "sift_up h pos =
     (if pos = 0 then h
      else let parent = heap_parent pos in
        if h ! pos \<le> h ! parent then h
        else sift_up (h[pos := h ! parent, parent := h ! pos]) parent)"
  by pat_completeness auto
termination by (relation "measure snd") (auto simp: heap_parent_less)

declare sift_up.simps [simp del]

definition heap_push :: "nat \<Rightarrow> nat list \<Rightarrow> nat list" where
  "heap_push x h = sift_up (h @ [x]) (length h)"

definition console_number :: "string \<Rightarrow> nat option" where
  "console_number name =
     (case to_str name of
        None \<Rightarrow> None
      | Some s \<Rightarrow> (case strip_prefix ''hvc'' s of None \<Rightarrow> None | Some n \<Rightarrow> parse_unsigned (2 ^ 64) 10 n))"

fun collect_consoles :: "string res list \<Rightarrow> nat list \<Rightarrow> nat list res" where
  "collect_consoles [] h = Inr h"
| "collect_consoles (entry # es) h =
     bind_res (try_with entry ''failed to read /dev'') (\<lambda>name.
     collect_consoles es (case console_number name of None \<Rightarrow> h | Some n \<Rightarrow> heap_push n h))"

definition hvc_path :: "nat \<Rightarrow> string" where
  "hvc_path n = ''/dev/hvc'' @ to_radix 10 n"

fun open_consoles :: "'w s2sys \<Rightarrow> nat list \<Rightarrow> ('w, raw_fd) io" where
  "open_consoles sy [] = lift_res (bail ''cannot find vmsh console device in /dev'')"
| "open_consoles sy (n # ns) =
     bind_io (sy_open sy (hvc_path n)) (\<lambda>r.
     case r of
       Inr fd \<Rightarrow> ret fd
     | Inl e \<Rightarrow> if e = ENODEV then open_consoles sy ns else lift_res (bail ''failed to open''))"

definition find_vmsh_consoles :: "'w s2sys \<Rightarrow> ('w, raw_fd) io" where
  "find_vmsh_consoles sy =
     bind_io (try_io (sy_read_dir sy ''/dev/'') ''failed to open directory /dev'') (\<lambda>entries.
     bind_io (lift_res (collect_consoles entries [])) (\<lambda>heap. open_consoles sy heap))"

definition console_setup :: "'w s2sys \<Rightarrow> ('w, unit) io" where
  "console_setup sy =
     bind_io (find_vmsh_consoles sy) (\<lambda>fd.
     with_drop
       (bind_io (try_io (sy_dup2 sy fd 0) ''cannot replace stdin with monitor connection'') (\<lambda>_.
        bind_io (try_io (sy_dup2 sy fd 1) ''cannot replace stdout with monitor connection'') (\<lambda>_.
        try_io (sy_dup2 sy fd 2) ''cannot replace stderr with monitor connection'')))
       (so_close (sy_os sy) fd))"

section \<open>The block device\<close>

definition parse_dev :: "'w s2sys \<Rightarrow> string \<Rightarrow> u64 res" where
  "parse_dev sy major_minor =
     (let splits = splitn 2 (CHR '':'') (trim_end major_minor) in
      if length splits \<noteq> 2 then bail ''could not parse major/minor number''
      else
        bind_res (try_with (require_with (parse_u32 10 (splits ! 0)) ''invalid digit'') ''could not parse major number'') (\<lambda>major.
        bind_res (try_with (require_with (parse_u32 10 (splits ! 1)) ''invalid digit'') ''could not parse minor number'') (\<lambda>minor.
        Inr (sy_makedev sy major minor))))"

text \<open>\<^verbatim>\<open>fs::read_to_string\<close>\<close>

definition fs_read :: "'w s2sys \<Rightarrow> string \<Rightarrow> ('w, string) io" where
  "fs_read sy path = with_open (sy_os sy) path ''open'' (so_read_to_string (sy_os sy))"

fun find_serial :: "'w s2sys \<Rightarrow> string res list \<Rightarrow> ('w, u64) io" where
  "find_serial sy [] = lift_res (bail ''no vmsh block device found'')"
| "find_serial sy (entry # es) =
     bind_io (lift_res (try_with entry ''error while reading /proc'')) (\<lambda>name.
     bind_io (attempt (fs_read sy (join_path (join_path ''/sys/block'' name) ''serial''))) (\<lambda>s.
     if s = Inr ''vmsh0'' then
       bind_io (try_io (fs_read sy (join_path (join_path ''/sys/block'' name) ''dev'')) ''cannot read device number'') (\<lambda>major_minor.
       lift_res (parse_dev sy major_minor))
     else find_serial sy es))"

definition find_vmsh_blockdev :: "'w s2sys \<Rightarrow> ('w, u64) io" where
  "find_vmsh_blockdev sy =
     bind_io (try_io (sy_read_dir sy ''/sys/block'') ''failed to read /sys/block directory'') (\<lambda>dir. find_serial sy dir)"

definition device_file_new :: "'w s2sys \<Rightarrow> string \<Rightarrow> u64 \<Rightarrow> ('w, raw_fd \<times> string) io" where
  "device_file_new sy tempdir dev_type =
     bind_io (try_io (sy_open_dir sy tempdir) ''cannot open as directory'') (\<lambda>dir.
     bind_io
       (on_err (try_io (sy_mknodat sy dir ''vmsh-blk'' dev_type) ''cannot create device file'') (so_close (sy_os sy) dir)) (\<lambda>_.
     ret (dir, join_path tempdir ''vmsh-blk'')))"

definition device_file_drop :: "'w s2sys \<Rightarrow> raw_fd \<times> string \<Rightarrow> ('w, unit) io" where
  "device_file_drop sy d =
     bind_io (ignore_io (sy_unlinkat sy (fst d) ''vmsh-blk'')) (\<lambda>_. so_close (sy_os sy) (fst d))"

definition filesystem_line :: "string res \<Rightarrow> string option" where
  "filesystem_line line =
     (case line of
        Inl _ \<Rightarrow> None
      | Inr l \<Rightarrow> if strip_prefix ''nodev'' l = None then Some (trim l) else None)"

definition get_filesystems :: "'w s2sys \<Rightarrow> ('w, string list) io" where
  "get_filesystems sy =
     with_open (sy_os sy) (join_path (get_path (sy_os sy)) ''filesystems'') ''could not open'' (\<lambda>fd.
     bind_io (so_lines (sy_os sy) fd) (\<lambda>lines. ret (List.map_filter filesystem_line lines)))"

definition set_blocking :: "'w s2sys \<Rightarrow> raw_fd \<Rightarrow> bool \<Rightarrow> ('w, unit) io" where
  "set_blocking sy fd blocking =
     bind_io (try_io (sy_fcntl_getfl sy fd) ''fnctl(F_GETFL) failed'') (\<lambda>flags.
     try_io (sy_fcntl_setfl sy fd (if blocking then flags AND NOT O_NONBLOCK else flags OR O_NONBLOCK)) ''fcntl(F_SETFL) failed'')"

text \<open>What is printed is not modelled, but that the first three bytes of a line are cut off.\<close>

fun dmesg_lines :: "(io_kind + string) list \<Rightarrow> unit res" where
  "dmesg_lines [] = Inr ()"
| "dmesg_lines (line # lines) =
     (case line of
        Inr l \<Rightarrow> bind_res (slice_from l 3) (\<lambda>_. dmesg_lines lines)
      | Inl WouldBlock \<Rightarrow> Inr ()
      | Inl _ \<Rightarrow> bail ''error reading'')"

definition dump_dmesg :: "'w s2sys \<Rightarrow> ('w, unit) io" where
  "dump_dmesg sy =
     with_open (sy_os sy) (join_path (get_path (sy_os sy)) ''kmsg'') ''could not open'' (\<lambda>fd.
     bind_io (set_blocking sy fd False) (\<lambda>_.
     bind_io (sy_klines sy fd) (\<lambda>lines. lift_res (dmesg_lines lines))))"

fun try_mounts :: "'w s2sys \<Rightarrow> string \<Rightarrow> string \<Rightarrow> string option \<Rightarrow> string list \<Rightarrow> ('w, unit) io" where
  "try_mounts sy dev mountpoint context [] = lift_res (bail ''could not mount image'')"
| "try_mounts sy dev mountpoint context (fs # fss) =
     bind_io (sy_mount sy (Some dev) mountpoint (Some fs) 0 (map_option (\<lambda>c. CONTEXT @ c @ [CHR 0x22]) context)) (\<lambda>res.
     case res of
       Inr _ \<Rightarrow> ret ()
     | Inl e \<Rightarrow>
         if e = EINVAL then try_mounts sy dev mountpoint context fss
         else bind_io (ignore_io (dump_dmesg sy)) (\<lambda>_. lift_res (bail ''mount failed'')))"

definition block_mount :: "'w s2sys \<Rightarrow> u64 \<Rightarrow> string \<Rightarrow> string option \<Rightarrow> ('w, unit) io" where
  "block_mount sy dev_type mountpoint context =
     bind_io (try_io (device_file_new sy mountpoint dev_type) ''cannot create block device file'') (\<lambda>dev_file.
     with_drop
       (bind_io (try_io (get_filesystems sy) ''could not read supported filesystems'') (\<lambda>filesystems.
        try_mounts sy (snd dev_file) mountpoint context filesystems))
       (device_file_drop sy dev_file))"

section \<open>Namespaces\<close>

fun collect_names :: "string res list \<Rightarrow> string list res" where
  "collect_names [] = Inr []"
| "collect_names (entry # es) =
     bind_res (try_with entry ''failed to read directory /proc/self/ns'') (\<lambda>name.
     bind_res (collect_names es) (\<lambda>names.
     Inr (case to_str name of None \<Rightarrow> names | Some s \<Rightarrow> s # names)))"

definition supported_namespaces :: "'w s2sys \<Rightarrow> ('w, string set) io" where
  "supported_namespaces sy =
     bind_io (try_io (sy_read_dir sy ''/proc/self/ns'') ''failed to open directory /proc/self/ns'') (\<lambda>entries.
     bind_io (lift_res (collect_names entries)) (\<lambda>names. ret (set names)))"

definition ns_path :: "string \<Rightarrow> pid \<Rightarrow> string" where
  "ns_path kind p = join_path (join_path (join_path ''/proc'' (fmt_i32 p)) ''ns'') kind"

definition ns_own_path :: "string \<Rightarrow> string" where
  "ns_own_path kind = join_path ''/proc/self/ns'' kind"

definition ns_open :: "'w s2sys \<Rightarrow> string \<Rightarrow> pid \<Rightarrow> ('w, raw_fd) io" where
  "ns_open sy kind p = open_with (sy_os sy) (ns_path kind p) OpenRead ''failed to open namespace file''"

definition ns_is_same :: "'w s2sys \<Rightarrow> string \<Rightarrow> pid \<Rightarrow> ('w, bool) io" where
  "ns_is_same sy kind p =
     bind_io (attempt (sy_read_link sy (ns_path kind p))) (\<lambda>r.
     case r of
       Inl _ \<Rightarrow> ret False
     | Inr dest \<Rightarrow>
         bind_io (attempt (sy_read_link sy (ns_own_path kind))) (\<lambda>r2.
         ret (case r2 of Inl _ \<Rightarrow> False | Inr dest2 \<Rightarrow> dest = dest2)))"

definition ns_apply :: "'w s2sys \<Rightarrow> raw_fd \<Rightarrow> ('w, unit) io" where
  "ns_apply sy fd = try_io (sy_setns sy fd) ''setns''"

section \<open>Temporary directories\<close>

fun try_tempdirs :: "'w s2sys \<Rightarrow> string list \<Rightarrow> ('w, string) io" where
  "try_tempdirs sy [] = lift_res (panic ''called unwrap on a None value'')"
| "try_tempdirs sy [t] = sy_mkdtemp sy (join_path t ''vmsh.XXXXXX'')"
| "try_tempdirs sy (t # t' # ts) =
     bind_io (attempt (sy_mkdtemp sy (join_path t ''vmsh.XXXXXX''))) (\<lambda>r.
     case r of Inr d \<Rightarrow> ret d | Inl _ \<Rightarrow> try_tempdirs sy (t' # ts))"

definition tempdir :: "'w s2sys \<Rightarrow> ('w, string) io" where
  "tempdir sy = try_tempdirs sy [sy_temp_dir sy, ''/dev/shm'', ''/tmp'', ''/dev'']"

definition tempdir_drop :: "'w s2sys \<Rightarrow> string \<Rightarrow> ('w, unit) io" where
  "tempdir_drop sy d = ignore_io (sy_remove_dir_all sy d)"

section \<open>The mount namespace\<close>

record mount_namespace =
  mn_new_namespace :: raw_fd
  mn_old_namespace :: raw_fd
  mn_mountpoint :: string
  mn_temp_mountpoint :: string

definition MOUNTS :: "string list" where
  "MOUNTS = [''etc/passwd'', ''etc/group'', ''etc/resolv.conf'', ''etc/hosts'', ''etc/hostname'', ''etc/localtime'',
     ''etc/zoneinfo'', ''dev'', ''sys'', ''proc'']"

definition VMSH_MOUNT_POINT :: string where "VMSH_MOUNT_POINT = ''var/lib/vmsh''"

definition mount_namespace_new :: "'w s2sys \<Rightarrow> raw_fd \<Rightarrow> ('w, mount_namespace) io" where
  "mount_namespace_new sy old_namespace =
     bind_io (ok_or (mkdir_p sy ''/tmp'') ''failed to create /tmp'') (\<lambda>_.
     bind_io (try_io (tempdir sy) ''failed to create temporary mountpoint'') (\<lambda>mountpoint.
     on_err
       (bind_io (try_io (sy_set_permissions sy mountpoint 0x1ED) ''cannot change permissions'') (\<lambda>_.
        bind_io (try_io (tempdir sy) ''failed to create temporary mountpoint'') (\<lambda>temp_mountpoint.
        on_err
          (bind_io (try_io (sy_set_permissions sy temp_mountpoint 0x1ED) ''cannot change permissions'') (\<lambda>_.
           bind_io (try_io (sy_unshare_mount sy) ''failed to create mount namespace'') (\<lambda>_.
           bind_io (try_io (ns_open sy ''mnt'' (sy_getpid sy)) ''cannot open new mount namespace'') (\<lambda>new_namespace.
           ret \<lparr>mn_new_namespace = new_namespace, mn_old_namespace = old_namespace, mn_mountpoint = mountpoint,
                mn_temp_mountpoint = temp_mountpoint\<rparr>))))
          (tempdir_drop sy temp_mountpoint))))
       (tempdir_drop sy mountpoint)))"

definition mn_child_cleanup :: "'w s2sys \<Rightarrow> mount_namespace \<Rightarrow> ('w, unit) io" where
  "mn_child_cleanup sy mn =
     bind_io (try_io (ns_apply sy (mn_old_namespace mn)) ''failed to switch back to old mount namespace'') (\<lambda>_.
     bind_io (try_io (sy_remove_dir sy (mn_mountpoint mn)) ''failed to cleanup mountpoint'') (\<lambda>_.
     bind_io (try_io (sy_remove_dir sy (mn_temp_mountpoint mn)) ''failed to cleanup mountpoint'') (\<lambda>_.
     try_io (ns_apply sy (mn_new_namespace mn)) ''cannot switch back to new mount namespace'')))"

definition mn_cleanup :: "'w s2sys \<Rightarrow> mount_namespace \<Rightarrow> ('w, unit) io" where
  "mn_cleanup sy mn =
     bind_io
       (try_io
          (sy_fork_wait sy (bind_io (attempt (mn_child_cleanup sy mn)) (\<lambda>r. ret (if is_ok r then 0 else 1))))
          ''could not wait for child'') (\<lambda>st.
     case st of
       Exited _ c \<Rightarrow> if c = 0 then ret () else lift_res (bail ''cannot cleanup mountpoints'')
     | _ \<Rightarrow> lift_res (bail ''cannot cleanup mountpoints''))"

definition mn_drop :: "'w s2sys \<Rightarrow> mount_namespace \<Rightarrow> ('w, unit) io" where
  "mn_drop sy mn = ignore_io (mn_cleanup sy mn)"

definition parent_path :: "string \<Rightarrow> string" where
  "parent_path p = (let q = rev (tl (dropWhile (\<lambda>c. c \<noteq> CHR ''/'') (rev p))) in if q = [] then ''/'' else q)"

text \<open>The preparation of a mount point: \<open>False\<close> if it cannot be created.\<close>

definition make_mountpoint :: "'w s2sys \<Rightarrow> bool \<Rightarrow> string \<Rightarrow> ('w, bool) io" where
  "make_mountpoint sy is_dir mountpoint =
     bind_io (sy_exists sy mountpoint) (\<lambda>there.
     if there then ret True
     else if is_dir then bind_io (mkdir_p sy mountpoint) (\<lambda>r. ret (r = Inr ()))
     else
       bind_io (mkdir_p sy (parent_path mountpoint)) (\<lambda>r.
       if r \<noteq> Inr () then ret False
       else
         bind_io (so_open (sy_os sy) mountpoint OpenCreate) (\<lambda>f.
         case f of
           Inl _ \<Rightarrow> ret False
         | Inr fd \<Rightarrow> bind_io (so_close (sy_os sy) fd) (\<lambda>_. ret True))))"

definition bindmount :: "'w s2sys \<Rightarrow> string \<Rightarrow> ('w, unit) io" where
  "bindmount sy m =
     (let mountpoint = join_path ''/'' m; source = join_path ''/var/lib/vmsh'' m in
      bind_io (sy_metadata sy source) (\<lambda>r.
      case r of
        Inl NotFound \<Rightarrow> ret ()
      | Inl _ \<Rightarrow> lift_res (bail ''failed to get metadata of path'')
      | Inr source_stat \<Rightarrow>
          bind_io (make_mountpoint sy (fs_is_dir source_stat) mountpoint) (\<lambda>made.
          if \<not> made then ret ()
          else
            bind_io (ok_or (sy_metadata sy mountpoint) ''failed to get metadata of path'') (\<lambda>mountpoint_stat.
            if fs_is_file source_stat \<and> \<not> fs_is_dir mountpoint_stat \<or> fs_is_dir source_stat \<and> fs_is_dir mountpoint_stat
            then bind_io (sy_mount sy (Some source) mountpoint None (MS_REC OR MS_BIND) None) (\<lambda>_. ret ())
            else ret ()))))"

definition setup_bindmounts :: "'w s2sys \<Rightarrow> string list \<Rightarrow> ('w, unit) io" where
  "setup_bindmounts sy mounts = for_io mounts (bindmount sy)"

definition mount_or :: "'w s2sys \<Rightarrow> string \<Rightarrow> string \<Rightarrow> u64 \<Rightarrow> string \<Rightarrow> ('w, unit) io" where
  "mount_or sy source target flags msg = ok_or (sy_mount sy (Some source) target None flags None) msg"

definition mount_setup :: "'w s2sys \<Rightarrow> u64 \<Rightarrow> raw_fd \<Rightarrow> string option \<Rightarrow> ('w, mount_namespace) io" where
  "mount_setup sy device container_namespace label =
     bind_io (mount_namespace_new sy container_namespace) (\<lambda>ns.
     on_err
       (bind_io (mount_or sy ''none'' ''/'' (MS_REC OR MS_PRIVATE) ''unable to mark mounts as private'') (\<lambda>_.
        bind_io (mount_or sy ''/'' (mn_temp_mountpoint ns) (MS_REC OR MS_BIND) ''unable to move mounts to temporary mountpoint'') (\<lambda>_.
        bind_io (block_mount sy device (mn_mountpoint ns) label) (\<lambda>_.
        let vmsh_mount_point = join_path (mn_mountpoint ns) VMSH_MOUNT_POINT in
        bind_io (ok_or (mkdir_p sy vmsh_mount_point) ''cannot create container mountpoint'') (\<lambda>_.
        bind_io (mount_or sy (mn_temp_mountpoint ns) vmsh_mount_point (MS_REC OR MS_MOVE) ''unable to move mounts to new mountpoint'') (\<lambda>_.
        bind_io (try_io (sy_chdir sy (mn_mountpoint ns)) ''failed to chdir to new mountpoint'') (\<lambda>_.
        bind_io (try_io (sy_chroot sy (mn_mountpoint ns)) ''failed to chroot to new mountpoint'') (\<lambda>_.
        bind_io (for_io [''/dev'', ''/sys'', ''/proc''] (\<lambda>p. ok_or (mkdir_p sy p) ''cannot create directory'')) (\<lambda>_.
        bind_io (try_io (setup_bindmounts sy MOUNTS) ''failed to setup bind mounts'') (\<lambda>_.
        ret ns))))))))))
       (mn_drop sy ns))"

section \<open>The program\<close>

record options =
  op_target_pid :: pid
  op_command :: "string option"
  op_args :: "string list"
  op_home :: "string option"

definition cleanup_vmsh_exe :: "'w s2sys \<Rightarrow> ('w, unit) io" where
  "cleanup_vmsh_exe sy =
     bind_io (sy_remove_file sy ''/proc/self/exe'') (\<lambda>r.
     if r \<noteq> Inr () \<and> r \<noteq> Inl NotFound then ret ()
     else
       bind_io (sy_remove_file sy ''/dev/.vmsh'') (\<lambda>r.
       if r \<noteq> Inr () \<and> r \<noteq> Inl NotFound then ret ()
       else bind_io (sy_remove_file sy ''/.vmsh'') (\<lambda>_. ret ())))"

definition PROC_SUPER_MAGIC :: u64 where "PROC_SUPER_MAGIC = 0x9FA0"
definition SYSFS_MAGIC :: u64 where "SYSFS_MAGIC = 0x62656572"

definition mount_fs :: "'w s2sys \<Rightarrow> string \<Rightarrow> string \<Rightarrow> string \<Rightarrow> ('w, unit) io" where
  "mount_fs sy path fs msg = ok_or (sy_mount sy (Some path) path (Some fs) 0 None) msg"

definition ensure_procfs :: "'w s2sys \<Rightarrow> ('w, unit) io" where
  "ensure_procfs sy =
     bind_io (ok_or (mkdir_p sy ''/proc'') ''cannot create /proc'') (\<lambda>_.
     bind_io (try_io (sy_statfs sy ''/proc'') ''cannot stat /proc'') (\<lambda>fs.
     if fs \<noteq> PROC_SUPER_MAGIC then mount_fs sy ''/proc'' ''proc'' ''failed to mount procfs'' else ret ()))"

definition ensure_sysfs :: "'w s2sys \<Rightarrow> ('w, unit) io" where
  "ensure_sysfs sy =
     bind_io (ok_or (mkdir_p sy ''/sys'') ''cannot create /sys'') (\<lambda>_.
     bind_io (try_io (sy_statfs sy ''/sys'') ''cannot stat /sys'') (\<lambda>fs.
     if fs \<noteq> SYSFS_MAGIC then mount_fs sy ''/sys'' ''sysfs'' ''failed to mount sysfs'' else ret ()))"

definition ensure_devtmpfs :: "'w s2sys \<Rightarrow> ('w, unit) io" where
  "ensure_devtmpfs sy =
     bind_io (ok_or (mkdir_p sy ''/dev'') ''cannot create /dev'') (\<lambda>_.
     bind_io (sy_exists sy ''/dev/null'') (\<lambda>there.
     if \<not> there then mount_fs sy ''/dev'' ''devtmpfs'' ''failed to mount devtmpfs'' else ret ()))"

definition OTHER_KINDS :: "string list" where
  "OTHER_KINDS = [''uts'', ''cgroup'', ''pid'', ''net'', ''ipc'', ''user'']"

fun open_namespaces :: "'w s2sys \<Rightarrow> pid \<Rightarrow> string set \<Rightarrow> string list \<Rightarrow> ('w, raw_fd list) io" where
  "open_namespaces sy p supported [] = ret []"
| "open_namespaces sy p supported (kind # kinds) =
     (if kind \<notin> supported then open_namespaces sy p supported kinds
      else
        bind_io (ns_is_same sy kind p) (\<lambda>same.
        if same then open_namespaces sy p supported kinds
        else
          bind_io (try_io (ns_open sy kind p) ''failed to open namespace'') (\<lambda>fd.
          bind_io (open_namespaces sy p supported kinds) (\<lambda>fds. ret (fd # fds)))))"

definition cmd_spawn :: "'w s2sys \<Rightarrow> cmd \<Rightarrow> ('w, nat) io" where
  "cmd_spawn sy c = try_io (sy_spawn sy (cm_command c) (cm_arguments c) (spawn_env (sy_os sy) c)) ''failed to spawn''"

definition drop_groups :: "'w s2sys \<Rightarrow> ('w, bool) io" where
  "drop_groups sy = bind_io (attempt (sy_setgroups_empty sy)) (\<lambda>r. ret (is_ok r))"

definition set_ids :: "'w s2sys \<Rightarrow> bool \<Rightarrow> u32 \<Rightarrow> u32 \<Rightarrow> ('w, unit) io" where
  "set_ids sy dropped_groups uid gid =
     bind_io (attempt (sy_setgroups_empty sy)) (\<lambda>r.
     if \<not> is_ok r \<and> \<not> dropped_groups then lift_res (bail ''could not set groups'')
     else
       bind_io (try_io (sy_setgid sy gid) ''could not set group id'') (\<lambda>_.
       try_io (sy_setuid sy uid) ''could not set user id''))"

text \<open>What follows when the mount namespace has been set up: the rest of the privileges is given up, then the command runs.\<close>

definition run_command ::
  "'w s2sys \<Rightarrow> options \<Rightarrow> string set \<Rightarrow> raw_fd list \<Rightarrow> u32 \<Rightarrow> u32 \<Rightarrow> proc_status \<Rightarrow> lsm_profile option \<Rightarrow> ('w, nat) io" where
  "run_command sy opts supported others uid gid st profile =
     bind_io (if ''user'' \<in> supported then drop_groups sy else ret False) (\<lambda>dropped_groups.
     bind_io (for_io others (\<lambda>ns. try_io (ns_apply sy ns) ''failed to apply namespace'')) (\<lambda>_.
     bind_io (if ''user'' \<in> supported then set_ids sy dropped_groups uid gid else ret ()) (\<lambda>_.
     bind_io (try_io (drop_caps (sy_os sy) (ps_effective_capabilities st)) ''failed to apply capabilities'') (\<lambda>_.
     bind_io
       (case profile of
          None \<Rightarrow> ret ()
        | Some p \<Rightarrow> try_io (inherit_profile (sy_os sy) p) ''failed to inherit lsm profile'') (\<lambda>_.
     bind_io (cmd_new (sy_os sy) (op_command opts) (op_args opts) (op_target_pid opts) (op_home opts)) (\<lambda>cmd.
     cmd_spawn sy cmd))))))"

definition run_s2 :: "'w s2sys \<Rightarrow> options \<Rightarrow> ('w, unit) io" where
  "run_s2 sy opts =
     (let target = op_target_pid opts; os = sy_os sy in
      bind_io (try_io (console_setup sy) ''failed to setup console'') (\<lambda>_.
      bind_io (cleanup_vmsh_exe sy) (\<lambda>_.
      bind_io (try_io (ensure_procfs sy) ''cannot set up /proc'') (\<lambda>_.
      bind_io (try_io (ensure_sysfs sy) ''cannot set up /sys'') (\<lambda>_.
      bind_io (try_io (ensure_devtmpfs sy) ''cannot set up /dev'') (\<lambda>_.
      bind_io (try_io (find_vmsh_blockdev sy) ''cannot find block_device'') (\<lambda>dev.
      bind_io (try_io (new_from_pid os target) ''failed to read usernamespace properties'') (\<lambda>(uid_map, gid_map).
      bind_io (try_io (status os target) ''failed to get status of target process'') (\<lambda>st.
      bind_io (ok_or (sy_metadata sy (join_path (get_path os) (fmt_i32 target))) ''failed to container uid/gid'') (\<lambda>metadata.
      bind_io (try_io (read_profile os target) ''failed to get lsm profile'') (\<lambda>profile.
      bind_io
        (case profile of
           None \<Rightarrow> ret None
         | Some p \<Rightarrow> try_io (mount_label os p target) ''failed to read mount options'') (\<lambda>label.
      bind_io (try_io (supported_namespaces sy) ''failed to list namespaces'') (\<lambda>supported.
      if ''mnt'' \<notin> supported then lift_res (bail ''the system has no support for mount namespaces'')
      else
        bind_io (try_io (ns_open sy ''mnt'' target) ''could not access mount namespace'') (\<lambda>mount_ns.
        bind_io (open_namespaces sy target supported OTHER_KINDS) (\<lambda>others.
        bind_io (try_io (ns_apply sy mount_ns) ''failed to apply mount namespace'') (\<lambda>_.
        bind_io (mount_setup sy dev mount_ns label) (\<lambda>mn.
        bind_io
          (with_drop
             (run_command sy opts supported others (map_id_up uid_map (fs_uid metadata)) (map_id_up gid_map (fs_gid metadata)) st profile)
             (mn_drop sy mn)) (\<lambda>child.
        try_io (sy_wait sy child) ''failed to wait for child process''))))))))))))))))))"

definition main_options :: "string list \<Rightarrow> options res" where
  "main_options args =
     (let command = (if 2 < length args then Some (args ! 1) else None) in
      bind_res (slice_from args 2) (\<lambda>rest.
      Inr \<lparr>op_target_pid = 1, op_command = command, op_args = rest, op_home = None\<rparr>))"

definition kmsg_log :: "'w s2sys \<Rightarrow> string \<Rightarrow> ('w, unit) io" where
  "kmsg_log sy msg =
     bind_io (so_open (sy_os sy) ''/dev/kmsg'' OpenWrite) (\<lambda>r.
     case r of
       Inl _ \<Rightarrow> ret ()
     | Inr fd \<Rightarrow> with_drop (ignore_io (so_write_all (sy_os sy) fd msg)) (so_close (sy_os sy) fd))"

text \<open>The exit code.\<close>

definition main :: "'w s2sys \<Rightarrow> string list \<Rightarrow> ('w, u32) io" where
  "main sy args =
     bind_io (kmsg_log sy ''[stage2] start'') (\<lambda>_.
     bind_io (lift_res (main_options args)) (\<lambda>opts.
     bind_io (attempt (run_s2 sy opts)) (\<lambda>r.
     if is_ok r then ret 0 else bind_io (kmsg_log sy ''[stage2] error'') (\<lambda>_. ret 1))))"

section \<open>The console with the highest number\<close>

text \<open>What the search for the console needs of the queue: it holds what was pushed, and its front is the greatest element.\<close>

locale max_queue =
  fixes push :: "nat \<Rightarrow> 'q \<Rightarrow> 'q" and nil :: 'q and items :: "'q \<Rightarrow> nat list" and invar :: "'q \<Rightarrow> bool"
  assumes invar_nil: "invar nil" and items_nil: "items nil = []"
    and invar_push: "invar q \<Longrightarrow> invar (push x q)"
    and items_push: "mset (items (push x q)) = add_mset x (mset (items q))"
    and front: "invar q \<Longrightarrow> items q \<noteq> [] \<Longrightarrow> hd (items q) = Max (set (items q))"
begin

lemma invar_fold: "invar q \<Longrightarrow> invar (fold push xs q)"
  by (induction xs arbitrary: q) (auto simp: invar_push)

lemma items_fold: "mset (items (fold push xs q)) = mset xs + mset (items q)"
  by (induction xs arbitrary: q) (simp_all add: items_push)

lemma front_fold:
  assumes "xs \<noteq> []"
  shows "\<exists>ys. items (fold push xs nil) = Max (set xs) # ys"
proof -
  have m: "mset (items (fold push xs nil)) = mset xs" using items_fold[of xs nil] by (simp add: items_nil)
  then have s: "set (items (fold push xs nil)) = set xs" by (rule mset_eq_setD)
  with assms have "items (fold push xs nil) \<noteq> []" by auto
  from front[OF invar_fold[OF invar_nil] this] s this show ?thesis by (cases "items (fold push xs nil)") auto
qed

end

definition heap_up_to :: "nat \<Rightarrow> nat list \<Rightarrow> bool" where
  "heap_up_to pos h \<longleftrightarrow>
     (\<forall>i < length h. 0 < i \<longrightarrow> i \<noteq> pos \<longrightarrow> h ! i \<le> h ! heap_parent i) \<and>
     (\<forall>i < length h. 0 < i \<longrightarrow> 0 < pos \<longrightarrow> heap_parent i = pos \<longrightarrow> h ! i \<le> h ! heap_parent pos)"

definition is_heap :: "nat list \<Rightarrow> bool" where
  "is_heap h \<longleftrightarrow> (\<forall>i < length h. 0 < i \<longrightarrow> h ! i \<le> h ! heap_parent i)"

lemma mset_sift_up: "pos < length h \<Longrightarrow> mset (sift_up h pos) = mset h"
proof (induction h pos rule: sift_up.induct)
  case (1 h pos)
  then show ?case
    using heap_parent_less[of pos] by (subst sift_up.simps) (auto simp: Let_def mset_swap)
qed

lemma sift_up_heap: "pos < length h \<Longrightarrow> heap_up_to pos h \<Longrightarrow> is_heap (sift_up h pos)"
proof (induction h pos rule: sift_up.induct)
  case (1 h pos)
  let ?p = "heap_parent pos"
  show ?case
  proof (cases "pos = 0 \<or> h ! pos \<le> h ! ?p")
    case True
    then show ?thesis using 1(2,3) by (subst sift_up.simps) (auto simp: Let_def heap_up_to_def is_heap_def)
  next
    case False
    then have p: "0 < pos" "h ! ?p < h ! pos" "?p < pos" by (auto simp: heap_parent_less)
    let ?h = "h[pos := h ! ?p, ?p := h ! pos]"
    have "heap_up_to ?p ?h"
      unfolding heap_up_to_def
    proof (intro conjI allI impI)
      fix i assume i: "i < length ?h" "0 < i" "i \<noteq> ?p"
      let ?j = "heap_parent i"
      have le: "i \<noteq> pos \<Longrightarrow> h ! i \<le> h ! ?j" "?j = pos \<Longrightarrow> h ! i \<le> h ! ?p"
        using 1(3) i p unfolding heap_up_to_def by auto
      consider "i = pos" | "i \<noteq> pos" "?j = pos" | "i \<noteq> pos" "?j = ?p" | "i \<noteq> pos" "?j \<noteq> pos" "?j \<noteq> ?p" by blast
      then show "?h ! i \<le> ?h ! ?j"
        using le i p 1(2) by cases (simp_all add: nth_list_update)
    next
      fix i assume i: "i < length ?h" "0 < i" "0 < ?p" "heap_parent i = ?p"
      have q: "h ! ?p \<le> h ! heap_parent ?p" "i \<noteq> pos \<Longrightarrow> h ! i \<le> h ! ?p"
        using 1(2,3) p i unfolding heap_up_to_def by auto
      have "heap_parent ?p < ?p" "i \<noteq> ?p" using heap_parent_less[OF i(3)] heap_parent_less[OF i(2)] i(4) by auto
      then show "?h ! i \<le> ?h ! heap_parent ?p"
        using 1(2) p i q by (cases "i = pos") (simp_all add: nth_list_update)
    qed
    then show ?thesis
      using 1(1)[OF _ refl] 1(2) p False by (subst sift_up.simps) (simp add: Let_def)
  qed
qed

lemma heap_front:
  assumes "is_heap h" "i < length h"
  shows "h ! i \<le> h ! 0"
  using assms(2)
proof (induction i rule: less_induct)
  case (less i)
  show ?case
  proof (cases "i = 0")
    case False
    then have "h ! i \<le> h ! heap_parent i" "h ! heap_parent i \<le> h ! 0"
      using assms(1) less heap_parent_less[of i] by (auto simp: is_heap_def)
    then show ?thesis by simp
  qed simp
qed

lemma heap_up_to_append:
  assumes "is_heap q"
  shows "heap_up_to (length q) (q @ [x])"
  unfolding heap_up_to_def
proof (intro conjI allI impI)
  fix i assume "i < length (q @ [x])" "0 < i" "i \<noteq> length q"
  then have "i < length q" "heap_parent i < length q" "q ! i \<le> q ! heap_parent i"
    using assms heap_parent_less[of i] by (auto simp: is_heap_def)
  then show "(q @ [x]) ! i \<le> (q @ [x]) ! heap_parent i" by (simp add: nth_append)
next
  fix i assume "i < length (q @ [x])" "0 < i" "heap_parent i = length q"
  then show "(q @ [x]) ! i \<le> (q @ [x]) ! heap_parent (length q)" using heap_parent_less[of i] by simp
qed

interpretation hq: max_queue heap_push "[]" id is_heap
proof unfold_locales
  show "mset (id (heap_push x q)) = add_mset x (mset (id q))" for x q
    by (simp add: heap_push_def mset_sift_up)
  show "is_heap (heap_push x q)" if "is_heap q" for x q
    unfolding heap_push_def by (rule sift_up_heap[OF _ heap_up_to_append[OF that]]) simp
  show "hd (id q) = Max (set (id q))" if "is_heap q" "id q \<noteq> []" for q
    using that heap_front[OF that(1)] by (intro Max_eqI[symmetric]) (auto simp: in_set_conv_nth hd_conv_nth)
qed (simp_all add: is_heap_def)

lemma collect_consoles_fold:
  "collect_consoles (map Inr names) h = Inr (fold heap_push (List.map_filter console_number names) h)"
  by (induction names arbitrary: h) (auto simp: map_filter_def split: option.split)

text \<open>
  C31: If the console with the highest number in \<^verbatim>\<open>/dev\<close> can be opened, it is the one that stage 2 uses: Linux numbers consoles in
  the order in which they appear, so it is the one of vmsh. No other console is opened.
\<close>

theorem highest_console_first:
  assumes "sy_read_dir sy ''/dev/'' w = Some (w1, Inr (map Inr names))" "numbers = List.map_filter console_number names"
    "numbers \<noteq> []" "sy_open sy (hvc_path (Max (set numbers))) w1 = Some (w2, Inr (Inr fd))"
  shows "find_vmsh_consoles sy w = Some (w2, Inr fd)"
proof -
  obtain ys where h: "fold heap_push numbers [] = Max (set numbers) # ys"
    using hq.front_fold[OF assms(3)] by auto
  have "open_consoles sy (Max (set numbers) # ys) w1 = Some (w2, Inr fd)" using assms(4) by (simp add: bind_io_def ret_def)
  then show ?thesis
    using assms(1) h assms(2) by (simp add: find_vmsh_consoles_def bind_io_def try_io_def lift_res_def collect_consoles_fold)
qed

section \<open>The privileges of the command\<close>

text \<open>
  The identity and the bounding set of the process, whether it has \<^verbatim>\<open>CAP_SETPCAP\<close>, and what each child started with. What the manual
  pages say about them: \<^verbatim>\<open>setuid\<close> from root to another user takes the capabilities away, \<^verbatim>\<open>prctl\<close> changes the bounding set of a
  process with the capability only, joining a namespace never takes a capability away, and a child inherits identity and set.
\<close>

record creds =
  cr_uid :: u32
  cr_gid :: u32
  cr_bset :: "nat set"
  cr_setpcap :: bool
  cr_children :: "(u32 \<times> u32 \<times> nat set) list"

abbreviation same :: "('w \<Rightarrow> 'k) \<Rightarrow> 'w \<Rightarrow> 'w \<Rightarrow> bool" where
  "same K w w' \<equiv> K w' = K w"

abbreviation carry :: "('w \<Rightarrow> creds) \<Rightarrow> 'w \<Rightarrow> 'w \<Rightarrow> bool" where
  "carry K w w' \<equiv> cr_children (K w') = cr_children (K w) \<and> (cr_setpcap (K w) \<longrightarrow> cr_setpcap (K w'))"

definition creds_ok :: "'w s2sys \<Rightarrow> ('w \<Rightarrow> creds) \<Rightarrow> bool" where
  "creds_ok sy K \<longleftrightarrow>
     (\<forall>u w w'. sy_setuid sy u w = Some (w', Inr ()) \<longrightarrow> 
        K w' = (K w)\<lparr>cr_uid := u, cr_setpcap := cr_setpcap (K w) \<and> (u = 0 \<or> cr_uid (K w) \<noteq> 0)\<rparr>) \<and>
     (\<forall>g w w'. sy_setgid sy g w = Some (w', Inr ()) \<longrightarrow> K w' = (K w)\<lparr>cr_gid := g\<rparr>) \<and>
     (\<forall>c w w' r. so_prctl (sy_os sy) PR_CAPBSET_DROP c w = Some (w', r) \<longrightarrow>
        \<not> panics r \<and> K w' = (if cr_setpcap (K w) then (K w)\<lparr>cr_bset := cr_bset (K w) - {unat c}\<rparr> else K w)) \<and>
     (\<forall>c as e w w' n. sy_spawn sy c as e w = Some (w', Inr n) \<longrightarrow>
        K w' = (K w)\<lparr>cr_children := (cr_uid (K w), cr_gid (K w), cr_bset (K w)) # cr_children (K w)\<rparr>) \<and>
     frames (same K) (sy_setgroups_empty sy) \<and> (\<forall>fd. frames (carry K) (sy_setns sy fd)) \<and>
     (\<forall>p m. frames (same K) (so_open (sy_os sy) p m)) \<and> (\<forall>fd. frames (same K) (so_close (sy_os sy) fd)) \<and>
     (\<forall>fd. frames (same K) (so_read_to_string (sy_os sy) fd)) \<and> (\<forall>c fd. frames (same K) (so_split (sy_os sy) c fd)) \<and>
     (\<forall>fd s. frames (same K) (so_write_all (sy_os sy) fd s))"

lemma frames_attempt [frame_intros]: "frames R m \<Longrightarrow> frames R (attempt m)"
  unfolding frames_def attempt_def by (auto split: option.splits sum.splits error.splits)

lemma frames_with_drop [frame_intros]: "transp R \<Longrightarrow> frames R m \<Longrightarrow> frames R c \<Longrightarrow> frames R (with_drop m c)"
  unfolding frames_def with_drop_def by (fastforce split: option.splits dest: transpD)

lemma same_refl [simp]: "reflp (same K)" "transp (same K)" "reflp (carry C)" "transp (carry C)"
  by (auto intro: reflpI transpI)

lemma creds_okD:
  assumes "creds_ok sy K"
  shows "frames (same K) (sy_setgroups_empty sy)" "frames (carry K) (sy_setns sy fd)" "frames (same K) (so_open (sy_os sy) p m)"
    "frames (same K) (so_close (sy_os sy) fd)" "frames (same K) (so_read_to_string (sy_os sy) fd)"
    "frames (same K) (so_split (sy_os sy) c fd)" "frames (same K) (so_write_all (sy_os sy) fd s)"
  using assms by (auto simp: creds_ok_def)

lemma with_open_same:
  assumes "creds_ok sy K" "\<And>fd. frames (same K) (k fd)"
  shows "frames (same K) (with_open (sy_os sy) path msg k)"
  unfolding with_open_def open_with_def
  by (auto intro!: frame_intros creds_okD(3,4)[OF assms(1)] assms(2) split: sum.split)

lemma s2_parts_same:
  assumes "creds_ok sy K"
  shows "frames (same K) (drop_groups sy)" "frames (carry K) (for_io others (\<lambda>ns. try_io (ns_apply sy ns) msg))"
    "frames (same K) (last_capability (sy_os sy))" "frames (same K) (inherit_profile (sy_os sy) pr)"
    "frames (same K) (cmd_new (sy_os sy) c as p h)"
proof -
  note intros = frame_intros with_open_same[OF assms] creds_okD[OF assms]
  show "frames (same K) (drop_groups sy)" unfolding drop_groups_def by (auto intro!: intros)
  show "frames (carry K) (for_io others (\<lambda>ns. try_io (ns_apply sy ns) msg))" unfolding ns_apply_def by (auto intro!: intros)
  show "frames (same K) (last_capability (sy_os sy))" unfolding last_capability_def by (auto intro!: intros)
  show "frames (same K) (inherit_profile (sy_os sy) pr)" unfolding inherit_profile_def by (auto intro!: intros)
  show "frames (same K) (cmd_new (sy_os sy) c as p h)"
    unfolding cmd_new_def read_environment_def Let_def by (auto intro!: intros)
qed

lemma set_ids_creds:
  assumes "creds_ok sy K" "set_ids sy dg uid gid w = Some (w', Inr ())"
  shows "K w' = (K w)\<lparr>cr_uid := uid, cr_gid := gid, cr_setpcap := cr_setpcap (K w) \<and> (uid = 0 \<or> cr_uid (K w) \<noteq> 0)\<rparr>"
proof -
  obtain w1 w2 r where "attempt (sy_setgroups_empty sy) w = Some (w1, Inr r)" and g: "sy_setgid sy gid w1 = Some (w2, Inr ())"
    and u: "sy_setuid sy uid w2 = Some (w', Inr ())"
    using assms(2) by (auto simp: set_ids_def io_simps split: if_splits)
  moreover from framesD[OF frames_attempt[OF creds_okD(1)[OF assms(1)]] this(1)] have "K w1 = K w" .
  moreover have "K w2 = (K w1)\<lparr>cr_gid := gid\<rparr>"
    "K w' = (K w2)\<lparr>cr_uid := uid, cr_setpcap := cr_setpcap (K w2) \<and> (uid = 0 \<or> cr_uid (K w2) \<noteq> 0)\<rparr>"
    using assms(1) g u by (auto simp: creds_ok_def)
  ultimately show ?thesis by simp
qed

lemma drop_caps_creds:
  assumes "creds_ok sy K" "drop_caps (sy_os sy) caps w = Some (w', Inr ())"
    "\<forall>w w' l. last_capability (sy_os sy) w = Some (w', Inr l) \<longrightarrow> l = N" "N \<le> 64"
  shows "(K w')\<lparr>cr_bset := {}\<rparr> = (K w)\<lparr>cr_bset := {}\<rparr>" (is ?same)
    "cr_setpcap (K w) \<Longrightarrow> cr_bset (K w') \<subseteq> {c. bit caps c \<or> c = CAP_SYS_CHROOT \<or> c = CAP_SYS_PTRACE \<or> unat N \<le> c}"
proof -
  obtain w1 l where l: "last_capability (sy_os sy) w = Some (w1, Inr l)"
    and loop: "for_io (dropped_caps caps l) (\<lambda>cap. ignore_io (so_prctl (sy_os sy) PR_CAPBSET_DROP cap)) w1 = Some (w', Inr ())"
    using assms(2) by (auto simp: drop_caps_def io_simps)
  have N: "l = N" using assms(3) l by blast
  have w1: "K w1 = K w" by (rule framesD[OF s2_parts_same(3)[OF assms(1)] l])
  note law = assms(1)[unfolded creds_ok_def, THEN conjunct2, THEN conjunct2, THEN conjunct1]
  have b: "bset_ok (sy_os sy) (\<lambda>w. cr_bset (K w)) (\<lambda>w. cr_setpcap (K w))" unfolding bset_ok_def using law by simp
  let ?R = "same (\<lambda>w. (K w)\<lparr>cr_bset := {}\<rparr>)"
  have "frames ?R (so_prctl (sy_os sy) PR_CAPBSET_DROP cap)" for cap unfolding frames_def using law by simp
  moreover have "reflp ?R" "transp ?R" by (auto intro: reflpI transpI)
  ultimately have "frames ?R (for_io (dropped_caps caps l) (\<lambda>cap. ignore_io (so_prctl (sy_os sy) PR_CAPBSET_DROP cap)))"
    unfolding ignore_io_def by (intro frames_for frames_bind frames_attempt frames_basic(1))
  from framesD[OF this loop] w1 show ?same by simp
  assume "cr_setpcap (K w)"
  then have "cr_bset (K w') = cr_bset (K w) - unat ` set (dropped_caps caps N)" using drop_loop[OF loop b] by (simp add: N w1)
  then show "cr_bset (K w') \<subseteq> {c. bit caps c \<or> c = CAP_SYS_CHROOT \<or> c = CAP_SYS_PTRACE \<or> unat N \<le> c}"
    unfolding set_dropped_caps[OF assms(4)] by (auto simp: not_less)
qed


section \<open>An example\<close>

text \<open>A guest with three consoles and the capabilities 0 to 4, of which everything else succeeds; the world is the credentials.\<close>

definition toy_s2os' :: "creds s2os" where
  "toy_s2os' =
     \<lparr>so_var = (\<lambda>_. None), so_open = (\<lambda>_ _. ret (Inr 3)), so_close = (\<lambda>_. ret ()), so_read_to_string = (\<lambda>_. ret [CHR ''4'', CHR 0x0A]),
      so_lines = (\<lambda>_. ret []), so_split = (\<lambda>_ _. ret []), so_write_all = (\<lambda>_ _. ret ()),
      so_prctl = (\<lambda>op c k. Some (if cr_setpcap k then (k\<lparr>cr_bset := cr_bset k - {unat c}\<rparr>, Inr ()) else (k, Inl (Err []))))\<rparr>"

definition toy_names :: "string list" where
  "toy_names = map (\<lambda>n. ''hvc'' @ to_radix 10 n) [0, 11, 2]"

definition toy_sys :: "creds s2sys" where
  "toy_sys =
     \<lparr>sy_os = toy_s2os', sy_read_dir = (\<lambda>_. ret (map Inr toy_names)), sy_read_link = (\<lambda>_. ret []), sy_metadata = (\<lambda>_. ret (Inl NotFound)),
      sy_exists = (\<lambda>_. ret True), sy_create_dir_all = (\<lambda>_. ret (Inr ())), sy_remove_file = (\<lambda>_. ret (Inr ())),
      sy_remove_dir = (\<lambda>_. ret ()), sy_remove_dir_all = (\<lambda>_. ret ()), sy_mount = (\<lambda>_ _ _ _ _. ret (Inr ())),
      sy_statfs = (\<lambda>_. ret 0), sy_open = (\<lambda>_. ret (Inr 7)), sy_open_dir = (\<lambda>_. ret 4), sy_mknodat = (\<lambda>_ _ _. ret ()),
      sy_unlinkat = (\<lambda>_ _. ret ()), sy_fcntl_getfl = (\<lambda>_. ret 0), sy_fcntl_setfl = (\<lambda>_ _. ret ()), sy_klines = (\<lambda>_. ret []),
      sy_dup2 = (\<lambda>_ _. ret ()), sy_setns = (\<lambda>_. ret ()), sy_unshare_mount = ret (), sy_setgroups_empty = ret (),
      sy_setgid = (\<lambda>g k. Some (k\<lparr>cr_gid := g\<rparr>, Inr ())), sy_setuid = (\<lambda>u k. Some (k\<lparr>cr_uid := u, cr_setpcap := cr_setpcap k \<and> (u = 0 \<or> cr_uid k \<noteq> 0)\<rparr>, Inr ())),
      sy_chdir = (\<lambda>_. ret ()), sy_chroot = (\<lambda>_. ret ()), sy_set_permissions = (\<lambda>_ _. ret ()), sy_temp_dir = ''/tmp'',
      sy_mkdtemp = (\<lambda>t. ret t), sy_getpid = 2, sy_fork_wait = (\<lambda>_. ret (Exited 3 0)),
      sy_spawn = (\<lambda>_ _ _ k. Some (k\<lparr>cr_children := (cr_uid k, cr_gid k, cr_bset k) # cr_children k\<rparr>, Inr 5)),
      sy_wait = (\<lambda>_. ret ()), sy_makedev = (\<lambda>a b. 0)\<rparr>"

lemma console_number_hvc:
  assumes "n < 2 ^ 64"
  shows "console_number (''hvc'' @ to_radix 10 n) = Some n"
proof -
  have "is_ascii (''hvc'' @ to_radix 10 n)" using decimal_chars(3)[of _ n] by (auto simp: is_ascii_def)
  then have "to_str (''hvc'' @ to_radix 10 n) = Some (''hvc'' @ to_radix 10 n)" unfolding to_str_def by (rule from_utf8_ascii)
  then show ?thesis using parse_unsigned_to_radix[of 10 n "2 ^ 64" 0] assms by (simp add: console_number_def)
qed

definition toy_creds :: creds where
  "toy_creds = \<lparr>cr_uid = 0, cr_gid = 0, cr_bset = {0, 1, 2, 3, 4}, cr_setpcap = True, cr_children = []\<rparr>"

theorem highest_console_first_witness:
  "find_vmsh_consoles toy_sys toy_creds = Some (toy_creds, Inr 7) \<and> Max (set [0, 11, 2 :: nat]) = 11"
proof -
  have n: "List.map_filter console_number toy_names = [0, 11, 2]"
    using console_number_hvc[of 0] console_number_hvc[of 11] console_number_hvc[of 2] by (simp add: toy_names_def map_filter_def)
  have "sy_read_dir toy_sys ''/dev/'' toy_creds = Some (toy_creds, Inr (map Inr toy_names))"
    "sy_open toy_sys p toy_creds = Some (toy_creds, Inr (Inr 7))" for p
    by (simp_all add: toy_sys_def ret_def)
  from highest_console_first[OF this(1) n[symmetric] _ this(2)] show ?thesis by simp
qed

lemma toy_creds_ok: "creds_ok toy_sys id"
  by (auto simp: creds_ok_def toy_sys_def toy_s2os'_def frames_def ret_def)

lemma toy_last_cap': "last_capability toy_s2os' w = Some (w, Inr 4)"
proof -
  have "to_radix 10 (unat (4 :: u64)) = ''4''" by (simp add: to_radix.simps digit_char_def) code_simp
  then have "parse_u64 10 ''4'' = Some 4" using parse_u64_to_radix[of 10 0 4] by simp
  then show ?thesis
    by (simp add: last_capability_def with_open_def open_with_def toy_s2os'_def bind_io_def ret_def with_drop_def try_io_def lift_res_def)
qed

lemma toy_prctl': "ignore_io (so_prctl toy_s2os' op c) k = Some (if cr_setpcap k then k\<lparr>cr_bset := cr_bset k - {unat c}\<rparr> else k, Inr ())"
  by (simp add: toy_s2os'_def ignore_io_def attempt_def bind_io_def ret_def)

definition toy_status :: proc_status where
  "toy_status = \<lparr>ps_global_pid = 1, ps_local_pid = 1, ps_inherited_capabilities = 0, ps_effective_capabilities = 2\<rparr>"

definition toy_opts :: options where
  "toy_opts = \<lparr>op_target_pid = 1, op_command = None, op_args = [], op_home = None\<rparr>"

lemma toy_command:
  "\<exists>k. run_command toy_sys toy_opts {''mnt'', ''user''} [3] 0 100 toy_status None toy_creds = Some (k, Inr 5)"
proof -
  have d: "dropped_caps 2 4 = [0, 2, 3]"
    by (simp add: dropped_caps_def inheritable_def CAP_SYS_CHROOT_def CAP_SYS_PTRACE_def upt_rec)
  have s: "sy_os toy_sys = toy_s2os'" "ps_effective_capabilities toy_status = 2" by (simp_all add: toy_sys_def toy_status_def)
  have c: "drop_caps toy_s2os' 2 k = Some (if cr_setpcap k then k\<lparr>cr_bset := cr_bset k - {0} - {2} - {3}\<rparr> else k, Inr ())" for k
    by (simp add: drop_caps_def toy_last_cap' bind_io_def try_io_def d toy_prctl' ret_def)
  have i: "set_ids toy_sys b u g k = Some (k\<lparr>cr_gid := g, cr_uid := u, cr_setpcap := cr_setpcap k \<and> (u = 0 \<or> cr_uid k \<noteq> 0)\<rparr>, Inr ())" "drop_groups toy_sys k = Some (k, Inr True)"
    "ns_apply toy_sys fd k = Some (k, Inr ())" for b u g k fd
    by (simp_all add: set_ids_def drop_groups_def ns_apply_def toy_sys_def attempt_def bind_io_def ret_def try_io_def)
  have n: "cmd_new toy_s2os' a as p h k = Some (k, Inr \<lparr>cm_environment = Map.empty, cm_command = (case a of None \<Rightarrow> ''sh'' | Some c \<Rightarrow> c),
      cm_arguments = (if a = None then [''-l''] else as), cm_home = h\<rparr>)" for a as p h k
    by (simp add: cmd_new_def read_environment_def with_open_def open_with_def toy_s2os'_def bind_io_def ret_def with_drop_def try_io_def
        collect_env_def map_filter_def)
  have sp: "\<exists>k'. cmd_spawn toy_sys cm k = Some (k', Inr 5)" for cm k
    by (simp add: cmd_spawn_def try_io_def toy_sys_def)
  show ?thesis by (simp add: run_command_def s bind_io_def i try_io_def ret_def c n sp)
qed


end
