(* ===== verification/Coredump.thy ===== *)
theory Coredump
  imports Hypervisor
begin

text \<open>
  Core dumps of the guest: \<^verbatim>\<open>src/coredump.rs\<close> and the structures of \<^verbatim>\<open>src/elf.rs\<close> it writes, for x86-64.
  A structure is the bytes \<^verbatim>\<open>any_as_bytes\<close> gives for it; padding, whose value the language leaves open, is 0 here.
  The file, the mapping of it and \<^verbatim>\<open>process_vm_readv\<close> are arguments, and so are the layouts of the structures of
  \<^verbatim>\<open>kvm_bindings\<close> (\<open>codec\<close>). It is shown that a reader that follows the headers of the file finds the notes and the memory of
  the hypervisor.
\<close>

section \<open>Structures of the file\<close>

definition ELF_IDENT :: bytes where
  "ELF_IDENT = [0x7F, 0x45, 0x4C, 0x46, 2, 1, 0, 0, 0, 0, 0, 0, 0, 0, 0, 0]"

definition ET_CORE :: u16 where "ET_CORE = 4"
definition EM_X86_64 :: u16 where "EM_X86_64 = 62"
definition EV_CURRENT :: u32 where "EV_CURRENT = 1"
definition CORE_SHN_UNDEF :: u16 where "CORE_SHN_UNDEF = 0"
definition PT_LOAD :: u32 where "PT_LOAD = 1"
definition PT_NOTE :: u32 where "PT_NOTE = 4"
definition PF_X :: u32 where "PF_X = 1"
definition PF_W :: u32 where "PF_W = 2"
definition NT_PRSTATUS :: u32 where "NT_PRSTATUS = 1"
definition NT_PRPSINFO :: u32 where "NT_PRPSINFO = 3"
definition NT_PRXREG :: u32 where "NT_PRXREG = 4"
definition NT_PRXFPREG :: u32 where "NT_PRXFPREG = 0x46E62B7F"

definition EHDR_SIZE :: usize where "EHDR_SIZE = 64"
definition PHDR_SIZE :: usize where "PHDR_SIZE = 56"
definition SHDR_SIZE :: usize where "SHDR_SIZE = 64"
definition NHDR_SIZE :: usize where "NHDR_SIZE = 12"
definition PRPSINFO_SIZE :: usize where "PRPSINFO_SIZE = 136"
definition PRSTATUS_SIZE :: usize where "PRSTATUS_SIZE = 336"
definition FPU_REGS_SIZE :: usize where "FPU_REGS_SIZE = 512"

record ehdr =
  e_type :: u16
  e_machine :: u16
  e_version :: u32
  e_entry :: u64
  e_phoff :: u64
  e_shoff :: u64
  e_flags :: u32
  e_ehsize :: u16
  e_phentsize :: u16
  e_phnum :: u16
  e_shentsize :: u16
  e_shnum :: u16
  e_shstrndx :: u16

definition ehdr_bytes :: "ehdr \<Rightarrow> bytes" where
  "ehdr_bytes h =
     ELF_IDENT @ word_bytes 2 (e_type h) @ word_bytes 2 (e_machine h) @ word_bytes 4 (e_version h) @ word_bytes 8 (e_entry h) @
     word_bytes 8 (e_phoff h) @ word_bytes 8 (e_shoff h) @ word_bytes 4 (e_flags h) @ word_bytes 2 (e_ehsize h) @
     word_bytes 2 (e_phentsize h) @ word_bytes 2 (e_phnum h) @ word_bytes 2 (e_shentsize h) @ word_bytes 2 (e_shnum h) @
     word_bytes 2 (e_shstrndx h)"

record phdr =
  p_type :: u32
  p_flags :: u32
  p_offset :: u64
  p_vaddr :: u64
  p_paddr :: u64
  p_filesz :: u64
  p_memsz :: u64
  p_align :: u64

definition phdr_bytes :: "phdr \<Rightarrow> bytes" where
  "phdr_bytes h =
     word_bytes 4 (p_type h) @ word_bytes 4 (p_flags h) @ word_bytes 8 (p_offset h) @ word_bytes 8 (p_vaddr h) @
     word_bytes 8 (p_paddr h) @ word_bytes 8 (p_filesz h) @ word_bytes 8 (p_memsz h) @ word_bytes 8 (p_align h)"

definition nhdr_bytes :: "u32 \<Rightarrow> u32 \<Rightarrow> u32 \<Rightarrow> bytes" where
  "nhdr_bytes namesz descsz ntype = word_bytes 4 namesz @ word_bytes 4 descsz @ word_bytes 4 ntype"

definition prpsinfo_bytes :: bytes where
  "prpsinfo_bytes =
     replicate 4 0 @ replicate 4 0 @ word_bytes 8 (0 :: u64) @ word_bytes 4 (0 :: u32) @ word_bytes 4 (0 :: u32) @ word_bytes 4 (1 :: u32) @
     word_bytes 4 (1 :: u32) @ word_bytes 4 (0 :: u32) @ word_bytes 4 (0 :: u32) @
     map (\<lambda>c. of_nat (of_char c)) ''qemu-system-x86_'' @ replicate 80 0"

text \<open>\<^verbatim>\<open>Regs\<close> read as an array of 27 words.\<close>

definition gregs :: "regs \<Rightarrow> u64 list" where
  "gregs r =
     [r15 r, r14 r, r13 r, r12 r, rbp r, rbx r, r11 r, r10 r, r9 r, r8 r, rax r, rcx r, rdx r, rsi r, rdi r, orig_rax r, rip r,
      seg_cs r, eflags r, rsp r, seg_ss r, fs_base r, gs_base r, seg_ds r, seg_es r, seg_fs r, seg_gs r]"

definition timeval_zero :: bytes where
  "timeval_zero = word_bytes 8 (0 :: u64) @ word_bytes 8 (0 :: u64)"

definition prstatus_bytes :: "u32 \<Rightarrow> u64 list \<Rightarrow> bytes" where
  "prstatus_bytes vcpu_pid gpr =
     word_bytes 4 (0 :: u32) @ word_bytes 4 (0 :: u32) @ word_bytes 4 (0 :: u32) @ word_bytes 2 (0 :: u16) @ replicate 2 0 @
     word_bytes 8 (0 :: u64) @ word_bytes 8 (0 :: u64) @ word_bytes 4 vcpu_pid @ word_bytes 4 (1 :: u32) @ word_bytes 4 (0 :: u32) @
     word_bytes 4 (0 :: u32) @ timeval_zero @ timeval_zero @ timeval_zero @ timeval_zero @ concat (map (word_bytes 8) gpr) @
     word_bytes 4 (1 :: u32) @ replicate 4 0"

definition fpu_bytes :: "fpu_regs \<Rightarrow> bytes" where
  "fpu_bytes f =
     word_bytes 2 (fp_cwd f) @ word_bytes 2 (fp_swd f) @ word_bytes 2 (fp_twd f) @ word_bytes 2 (fp_fop f) @ word_bytes 8 (fp_rip f) @
     word_bytes 8 (fp_rdp f) @ word_bytes 4 (fp_mxcsr f) @ word_bytes 4 (fp_mxcsr_mask f) @ concat (map (word_bytes 4) (fp_st_space f)) @
     concat (map (word_bytes 4) (fp_xmm_space f)) @ concat (map (word_bytes 4) (fp_padding f)) @ concat (map (word_bytes 4) (fp_padding1 f))"

text \<open>The layouts of \<^verbatim>\<open>kvm_sregs\<close> and \<^verbatim>\<open>kvm_msr_entry\<close>, whose sizes are multiples of 8.\<close>

record ('s, 'e) kvm_layout =
  kl_sregs :: "'s codec"
  kl_msr :: "'e codec"

definition core_user_bytes :: "('s, 'e) kvm_layout \<Rightarrow> usize \<Rightarrow> 's \<Rightarrow> 'e \<Rightarrow> bytes" where
  "core_user_bytes l v s e = word_bytes 8 v @ cd_enc (kl_sregs l) s @ cd_enc (kl_msr l) e"

definition core_user_size :: "('s, 'e) kvm_layout \<Rightarrow> usize" where
  "core_user_size l = 8 + cd_size (kl_sregs l) + cd_size (kl_msr l)"

section \<open>Headers\<close>

definition protection_flags :: "prot_flags \<Rightarrow> u32" where
  "protection_flags f =
     (if prot_contains f PROT_READ then PF_X else 0) OR (if prot_contains f PROT_WRITE then PF_W else 0) OR
     (if prot_contains f PROT_EXEC then PF_X else 0)"

definition core_elf_header :: "u16 \<Rightarrow> ehdr" where
  "core_elf_header phnum =
     \<lparr>e_type = ET_CORE, e_machine = EM_X86_64, e_version = EV_CURRENT, e_entry = 0, e_phoff = EHDR_SIZE, e_shoff = 0, e_flags = 0,
      e_ehsize = ucast EHDR_SIZE, e_phentsize = ucast PHDR_SIZE, e_phnum = phnum, e_shentsize = ucast SHDR_SIZE, e_shnum = 0,
      e_shstrndx = CORE_SHN_UNDEF\<rparr>"

definition pt_note_header :: "u64 \<Rightarrow> u64 \<Rightarrow> phdr" where
  "pt_note_header core_size file_size =
     \<lparr>p_type = PT_NOTE, p_flags = 0, p_offset = core_size, p_vaddr = 0, p_paddr = 0, p_filesz = file_size, p_memsz = 0, p_align = 0\<rparr>"

definition pt_load_header :: "mapping \<Rightarrow> u64 \<Rightarrow> phdr res" where
  "pt_load_header m offset =
     bind_res (mp_size m) (\<lambda>s.
     Inr \<lparr>p_type = PT_LOAD, p_flags = protection_flags (mp_prot_flags m), p_offset = offset, p_vaddr = mp_phys_addr m,
          p_paddr = mp_phys_addr m, p_filesz = s, p_memsz = s, p_align = PAGE_SIZE\<rparr>)"

fun load_headers :: "mapping list \<Rightarrow> usize \<Rightarrow> (phdr list \<times> usize) res" where
  "load_headers [] core_size = Inr ([], core_size)"
| "load_headers (m # ms) core_size =
     bind_res (pt_load_header m core_size) (\<lambda>h.
     bind_res (mp_size m) (\<lambda>s.
     bind_res (chk_add core_size s) (\<lambda>c.
     bind_res (load_headers ms c) (\<lambda>(hs, e). Inr (h # hs, e)))))"

section \<open>Notes\<close>

record 'w core_os =
  co_open :: "string \<Rightarrow> ('w, raw_fd) io"
  co_close :: "raw_fd \<Rightarrow> ('w, unit) io"
  co_set_len :: "raw_fd \<Rightarrow> u64 \<Rightarrow> ('w, unit) io"
  co_write_all :: "raw_fd \<Rightarrow> bytes \<Rightarrow> ('w, unit) io"
  co_flush :: "raw_fd \<Rightarrow> ('w, unit) io"
  co_mmap :: "usize \<Rightarrow> raw_fd \<Rightarrow> isize \<Rightarrow> ('w, usize) io"
  co_readv :: "pid \<Rightarrow> usize \<times> usize \<Rightarrow> (usize \<times> usize) list \<Rightarrow> ('w, usize) io"

definition write_note :: "'w core_os \<Rightarrow> raw_fd \<Rightarrow> bytes \<Rightarrow> u32 \<Rightarrow> bytes \<Rightarrow> ('w, unit) io" where
  "write_note os fd name ntype payload =
     bind_io (try_io (co_write_all os fd (nhdr_bytes 5 (of_nat (length payload)) ntype)) ''cannot write elf note header'') (\<lambda>_.
     bind_io (try_io (co_write_all os fd name) ''cannot write note name'') (\<lambda>_.
     try_io (co_write_all os fd payload) ''cannot write elf note header''))"

definition CORE_NAME :: bytes where "CORE_NAME = [0x43, 0x4F, 0x52, 0x45, 0, 0, 0, 0]"
definition LINUX_NAME :: bytes where "LINUX_NAME = [0x4C, 0x49, 0x4E, 0x55, 0x58, 0, 0, 0]"

definition write_note_section :: "'w core_os \<Rightarrow> raw_fd \<Rightarrow> u32 \<Rightarrow> bytes \<Rightarrow> ('w, unit) io" where
  "write_note_section os fd ntype payload = write_note os fd CORE_NAME ntype payload"

definition write_fpu_registers :: "'w core_os \<Rightarrow> raw_fd \<Rightarrow> fpu_regs \<Rightarrow> ('w, unit) io" where
  "write_fpu_registers os fd r = write_note os fd LINUX_NAME NT_PRXFPREG (fpu_bytes r)"

record ('s, 'e) vcpu_state =
  vs_regs :: regs
  vs_sregs :: 's
  vs_fpu_regs :: fpu_regs
  vs_msr :: 'e

definition write_vcpu_notes :: "'w core_os \<Rightarrow> ('s, 'e) kvm_layout \<Rightarrow> raw_fd \<Rightarrow> nat \<times> ('s, 'e) vcpu_state \<Rightarrow> ('w, unit) io" where
  "write_vcpu_notes os l fd = (\<lambda>(i, v).
     bind_io (try_io (write_note_section os fd NT_PRSTATUS (prstatus_bytes (of_nat (i + 1)) (gregs (vs_regs v)))) ''failed to write NT_PRSTATUS'') (\<lambda>_.
     bind_io (try_io (write_note_section os fd NT_PRXREG (core_user_bytes l (of_nat i) (vs_sregs v) (vs_msr v))) ''failed to write NT_PRXREG'') (\<lambda>_.
     write_fpu_registers os fd (vs_fpu_regs v))))"

definition write_note_sections :: "'w core_os \<Rightarrow> ('s, 'e) kvm_layout \<Rightarrow> raw_fd \<Rightarrow> ('s, 'e) vcpu_state list \<Rightarrow> ('w, unit) io" where
  "write_note_sections os l fd vcpus =
     bind_io (try_io (write_note_section os fd NT_PRPSINFO prpsinfo_bytes) ''failed to write NT_PRPSINFO'') (\<lambda>_.
     for_io (List.enumerate 0 vcpus) (write_vcpu_notes os l fd))"

definition note_size :: "usize \<Rightarrow> usize res" where
  "note_size t = bind_res (chk_add NHDR_SIZE 8) (\<lambda>s. chk_add s t)"

section \<open>The file\<close>

text \<open>\<^verbatim>\<open>off_t\<close> is signed; its subtraction panics on overflow.\<close>

definition off_sub :: "isize \<Rightarrow> isize \<Rightarrow> isize res" where
  "off_sub a b =
     (if sint a - sint b < - (2 ^ 63) \<or> 2 ^ 63 \<le> sint a - sint b then panic ''attempt to subtract with overflow'' else Inr (a - b))"

definition src_iov :: "mapping \<Rightarrow> (usize \<times> usize) res" where
  "src_iov m = bind_res (mp_size m) (\<lambda>s. Inr (mp_start m, s))"

definition dump_mappings :: "'w core_os \<Rightarrow> pid \<Rightarrow> raw_fd \<Rightarrow> isize \<Rightarrow> isize \<Rightarrow> mapping list \<Rightarrow> ('w, unit) io" where
  "dump_mappings os p fd core_size file_offset maps =
     bind_io (lift_res (off_sub core_size file_offset)) (\<lambda>buf_size.
     if buf_size = 0 then lift_res (bail ''buf_size is smaller than zero'')
     else
       bind_io (try_io (co_mmap os buf_size fd file_offset) ''cannot mmap core file'') (\<lambda>raw_buf.
       bind_io (lift_res (map_res src_iov maps)) (\<lambda>src_iovs.
       bind_io (try_io (co_readv os p (raw_buf, buf_size) src_iovs) ''cannot read hypervisor memory'') (\<lambda>_. ret ()))))"

definition pt_note_len :: "('s, 'e) kvm_layout \<Rightarrow> nat \<Rightarrow> usize res" where
  "pt_note_len l nvcpus =
     bind_res (note_size PRPSINFO_SIZE) (\<lambda>p.
     bind_res (note_size (core_user_size l)) (\<lambda>u.
     bind_res (note_size PRSTATUS_SIZE) (\<lambda>s.
     bind_res (note_size FPU_REGS_SIZE) (\<lambda>f.
     bind_res (chk_add u s) (\<lambda>us.
     bind_res (chk_add us f) (\<lambda>usf.
     bind_res (chk_mul (of_nat nvcpus) usf) (\<lambda>n. chk_add p n)))))))"

definition write_headers :: "'w core_os \<Rightarrow> raw_fd \<Rightarrow> ehdr \<Rightarrow> phdr list \<Rightarrow> ('w, unit) io" where
  "write_headers os fd e hs =
     bind_io (try_io (co_write_all os fd (ehdr_bytes e)) ''cannot write elf header'') (\<lambda>_.
     for_io hs (\<lambda>h. try_io (co_write_all os fd (phdr_bytes h)) ''cannot write elf header''))"

definition write_corefile ::
  "'w core_os \<Rightarrow> ('s, 'e) kvm_layout \<Rightarrow> pid \<Rightarrow> raw_fd \<Rightarrow> mapping list \<Rightarrow> ('s, 'e) vcpu_state list \<Rightarrow> ('w, unit) io" where
  "write_corefile os l p fd maps vcpus =
     (let ehdr = core_elf_header (of_nat (length maps + 1)) in
      bind_io (lift_res (bind_res (chk_mul PHDR_SIZE (ucast (e_phnum ehdr))) (chk_add EHDR_SIZE))) (\<lambda>metadata_size.
      bind_io (lift_res (pt_note_len l (length vcpus))) (\<lambda>pt_note_size.
      bind_io (lift_res (bind_res (chk_add metadata_size pt_note_size) page_align)) (\<lambda>start.
      bind_io (lift_res (load_headers maps start)) (\<lambda>(loads, core_size).
      bind_io (try_io (co_set_len os fd core_size) ''cannot truncate core file'') (\<lambda>_.
      bind_io (write_headers os fd ehdr (pt_note_header metadata_size pt_note_size # loads)) (\<lambda>_.
      bind_io (write_note_sections os l fd vcpus) (\<lambda>_.
      bind_io (try_io (co_flush os fd) ''cannot flush core file'') (\<lambda>_.
      dump_mappings os p fd core_size start maps)))))))))"

section \<open>The command\<close>

definition MSR_EFER :: u32 where "MSR_EFER = 0xC0000080"

text \<open>\<open>entry\<close> makes a \<^verbatim>\<open>kvm_msr_entry\<close> with the given index; \<open>c\<close> has the layouts of the structures read.\<close>

record 'e reg_codecs =
  rc_regs :: "kvm_regs codec"
  rc_fpu :: "kvm_fpu codec"
  rc_msrs :: "'e kvm_msrs codec"
  rc_msrs_size :: usize
  rc_entry :: "u32 \<Rightarrow> 'e"

definition vcpu_state_new ::
  "'w os \<Rightarrow> ('s, 'e) kvm_layout \<Rightarrow> 'e reg_codecs \<Rightarrow> thread_id \<Rightarrow> vcpu \<Rightarrow> ('w \<times> hypervisor, ('s, 'e) vcpu_state) io" where
  "vcpu_state_new os l c me v =
     bind_io (get_regs os (rc_regs c) me v) (\<lambda>r.
     bind_io (get_sregs os (kl_sregs l) me v) (\<lambda>s.
     bind_io (get_fpu_regs os (rc_fpu c) me v) (\<lambda>f.
     bind_io (get_msr os (rc_msrs c) (rc_msrs_size c) me v (rc_entry c MSR_EFER)) (\<lambda>m.
     ret \<lparr>vs_regs = r, vs_sregs = s, vs_fpu_regs = f, vs_msr = m\<rparr>))))"

fun collect_states ::
  "'w os \<Rightarrow> ('s, 'e) kvm_layout \<Rightarrow> 'e reg_codecs \<Rightarrow> thread_id \<Rightarrow> vcpu list \<Rightarrow> ('w \<times> hypervisor, ('s, 'e) vcpu_state list) io" where
  "collect_states os l c me [] = ret []"
| "collect_states os l c me (v # vs) =
     bind_io (vcpu_state_new os l c me v) (\<lambda>s. bind_io (collect_states os l c me vs) (\<lambda>ss. ret (s # ss)))"

text \<open>Runs with a hypervisor that is dropped at the end, which resumes it if it was stopped.\<close>

definition with_hypervisor :: "'w os \<Rightarrow> hypervisor \<Rightarrow> ('w \<times> hypervisor, 'a) io \<Rightarrow> ('w, 'a) io" where
  "with_hypervisor os h m w = map_option (\<lambda>((w', _), r). (w', r)) (with_drop m (resume os) (w, h))"

definition generate_coredump ::
  "'w os \<Rightarrow> 'w kenv \<Rightarrow> 'w core_os \<Rightarrow> ('s, 'e) kvm_layout \<Rightarrow> 'e reg_codecs \<Rightarrow> ('w, unit) io \<Rightarrow> ('w, (raw_fd \<times> string) list) io \<Rightarrow>
     thread_id \<Rightarrow> pid \<Rightarrow> string \<Rightarrow> ('w, unit) io" where
  "generate_coredump os env co l c open_pid fds me p path =
     bind_io (try_io (co_open co path) ''cannot open core_file'') (\<lambda>fd.
     with_drop
       (bind_io (try_io (get_hypervisor env open_pid fds p) ''cannot get vms for process'') (\<lambda>vm.
        with_hypervisor os vm
          (bind_io (stop os me) (\<lambda>_.
           bind_io (hv_get_maps os env me) (\<lambda>maps.
           bind_io (try_io (collect_states os l c me (hv_vcpus vm)) ''fail to dump vcpu registers'') (\<lambda>states.
           on_fst (try_io (write_corefile co l p fd maps states) ''cannot write core file'')))))))
       (co_close co fd))"

section \<open>Sizes\<close>

lemma length_struct_bytes [simp]:
  "length (ehdr_bytes e) = 64" "length (phdr_bytes h) = 56" "length (nhdr_bytes a b c) = 12" "length prpsinfo_bytes = 136"
  "length CORE_NAME = 8" "length LINUX_NAME = 8" "length timeval_zero = 16" "length (gregs r) = 27"
  by (simp_all add: ehdr_bytes_def ELF_IDENT_def phdr_bytes_def nhdr_bytes_def prpsinfo_bytes_def CORE_NAME_def LINUX_NAME_def
      timeval_zero_def gregs_def)

lemma length_concat_word_bytes [simp]: "length (concat (map (word_bytes n) ws)) = n * length ws"
  by (induction ws) auto

lemma length_prstatus_bytes [simp]: "length (prstatus_bytes i ws) = 120 + 8 * length ws"
  by (simp add: prstatus_bytes_def)

text \<open>What the types of the code guarantee: the arrays of \<^verbatim>\<open>FpuRegs\<close> and the size of an encoded structure.\<close>

definition vcpu_ok :: "('s, 'e) kvm_layout \<Rightarrow> ('s, 'e) vcpu_state \<Rightarrow> bool" where
  "vcpu_ok l v \<longleftrightarrow>
     length (fp_st_space (vs_fpu_regs v)) = 32 \<and> length (fp_xmm_space (vs_fpu_regs v)) = 64 \<and>
     length (fp_padding (vs_fpu_regs v)) = 12 \<and> length (fp_padding1 (vs_fpu_regs v)) = 12 \<and>
     length (cd_enc (kl_sregs l) (vs_sregs v)) = unat (cd_size (kl_sregs l)) \<and> length (cd_enc (kl_msr l) (vs_msr v)) = unat (cd_size (kl_msr l)) \<and>
     unat (cd_size (kl_sregs l)) + unat (cd_size (kl_msr l)) < 2 ^ 32"

lemma length_fpu_bytes: "vcpu_ok l v \<Longrightarrow> length (fpu_bytes (vs_fpu_regs v)) = 512"
  by (simp add: vcpu_ok_def fpu_bytes_def)

lemma unat_core_user_size:
  assumes "vcpu_ok l v"
  shows "unat (core_user_size l) = 8 + unat (cd_size (kl_sregs l)) + unat (cd_size (kl_msr l))"
  using assms by (simp add: vcpu_ok_def core_user_size_def unat_word_ariths)

lemma length_core_user_bytes: "vcpu_ok l v \<Longrightarrow> length (core_user_bytes l i (vs_sregs v) (vs_msr v)) = unat (core_user_size l)"
  by (simp add: unat_core_user_size core_user_bytes_def) (simp add: vcpu_ok_def)

section \<open>Writing in sequence\<close>

named_theorems appends_intros \<open>rules for what a computation writes at the position of the file\<close>

text \<open>\<open>C\<close> is the content of the file and \<open>P\<close> its position: a run of \<open>m\<close> that succeeds writes \<open>bs\<close>.\<close>

definition appends :: "('w \<Rightarrow> bytes) \<Rightarrow> ('w \<Rightarrow> nat) \<Rightarrow> bytes \<Rightarrow> ('w, unit) io \<Rightarrow> bool" where
  "appends C P bs m \<longleftrightarrow>
     (\<forall>w w'. m w = Some (w', Inr ()) \<longrightarrow> P w + length bs \<le> length (C w) \<longrightarrow>
        C w' = overwrite (P w) bs (C w) \<and> P w' = P w + length bs)"

lemma appends_bind [appends_intros]:
  assumes "appends C P a m" "appends C P b n"
  shows "appends C P (a @ b) (bind_io m (\<lambda>_. n))"
  unfolding appends_def
proof (intro allI impI)
  fix w w' assume "bind_io m (\<lambda>_. n) w = Some (w', Inr ())" and fits: "P w + length (a @ b) \<le> length (C w)"
  then obtain w1 where m: "m w = Some (w1, Inr ())" and n: "n w1 = Some (w', Inr ())" by (auto simp: io_simps)
  have a: "C w1 = overwrite (P w) a (C w)" "P w1 = P w + length a" using assms(1) m fits by (auto simp: appends_def)
  then have "P w1 + length b \<le> length (C w1)" using fits by simp
  with assms(2) n have "C w' = overwrite (P w1) b (C w1)" "P w' = P w1 + length b" by (auto simp: appends_def)
  with a fits show "C w' = overwrite (P w) (a @ b) (C w) \<and> P w' = P w + length (a @ b)" by (simp add: overwrite_append)
qed

lemma appends_ret [appends_intros]: "appends C P [] (ret ())"
  by (simp add: appends_def ret_def)

lemma appends_try [appends_intros]: "appends C P bs m \<Longrightarrow> appends C P bs (try_io m msg)"
  by (auto simp: appends_def io_simps)

lemma appends_for [appends_intros]:
  "(\<And>x. x \<in> set xs \<Longrightarrow> appends C P (f x) (m x)) \<Longrightarrow> appends C P (concat (map f xs)) (for_io xs m)"
  by (induction xs) (auto intro: appends_intros)

text \<open>The notes as they appear in the file.\<close>

definition note_bytes :: "bytes \<Rightarrow> u32 \<Rightarrow> bytes \<Rightarrow> bytes" where
  "note_bytes name ntype payload = nhdr_bytes 5 (of_nat (length payload)) ntype @ name @ payload"

definition vcpu_notes :: "('s, 'e) kvm_layout \<Rightarrow> nat \<times> ('s, 'e) vcpu_state \<Rightarrow> bytes" where
  "vcpu_notes l = (\<lambda>(i, v).
     note_bytes CORE_NAME NT_PRSTATUS (prstatus_bytes (of_nat (i + 1)) (gregs (vs_regs v))) @
     note_bytes CORE_NAME NT_PRXREG (core_user_bytes l (of_nat i) (vs_sregs v) (vs_msr v)) @
     note_bytes LINUX_NAME NT_PRXFPREG (fpu_bytes (vs_fpu_regs v)))"

definition all_notes :: "('s, 'e) kvm_layout \<Rightarrow> ('s, 'e) vcpu_state list \<Rightarrow> bytes" where
  "all_notes l vcpus = note_bytes CORE_NAME NT_PRPSINFO prpsinfo_bytes @ concat (map (vcpu_notes l) (List.enumerate 0 vcpus))"

lemma appends_note:
  assumes "\<And>bs. appends C P bs (co_write_all os fd bs)"
  shows "appends C P (note_bytes name ntype payload) (write_note os fd name ntype payload)"
  unfolding write_note_def note_bytes_def by (intro appends_intros assms)

lemma appends_note_sections:
  assumes "\<And>bs. appends C P bs (co_write_all os fd bs)"
  shows "appends C P (all_notes l vcpus) (write_note_sections os l fd vcpus)"
proof -
  have "appends C P (vcpu_notes l iv) (write_vcpu_notes os l fd iv)" for iv
    unfolding write_vcpu_notes_def vcpu_notes_def write_note_section_def write_fpu_registers_def
    by (cases iv) (simp only: prod.case, intro appends_intros appends_note assms)
  then show ?thesis
    unfolding write_note_sections_def all_notes_def write_note_section_def by (intro appends_intros appends_note assms)
qed

lemma appends_headers:
  assumes "\<And>bs. appends C P bs (co_write_all os fd bs)"
  shows "appends C P (ehdr_bytes e @ concat (map phdr_bytes hs)) (write_headers os fd e hs)"
  unfolding write_headers_def by (intro appends_intros assms)

section \<open>Reading the file\<close>

text \<open>A reader of core files: it follows the program headers to the notes and to the address and content of every segment.\<close>

definition phdr_of :: "bytes \<Rightarrow> phdr" where
  "phdr_of bs =
     \<lparr>p_type = field 0 4 bs, p_flags = field 4 4 bs, p_offset = field 8 8 bs, p_vaddr = field 16 8 bs, p_paddr = field 24 8 bs,
      p_filesz = field 32 8 bs, p_memsz = field 40 8 bs, p_align = field 48 8 bs\<rparr>"

definition core_phdr :: "bytes \<Rightarrow> nat \<Rightarrow> phdr" where
  "core_phdr f i = phdr_of (drop (unat (field 32 8 f :: u64) + i * unat (field 54 2 f :: u16)) f)"

definition segment :: "bytes \<Rightarrow> phdr \<Rightarrow> bytes" where
  "segment f h = take (unat (p_filesz h)) (drop (unat (p_offset h)) f)"

definition read_core :: "bytes \<Rightarrow> bytes \<times> (u64 \<times> bytes) list" where
  "read_core f =
     (segment f (core_phdr f 0),
      map (\<lambda>i. let h = core_phdr f i in (p_vaddr h, segment f h)) [1..<unat (field 56 2 f :: u16)])"

lemma phdr_of_bytes [simp]: "phdr_of (phdr_bytes h @ rest) = h"
  by (simp add: phdr_of_def phdr_bytes_def)

lemma field_ehdr:
  "field 32 8 (ehdr_bytes e @ f) = e_phoff e" "field 54 2 (ehdr_bytes e @ f) = e_phentsize e" "field 56 2 (ehdr_bytes e @ f) = e_phnum e"
  by (simp_all add: ehdr_bytes_def ELF_IDENT_def flip: append_Cons append.append_Cons)

lemma drop_concat_const:
  assumes "\<And>x. length (f x) = k" "i < length xs"
  shows "\<exists>r'. drop (i * k) (concat (map f xs) @ r) = f (xs ! i) @ r'"
  using assms(2)
proof (induction xs arbitrary: i)
  case (Cons x xs)
  then show ?case using assms(1)[of x] by (cases i) auto
qed simp

lemma core_phdr_at:
  assumes "f = ehdr_bytes (core_elf_header n) @ concat (map phdr_bytes hs) @ r" "i < length hs"
  shows "core_phdr f i = hs ! i"
proof -
  obtain r' where "drop (i * 56) (concat (map phdr_bytes hs) @ r) = phdr_bytes (hs ! i) @ r'"
    using drop_concat_const[of phdr_bytes 56 i hs r] assms(2) by auto
  moreover have "core_phdr f i = phdr_of (drop (64 + i * 56) f)"
    unfolding core_phdr_def assms(1) field_ehdr by (simp add: core_elf_header_def EHDR_SIZE_def PHDR_SIZE_def)
  ultimately show ?thesis by (simp add: assms(1))
qed

lemma field_phnum: "field 56 2 (ehdr_bytes (core_elf_header n) @ f) = n"
  by (simp add: field_ehdr core_elf_header_def)

section \<open>The layout\<close>

text \<open>The memory of the stopped hypervisor is \<open>V\<close>.\<close>

definition mem_range :: "(usize \<Rightarrow> u8) \<Rightarrow> usize \<times> usize \<Rightarrow> bytes" where
  "mem_range V = (\<lambda>(base, len). map (\<lambda>i. V (base + of_nat i)) [0..<unat len])"

definition map_range :: "(usize \<Rightarrow> u8) \<Rightarrow> mapping \<Rightarrow> bytes" where
  "map_range V m = mem_range V (mp_start m, mp_end m - mp_start m)"

lemma length_mem_range [simp]: "length (mem_range V (b, n)) = unat n"
  by (simp add: mem_range_def)

lemma length_map_range [simp]: "length (map_range V m) = unat (mp_end m - mp_start m)"
  by (simp add: map_range_def)

lemma load_headers_segments:
  assumes "load_headers maps c = Inr (hs, e)" "length pre = unat c"
  shows "map (\<lambda>h. (p_vaddr h, segment (pre @ concat (map (map_range V) maps)) h)) hs = map (\<lambda>m. (mp_phys_addr m, map_range V m)) maps \<and>
    unat e = unat c + length (concat (map (map_range V) maps))"
  using assms
proof (induction maps arbitrary: c hs pre)
  case (Cons m ms)
  obtain h s c' hs' where l: "hs = h # hs'" "pt_load_header m c = Inr h" "mp_size m = Inr s" "chk_add c s = Inr c'" "load_headers ms c' = Inr (hs', e)"
    using Cons.prems(1) by (auto simp: res_simps)
  have s: "s = mp_end m - mp_start m" using l(3) by (simp add: mp_size_def chk_sub_Inr)
  have c': "unat c' = unat c + unat s" using l(4) by (rule unat_chk_add)
  have len: "length (pre @ map_range V m) = unat c'" using Cons.prems(2) by (simp add: c' s)
  have h: "p_vaddr h = mp_phys_addr m" "p_offset h = c" "p_filesz h = s" using l(2,3) by (auto simp: pt_load_header_def)
  have "segment (pre @ concat (map (map_range V) (m # ms))) h = map_range V m"
    using Cons.prems(2) by (simp add: segment_def h s)
  with Cons.IH[OF l(5) len] show ?case by (simp add: l(1) h(1) c' s)
qed simp

lemma length_load_headers: "load_headers maps c = Inr (hs, e) \<Longrightarrow> length hs = length maps"
  by (induction maps arbitrary: c hs) (auto simp: res_simps)

lemma length_all_notes:
  assumes "pt_note_len l (length vcpus) = Inr n" "\<forall>v \<in> set vcpus. vcpu_ok l v" "length vcpus < 2 ^ 64"
  shows "length (all_notes l vcpus) = unat n"
proof -
  have "length (vcpu_notes l iv) = 908 + unat (core_user_size l)" if "iv \<in> set (List.enumerate 0 vcpus)" for iv
  proof -
    have "vcpu_ok l (snd iv)" using that assms(2) nth_mem[of "fst iv" vcpus] by (auto simp: in_set_enumerate_eq)
    then show ?thesis by (cases iv) (simp add: vcpu_notes_def note_bytes_def length_fpu_bytes length_core_user_bytes)
  qed
  then have "sum_list (map (length \<circ> vcpu_notes l) (List.enumerate 0 vcpus)) = (\<Sum>_\<leftarrow>List.enumerate 0 vcpus. 908 + unat (core_user_size l))"
    by (intro arg_cong[where f = sum_list] map_cong) auto
  then have nts: "length (all_notes l vcpus) = 156 + length vcpus * (908 + unat (core_user_size l))"
    by (simp only: all_notes_def length_append length_concat map_map sum_list_triv) (simp add: note_bytes_def)
  obtain p u st f us usf m where r: "note_size PRPSINFO_SIZE = Inr p" "note_size (core_user_size l) = Inr u" "note_size PRSTATUS_SIZE = Inr st"
      "note_size FPU_REGS_SIZE = Inr f" "chk_add u st = Inr us" "chk_add us f = Inr usf" "chk_mul (of_nat (length vcpus)) usf = Inr m"
      "chk_add p m = Inr n"
    using assms(1) by (auto simp: pt_note_len_def bind_res_Inr)
  have ns: "unat b = 20 + unat a" if "note_size a = Inr b" for a b
    using that by (auto simp: note_size_def NHDR_SIZE_def bind_res_Inr dest!: unat_chk_add)
  have "unat (of_nat (length vcpus) :: u64) = length vcpus" using assms(3) by (simp add: unat_of_nat take_bit_nat_eq_self)
  with ns[OF r(1)] ns[OF r(2)] ns[OF r(3)] ns[OF r(4)] unat_chk_add[OF r(5)] unat_chk_add[OF r(6)] unat_chk_mul[OF r(7)] unat_chk_add[OF r(8)]
  show ?thesis unfolding nts by (simp add: PRPSINFO_SIZE_def PRSTATUS_SIZE_def FPU_REGS_SIZE_def)
qed

text \<open>
  What the manual pages say: \<^verbatim>\<open>ftruncate\<close> cuts the file or fills it with zeros, a shared mapping of the file is its content
  from the offset on, and \<^verbatim>\<open>process_vm_readv\<close> stores the first bytes of the memory it is asked for, as many as it answers.
\<close>

definition core_ok :: "'w core_os \<Rightarrow> raw_fd \<Rightarrow> ('w \<Rightarrow> bytes) \<Rightarrow> ('w \<Rightarrow> nat) \<Rightarrow> pid \<Rightarrow> (usize \<Rightarrow> u8) \<Rightarrow> bool" where
  "core_ok os fd C P p V \<longleftrightarrow>
     (\<forall>bs. appends C P bs (co_write_all os fd bs)) \<and>
     (\<forall>n w w'. co_set_len os fd n w = Some (w', Inr ()) \<longrightarrow>
        C w' = take (unat n) (C w) @ replicate (unat n - length (C w)) 0 \<and> P w' = P w) \<and>
     (\<forall>w w'. co_flush os fd w = Some (w', Inr ()) \<longrightarrow> C w' = C w \<and> P w' = P w) \<and>
     (\<forall>len off w w' buf. co_mmap os len fd off w = Some (w', Inr buf) \<longrightarrow>
        C w' = C w \<and>
        (\<forall>srcs w2 n. co_readv os p (buf, len) srcs w' = Some (w2, Inr n) \<longrightarrow>
           C w2 = overwrite (unat off) (take (unat n) (concat (map (mem_range V) srcs))) (C w')))"

text \<open>The kernel transfers all bytes; the code does not look at how many they were.\<close>

definition reads_complete :: "'w core_os \<Rightarrow> pid \<Rightarrow> (usize \<Rightarrow> u8) \<Rightarrow> bool" where
  "reads_complete os p V \<longleftrightarrow>
     (\<forall>d srcs w w' n. co_readv os p d srcs w = Some (w', Inr n) \<longrightarrow> unat n = length (concat (map (mem_range V) srcs)))"

lemma dump_mappings_content:
  assumes "dump_mappings os p fd core_size start maps w = Some (w', Inr ())" "core_ok os fd C P p V" "reads_complete os p V"
  shows "C w' = overwrite (unat start) (concat (map (map_range V) maps)) (C w)"
proof -
  obtain len w1 buf iovs n where m: "co_mmap os len fd start w = Some (w1, Inr buf)" and i: "map_res src_iov maps = Inr iovs"
    and r: "co_readv os p (buf, len) iovs w1 = Some (w', Inr n)"
    using assms(1) by (auto simp: dump_mappings_def io_simps split: if_splits)
  have "iovs = map (\<lambda>m. (mp_start m, mp_end m - mp_start m)) maps"
    using i by (induction maps arbitrary: iovs) (auto simp: src_iov_def mp_size_def res_simps)
  then have d: "map (mem_range V) iovs = map (map_range V) maps" by (simp add: map_range_def)
  have "C w1 = C w \<and> C w' = overwrite (unat start) (take (unat n) (concat (map (mem_range V) iovs))) (C w1)"
    using assms(2) m r unfolding core_ok_def by blast
  moreover have "unat n = length (concat (map (mem_range V) iovs))" using assms(3) r unfolding reads_complete_def by blast
  ultimately show ?thesis by (simp add: d)
qed

lemma overwrite_end:
  assumes "length a \<le> s" "s + length d = length z"
  shows "overwrite s d (overwrite 0 a z) = a @ drop (length a) (take s z) @ d"
  using assms by (simp add: overwrite_def drop_take)

lemma unat_phnum: "n < 65535 \<Longrightarrow> unat (of_nat (n + 1) :: u16) = n + 1"
  by (simp add: unat_of_nat take_bit_nat_eq_self del: of_nat_add of_nat_Suc)

lemma write_corefile_content:
  assumes "write_corefile os l p fd maps vcpus w = Some (w', Inr ())" "core_ok os fd C P p V" "reads_complete os p V" "P w = 0"
    "length maps < 65535" "\<forall>v \<in> set vcpus. vcpu_ok l v" "length vcpus < 2 ^ 64"
  obtains meta nlen start loads e pad where
    "unat meta = 64 + 56 * (length maps + 1)" "length (all_notes l vcpus) = unat nlen" "load_headers maps start = Inr (loads, e)"
    "C w' = ehdr_bytes (core_elf_header (of_nat (length maps + 1))) @ concat (map phdr_bytes (pt_note_header meta nlen # loads)) @
       all_notes l vcpus @ pad @ concat (map (map_range V) maps)"
    "unat meta + unat nlen + length pad = unat start"
proof -
  let ?e = "core_elf_header (of_nat (length maps + 1))"
  obtain mm meta nlen sum start loads e w1 w2 w3 w4 where
    m: "chk_mul PHDR_SIZE (ucast (e_phnum ?e)) = Inr mm" "chk_add EHDR_SIZE mm = Inr meta" and
    n: "pt_note_len l (length vcpus) = Inr nlen" and st: "chk_add meta nlen = Inr sum" "page_align sum = Inr start" and
    l: "load_headers maps start = Inr (loads, e)" and sl: "co_set_len os fd e w = Some (w1, Inr ())" and
    wh: "write_headers os fd ?e (pt_note_header meta nlen # loads) w1 = Some (w2, Inr ())" and
    wn: "write_note_sections os l fd vcpus w2 = Some (w3, Inr ())" and
    fl: "co_flush os fd w3 = Some (w4, Inr ())" and d: "dump_mappings os p fd e start maps w4 = Some (w', Inr ())"
    using assms(1) by (auto simp: write_corefile_def Let_def io_simps bind_res_Inr)
  have "unat (ucast (e_phnum ?e) :: usize) = length maps + 1"
    using unat_phnum[OF assms(5)] assms(5) by (simp add: core_elf_header_def unsigned_ucast_eq take_bit_nat_eq_self del: of_nat_add of_nat_Suc)
  then have meta: "unat meta = 64 + 56 * (length maps + 1)"
    using unat_chk_mul[OF m(1)] unat_chk_add[OF m(2)] by (simp add: PHDR_SIZE_def EHDR_SIZE_def)
  let ?a = "(ehdr_bytes ?e @ concat (map phdr_bytes (pt_note_header meta nlen # loads))) @ all_notes l vcpus"
  have a: "length ?a = unat sum"
    using length_all_notes[OF n assms(6,7)] length_load_headers[OF l] meta unat_chk_add[OF st(1)]
    by (simp add: length_concat comp_def sum_list_triv)
  have s: "unat sum \<le> unat start" using page_align_aligned(2)[OF st(2)] by (simp add: word_le_nat_alt)
  have e: "unat e = unat start + length (concat (map (map_range V) maps))"
    using load_headers_segments[OF l, of "replicate (unat start) 0" V] by simp
  have c1: "length (C w1) = unat e" "P w1 = 0" using assms(2,4) sl unfolding core_ok_def by auto
  have wr: "\<And>bs. appends C P bs (co_write_all os fd bs)" using assms(2) by (simp add: core_ok_def)
  have "appends C P ?a (bind_io (write_headers os fd ?e (pt_note_header meta nlen # loads)) (\<lambda>_. write_note_sections os l fd vcpus))"
    by (intro appends_bind appends_headers appends_note_sections wr)
  moreover have "bind_io (write_headers os fd ?e (pt_note_header meta nlen # loads)) (\<lambda>_. write_note_sections os l fd vcpus) w1 = Some (w3, Inr ())"
    using wh wn by (simp add: bind_io_def)
  ultimately have "C w3 = overwrite 0 ?a (C w1)" using c1 a s e unfolding appends_def by fastforce
  moreover have "C w4 = C w3" using assms(2) fl unfolding core_ok_def by blast
  ultimately have "C w' = overwrite (unat start) (concat (map (map_range V) maps)) (overwrite 0 ?a (C w1))"
    using dump_mappings_content[OF d assms(2,3)] by simp
  also have "\<dots> = ?a @ drop (length ?a) (take (unat start) (C w1)) @ concat (map (map_range V) maps)"
    by (rule overwrite_end) (use a s e c1 in simp_all)
  finally show thesis
    using that[OF meta length_all_notes[OF n assms(6,7)] l, of "drop (length ?a) (take (unat start) (C w1))"] a s e c1 unat_chk_add[OF st(1)]
    by simp
qed


section \<open>An example\<close>

text \<open>A file in memory, of which every operation succeeds; the world is its content and position, and a mapping is its offset.\<close>

definition toy_mem :: "usize \<Rightarrow> u8" where
  "toy_mem a = ucast a"

definition toy_core :: "(bytes \<times> nat) core_os" where
  "toy_core =
     \<lparr>co_open = (\<lambda>_. ret 3), co_close = (\<lambda>_. ret ()),
      co_set_len = (\<lambda>_ n (f, q). Some ((take (unat n) f @ replicate (unat n - length f) 0, q), Inr ())),
      co_write_all = (\<lambda>_ bs (f, q). Some ((overwrite q bs f, q + length bs), Inr ())), co_flush = (\<lambda>_. ret ()),
      co_mmap = (\<lambda>_ _ off. ret off),
      co_readv = (\<lambda>_ (buf, _) srcs (f, q).
        let bs = concat (map (mem_range toy_mem) srcs) in
        if length bs < 2 ^ 64 then Some ((overwrite (unat buf) bs f, q), Inr (of_nat (length bs))) else Some ((f, q), Inl (Err [])))\<rparr>"

lemma toy_core_ok: "core_ok toy_core 3 fst snd p toy_mem"
  by (auto simp: core_ok_def toy_core_def appends_def ret_def Let_def unat_of_nat take_bit_nat_eq_self split: if_splits)

lemma toy_reads_complete: "reads_complete toy_core p toy_mem"
  by (auto simp: reads_complete_def toy_core_def Let_def unat_of_nat take_bit_nat_eq_self split: if_splits)

abbreviation always :: "('w, unit) io \<Rightarrow> bool" where
  "always m \<equiv> \<forall>w. \<exists>w'. m w = Some (w', Inr ())"

lemma always_bind:
  assumes "always m" "always n"
  shows "always (bind_io m (\<lambda>_. n))"
proof
  fix w
  obtain w1 where "m w = Some (w1, Inr ())" using assms(1) by blast
  moreover obtain w2 where "n w1 = Some (w2, Inr ())" using assms(2) by blast
  ultimately show "\<exists>w'. bind_io m (\<lambda>_. n) w = Some (w', Inr ())" by (simp add: bind_io_def)
qed

lemma always_try:
  assumes "always m"
  shows "always (try_io m msg)"
proof
  fix w
  obtain w1 where "m w = Some (w1, Inr ())" using assms by blast
  then show "\<exists>w'. try_io m msg w = Some (w', Inr ())" by (simp add: try_io_def)
qed

lemma always_for: "(\<And>x. always (m x)) \<Longrightarrow> always (for_io xs m)"
  by (induction xs) (auto simp: ret_def intro!: always_bind[rule_format])

lemma toy_write_always: "always (co_write_all toy_core fd bs)"
  by (simp add: toy_core_def)

lemma toy_note_always: "always (write_note toy_core fd name ntype payload)"
  unfolding write_note_def by (intro always_bind always_try toy_write_always)

lemma toy_sections_always: "always (write_note_sections toy_core l fd vcpus)"
proof -
  have "always (write_vcpu_notes toy_core l fd iv)" for iv
    unfolding write_vcpu_notes_def write_note_section_def write_fpu_registers_def
    by (cases iv) (simp only: prod.case, intro always_bind always_try toy_note_always)
  then show ?thesis
    unfolding write_note_sections_def write_note_section_def by (intro always_bind always_try always_for toy_note_always)
qed

lemma toy_headers_always: "always (write_headers toy_core fd e hs)"
  unfolding write_headers_def by (intro always_bind always_try always_for toy_write_always)

text \<open>One virtual CPU and two short mappings.\<close>

definition toy_layout :: "(kvm_sregs, u64) kvm_layout" where
  "toy_layout =
     \<lparr>kl_sregs = \<lparr>cd_size = 16, cd_enc = (\<lambda>s. word_bytes 8 (sr_cr3 s) @ word_bytes 8 (sr_cr4 s)),
        cd_dec = (\<lambda>bs. \<lparr>sr_cr3 = field 0 8 bs, sr_cr4 = field 8 8 bs\<rparr>)\<rparr>,
      kl_msr = \<lparr>cd_size = 8, cd_enc = word_bytes 8, cd_dec = field 0 8\<rparr>\<rparr>"

definition toy_vcpu :: "(kvm_sregs, u64) vcpu_state" where
  "toy_vcpu =
     \<lparr>vs_regs = zero_regs, vs_sregs = \<lparr>sr_cr3 = 0x1000, sr_cr4 = 0\<rparr>,
      vs_fpu_regs = \<lparr>fp_cwd = 0x37F, fp_swd = 0, fp_twd = 0, fp_fop = 0, fp_rip = 0, fp_rdp = 0, fp_mxcsr = 0x1F80, fp_mxcsr_mask = 0,
        fp_st_space = replicate 32 0, fp_xmm_space = replicate 64 0, fp_padding = replicate 12 0, fp_padding1 = replicate 12 0\<rparr>,
      vs_msr = 0xD01\<rparr>"

definition toy_map :: "usize \<Rightarrow> usize \<Rightarrow> usize \<Rightarrow> mapping" where
  "toy_map a b phys =
     \<lparr>mp_start = a, mp_end = b, mp_prot_flags = PROT_READ, mp_map_flags = MAP_PRIVATE, mp_offset = 0, mp_major_dev = 0, mp_minor_dev = 0,
      mp_inode = 0, mp_pathname = [], mp_phys_addr = phys\<rparr>"

definition toy_maps :: "mapping list" where
  "toy_maps = [toy_map 0x10000 0x10020 0x2000, toy_map 0x20000 0x20008 0]"

lemma toy_vcpu_ok: "vcpu_ok toy_layout toy_vcpu"
  by (simp add: vcpu_ok_def toy_layout_def toy_vcpu_def)

lemma toy_sizes:
  "bind_res (chk_mul PHDR_SIZE (ucast (e_phnum (core_elf_header (of_nat (length toy_maps + 1)))))) (chk_add EHDR_SIZE) = Inr 232"
  "pt_note_len toy_layout 1 = Inr 1096" "bind_res (chk_add 232 1096) page_align = Inr 4096"
  "\<exists>hs. load_headers toy_maps 4096 = Inr (hs, 4136)" "off_sub 4136 4096 = Inr 40"
  "map_res src_iov toy_maps = Inr [(0x10000, 32), (0x20000, 8)]"
proof -
  show "bind_res (chk_mul PHDR_SIZE (ucast (e_phnum (core_elf_header (of_nat (length toy_maps + 1)))))) (chk_add EHDR_SIZE) = Inr 232" by code_simp
  show "pt_note_len toy_layout 1 = Inr 1096" by code_simp
  show "bind_res (chk_add 232 1096) page_align = Inr 4096" by code_simp
  show "\<exists>hs. load_headers toy_maps 4096 = Inr (hs, 4136)"
    by (simp add: toy_maps_def toy_map_def pt_load_header_def mp_size_def chk_sub_def chk_add_alt)
  show "off_sub 4136 4096 = Inr 40" by (simp add: off_sub_def)
  show "map_res src_iov toy_maps = Inr [(0x10000, 32), (0x20000, 8)]"
    by (simp add: toy_maps_def toy_map_def src_iov_def mp_size_def chk_sub_def)
qed

lemma toy_dump: "\<exists>w'. dump_mappings toy_core p 3 4136 4096 toy_maps w = Some (w', Inr ())"
proof -
  have "\<exists>w' n. co_readv toy_core p (4096, 40) [(0x10000, 32), (0x20000, 8)] w = Some (w', Inr n)"
    by (cases w) (simp add: toy_core_def Let_def)
  then show ?thesis
    by (auto simp: dump_mappings_def toy_sizes bind_io_def lift_res_def try_io_def toy_core_def ret_def)
qed

lemma toy_corefile: "\<exists>w'. write_corefile toy_core toy_layout p 3 toy_maps [toy_vcpu] ([], 0) = Some (w', Inr ())"
proof -
  obtain hs where hs: "load_headers toy_maps 4096 = Inr (hs, 4136)" using toy_sizes(4) by blast
  let ?e = "core_elf_header (of_nat (length toy_maps + 1))"
  have "always (try_io (co_set_len toy_core 3 4136) msg)" for msg by (intro always_try) (simp add: toy_core_def)
  moreover have "always (try_io (co_flush toy_core 3) msg)" for msg by (intro always_try) (simp add: toy_core_def ret_def)
  moreover have "always (dump_mappings toy_core p 3 4136 4096 toy_maps)" using toy_dump by blast
  ultimately have "always (bind_io (try_io (co_set_len toy_core 3 4136) ''cannot truncate core file'') (\<lambda>_.
      bind_io (write_headers toy_core 3 ?e (pt_note_header 232 1096 # hs)) (\<lambda>_.
      bind_io (write_note_sections toy_core toy_layout 3 [toy_vcpu]) (\<lambda>_.
      bind_io (try_io (co_flush toy_core 3) ''cannot flush core file'') (\<lambda>_. dump_mappings toy_core p 3 4136 4096 toy_maps)))))"
    by (intro always_bind toy_headers_always toy_sections_always)
  then obtain w' where "bind_io (try_io (co_set_len toy_core 3 4136) ''cannot truncate core file'') (\<lambda>_.
      bind_io (write_headers toy_core 3 ?e (pt_note_header 232 1096 # hs)) (\<lambda>_.
      bind_io (write_note_sections toy_core toy_layout 3 [toy_vcpu]) (\<lambda>_.
      bind_io (try_io (co_flush toy_core 3) ''cannot flush core file'') (\<lambda>_. dump_mappings toy_core p 3 4136 4096 toy_maps)))) ([], 0) =
      Some (w', Inr ())" by blast
  then show ?thesis
    unfolding write_corefile_def Let_def toy_sizes(1) using toy_sizes(2,3) hs
    by (simp add: bind_io_lift_Inr)
qed


end
