(* ===== verification/Spec2Isabelle.thy ===== *)
theory Spec2Isabelle
  imports Devices Commands Stage2 Coredump
begin

text \<open>
  Verification of vmsh, a program that attaches to a running virtual machine from outside: it traces the hypervisor process, runs system
  calls in it, adds memory to the guest, loads a small library into the kernel of the guest (stage 1), serves a
  virtio block device and a console to it, and lets it start a program (stage 2) in the user space of the guest that runs a command on
  the file system of the block device.

  \<^bold>\<open>Parts of the program and theories.\<close> Paths are relative to \<^verbatim>\<open>src\<close> of the repository.

  \<^item> Vocabulary. \<open>Vmsh_Prelude\<close> has words, results with errors and panics, checked arithmetic, little-endian bytes and slices; \<open>Str\<close> the string
    functions of the standard library; \<open>Sys_Io\<close> the operations with effects, the system calls (\<open>os\<close>), and rules
    for what an operation keeps of the state (\<open>frames\<close>, \<open>ends\<close>).
  \<^item> Addresses and page tables. \<open>Page_Math\<close> (\<^verbatim>\<open>page_math.rs\<close>), \<open>Phys_Map\<close> (\<^verbatim>\<open>PhysHostMap\<close> of \<^verbatim>\<open>guest_mem.rs\<close>), \<open>Page_Table\<close> (\<^verbatim>\<open>map_memory\<close>
    of \<^verbatim>\<open>page_table.rs\<close> with its heap of shared tables) and \<open>Page_Iter\<close> (its iterator). \<open>Page_Walk\<close>, \<open>Page_Map\<close> and \<open>Page_Commit\<close> prove
    \<^verbatim>\<open>map_memory\<close> correct against the walk of the processor; \<open>Page_Example\<close> evaluates it on a concrete guest.
  \<^item> The traced process. \<open>Cpu\<close> (\<^verbatim>\<open>cpu.rs\<close>), \<open>Proc_Maps\<close> (\<^verbatim>\<open>tracer/proc.rs\<close>, \<^verbatim>\<open>kvm/memslots.rs\<close>), \<open>Ptrace\<close> (\<^verbatim>\<open>tracer/ptrace.rs\<close>,
    \<^verbatim>\<open>tracer/ptrace_syscall_info.rs\<close>), \<open>Tracer_Inject\<close> (\<^verbatim>\<open>tracer/inject_syscall.rs\<close>), \<open>Tracer_Wrap\<close> (\<^verbatim>\<open>tracer/wrap_syscall.rs\<close>). \<open>Sim_Os\<close> is a
    small operating system on which they run in the examples.
  \<^item> The virtual machine. \<open>Ioctls\<close> (\<^verbatim>\<open>kvm/ioctls.rs\<close>), \<open>Tracee\<close> (\<^verbatim>\<open>kvm/tracee.rs\<close>, \<^verbatim>\<open>kvm/hypervisor/memory.rs\<close>), \<open>Hypervisor\<close>
    (\<^verbatim>\<open>kvm/hypervisor/hypervisor.rs\<close>), \<open>Guest_Mem\<close> (\<^verbatim>\<open>guest_mem.rs\<close>), \<open>Phys_Alloc\<close> (\<^verbatim>\<open>kvm/allocator.rs\<close>), \<open>Fd_Transfer\<close>
    (\<^verbatim>\<open>kvm/fd_transfer.rs\<close>), \<open>Ioregion\<close> (\<^verbatim>\<open>kvm/kvm_ioregionfd.rs\<close> and the event descriptors of \<^verbatim>\<open>kvm/hypervisor\<close>).
  \<^item> The way into the guest. \<open>Kernel\<close> (\<^verbatim>\<open>kernel.rs\<close>) finds the symbols of the kernel, \<open>Loader\<close> (\<^verbatim>\<open>loader.rs\<close>, \<^verbatim>\<open>stage1.rs\<close>,
    \<^verbatim>\<open>stage1-interface\<close>) links stage 1 against them and writes its arguments.
  \<^item> The devices. \<open>Virtio\<close>, \<open>Block_Dev\<close>, \<open>Console_Dev\<close> and \<open>Virtio_Dev\<close> (\<^verbatim>\<open>devices/virtio\<close>), \<open>Devices\<close> (\<^verbatim>\<open>devices\<close> and
    \<^verbatim>\<open>interrutable_thread.rs\<close>).
  \<^item> In the guest. \<open>Stage1_Guest\<close> (\<^verbatim>\<open>stage1/src\<close>), \<open>Stage2_Proc\<close> and \<open>Stage2\<close> (\<^verbatim>\<open>stage2/src\<close>, \<^verbatim>\<open>ioutils/src/tmp.rs\<close>).
  \<^item> Commands. \<open>Commands\<close> (\<^verbatim>\<open>attach.rs\<close>, \<^verbatim>\<open>console.rs\<close>), \<open>Coredump\<close> (\<^verbatim>\<open>coredump.rs\<close>, \<^verbatim>\<open>elf.rs\<close>).

  \<^bold>\<open>How code becomes definitions.\<close> A structure is a record or, where nothing but its layout matters, its bytes; a function has the name it
  has in the code unless another definition has it. A fallible function gives \<open>'a res\<close>, where \<open>Inl (Err _)\<close> is
  the error of the code with its chain of messages and \<open>Inl (Panic _)\<close> a panic. An operation with effects is \<open>('w, 'a) io\<close>: from a world to nothing, if
  it never returns, or to a world and a result. Destructors are explicit and run on both kinds of error. The host program
  is built with overflow checks, stages 1 and 2 without, so the arithmetic of the former panics and that of the latter wraps. What belongs
  to other packages, to the kernels of host and guest and to KVM is an argument, usually a field of a record (\<open>os\<close>, \<open>kenv\<close>, \<open>lenv\<close>,
  \<open>dev_env\<close>, \<open>kernel_ffi\<close>, \<open>s2sys\<close>, \<open>core_os\<close>); where a property depends on its behaviour, a predicate with a name (\<open>ptrace_ok\<close>,
  \<open>queue_ok\<close>, \<open>kernel_ok\<close>, \<open>creds_ok\<close>, \<open>core_ok\<close>) says what its documentation promises, and the witness of the property shows an instance
  of it. Messages to the log are left out; an error message loses its arguments.

  \<^bold>\<open>What is proved.\<close>

  \<^item> Memory. The pages of a mapping within one GiB translate as asked, no translation of the guest is lost, dropping the mapping restores the
    tables, the estimate of their number is enough (\<open>Page_Commit\<close>); the iterator delivers the pages of the recursive walk
    (\<open>Page_Iter\<close>); the merged map of memslots answers like the slots themselves (\<open>Phys_Map\<close>, \<open>Guest_Mem\<close>); the allocator never hands
    out overlapping memory (\<open>Phys_Alloc\<close>).
  \<^item> Tracing. Injection restores registers and text, runs the call it was asked for, and has one owner (\<open>Tracer_Inject\<close>); a request of the
    guest is reported only when a virtual CPU has left \<^verbatim>\<open>KVM_RUN\<close>, and the main thread is never lost (\<open>Tracer_Wrap\<close>); running
    a closure around \<^verbatim>\<open>KVM_RUN\<close> gives the tracer back (\<open>Hypervisor\<close>); a finished attach lets the hypervisor go (\<open>Commands\<close>).
  \<^item> Loading. The symbols found are those of the table of the kernel (\<open>Kernel\<close>), a relocation stores what it says and the arguments of stage 1
    read back (\<open>Loader\<close>).
  \<^item> Devices. The block device refines a disk and serves its queue in order, the console transmits everything, the state that stage 1
    sees is the state of vmsh, and exactly the accesses to the devices are taken from the hypervisor but for one byte (\<open>Block_Dev\<close>,
    \<open>Console_Dev\<close>, \<open>Virtio_Dev\<close>, \<open>Devices\<close>, \<open>Ioregion\<close>).
  \<^item> In the guest. Stage 1 unregisters every device before it reports an end and writes stage 2 completely (\<open>Stage1_Guest\<close>); the
    command runs with the identity of its target and, for root, confined to its capabilities (\<open>Stage2\<close>).
  \<^item> Core dumps. Whoever reads the file by its headers finds the registers and the memory of the guest (\<open>Coredump\<close>).

  Contracts between components are locales, interpreted on the definitions of the provider: \<open>pow2\<close> (rounding), \<open>range_map\<close> (lookup in the
  memslots), \<open>bump_allocator\<close> (addresses handed out), \<open>max_queue\<close> (the numbers of consoles).

  \<^bold>\<open>Loops.\<close> A loop over a list is structural recursion or \<open>for_io\<close>; other loops that end have a measure. A loop that waits for the kernel, the
  guest or another thread is \<open>partial_function (option)\<close>; that it returns is proved where the code
  relies on it (waiting for the stop of a system call, the queues of both devices). No definition runs on fuel. The only bounds are those of the code:
  1024 memslots and a queue of 128 nodes in the eBPF walk, five extents of a map of ids, 20 retries of the worker of stage 1, 255 bytes of the
  version.

  \<^bold>\<open>Concurrency.\<close> What threads share is a \<open>cell\<close> of the world. Interleavings are sequences of steps (\<open>Devices\<close>: the notifier; \<open>Tracer_Wrap\<close>:
  any number of waits); a lock is free whenever it is taken, as no function keeps one while it calls another that takes it, and is
  left out.

  \<^bold>\<open>Not modelled.\<close> The command line (\<^verbatim>\<open>bin/vmsh.rs\<close>: declarations for \<^verbatim>\<open>clap\<close>) and the dispatch to the commands; the first half of \<^verbatim>\<open>attach\<close>,
  which builds the components in the order of this list over threads of the operating system, and the handler of signals;
  \<^verbatim>\<open>inspect.rs\<close> and \<^verbatim>\<open>debug.rs\<close>, which print or start a debugger; compiling and loading the eBPF program, and its variant for kernels
  before 5.16; \<^verbatim>\<open>blkdev_monitor\<close>, which logs; other architectures than x86-64; \<^verbatim>\<open>stage2/src/cgroup.rs\<close>, which no module declares, and
  \<^verbatim>\<open>procfs/unix.rs\<close>, which nothing calls; the trampoline of stage 1 in assembler, \<^verbatim>\<open>printk.rs\<close>, and the scripts that run at build time.
\<close>

end
